(* ===== verification/Skedulr_Prelude.thy ===== *)
theory Skedulr_Prelude
  imports Main "HOL-Library.Multiset" "HOL-Library.Signed_Division"
begin

text \<open>
  Shared vocabulary of the development: the simplification collections of the
  components, Go's fixed-width integer arithmetic, run-time faults as values, and the
  lemmas on lists and integers that several components use.
\<close>

named_theorems heap_simps \<open>equations of the heap interfaces\<close>
named_theorems wheel_simps \<open>field equations of the timing wheel operations\<close>
named_theorems sched_simps \<open>field equations of the scheduler operations\<close>

section \<open>Run-time faults\<close>

text \<open>
  A Go operation that panics has no result. The model returns the fault on the left of
  a sum. \<open>OutOfFuel\<close> is not a Go fault: it marks a recursion cut off by the fuel of the
  model, and the lemmas show that it does not arise within the stated bounds.
\<close>

datatype go_fault = DivideByZero | IndexOutOfRange | MakeSliceRange | OutOfFuel

type_synonym 'a go = "go_fault + 'a"

definition go_bind :: "'a go \<Rightarrow> ('a \<Rightarrow> 'b go) \<Rightarrow> 'b go" where
  "go_bind x f = (case x of Inl e \<Rightarrow> Inl e | Inr v \<Rightarrow> f v)"

lemma go_bind_simps [simp]: "go_bind (Inl e) f = Inl e" "go_bind (Inr v) f = f v"
  by (simp_all add: go_bind_def)

text \<open>A loop over a slice whose body may panic.\<close>

fun go_fold :: "('a \<Rightarrow> 's \<Rightarrow> 's go) \<Rightarrow> 'a list \<Rightarrow> 's \<Rightarrow> 's go" where
  "go_fold f [] s = Inr s"
| "go_fold f (x # xs) s = go_bind (f x s) (go_fold f xs)"

section \<open>Signed 64-bit integers\<close>

text \<open>
  \<open>int\<close> and \<open>int64\<close> of the source are two's complement: sums and products wrap
  around, division truncates (\<open>sdiv\<close> and \<open>smod\<close> of the library).
\<close>

definition wrap64 :: "int \<Rightarrow> int" where
  "wrap64 x = (x + 2 ^ 63) mod 2 ^ 64 - 2 ^ 63"

definition in_int64 :: "int \<Rightarrow> bool" where
  "in_int64 x \<longleftrightarrow> - (2 ^ 63) \<le> x \<and> x < 2 ^ 63"

definition add64 :: "int \<Rightarrow> int \<Rightarrow> int" where
  "add64 a b = wrap64 (a + b)"

definition sub64 :: "int \<Rightarrow> int \<Rightarrow> int" where
  "sub64 a b = wrap64 (a - b)"

definition mul64 :: "int \<Rightarrow> int \<Rightarrow> int" where
  "mul64 a b = wrap64 (a * b)"

lemma wrap64_id: "in_int64 x \<Longrightarrow> wrap64 x = x"
  by (simp add: wrap64_def in_int64_def)

lemma wrap64_in_int64: "in_int64 (wrap64 x)"
proof -
  have "0 \<le> (x + 2 ^ 63) mod 2 ^ 64" and "(x + 2 ^ 63) mod 2 ^ 64 < (2 ^ 64 :: int)"
    by simp_all
  then show ?thesis by (simp add: wrap64_def in_int64_def)
qed

lemma add64_exact: "in_int64 (a + b) \<Longrightarrow> add64 a b = a + b"
  by (simp add: add64_def wrap64_id)

lemma add64_small: "0 \<le> a \<Longrightarrow> a < 2 ^ 62 \<Longrightarrow> 0 \<le> b \<Longrightarrow> b \<le> 2 ^ 62 \<Longrightarrow> add64 a b = a + b"
  by (intro add64_exact) (simp add: in_int64_def)

lemma sub64_exact: "in_int64 (a - b) \<Longrightarrow> sub64 a b = a - b"
  by (simp add: sub64_def wrap64_id)

lemma mul64_exact: "in_int64 (a * b) \<Longrightarrow> mul64 a b = a * b"
  by (simp add: mul64_def wrap64_id)

lemma sdiv_nonneg: "0 \<le> a \<Longrightarrow> 0 < b \<Longrightarrow> a sdiv b = a div (b :: int)"
  by (simp add: signed_divide_int_def sgn_if)

lemma smod_nonneg: "0 \<le> a \<Longrightarrow> 0 < b \<Longrightarrow> a smod b = a mod (b :: int)"
  by (simp add: signed_modulo_int_def sgn_if)

section \<open>Flooring to a quantum\<close>

definition floor_to :: "int \<Rightarrow> int \<Rightarrow> int" where
  "floor_to q x = x - x mod q"

lemma floor_to_le: "0 < q \<Longrightarrow> floor_to q x \<le> x"
  by (simp add: floor_to_def)

lemma floor_to_gt: "0 < q \<Longrightarrow> x < floor_to q x + q"
  using pos_mod_bound [of q x] by (simp add: floor_to_def)

lemma floor_to_dvd [simp]: "q dvd floor_to q x"
  by (simp add: floor_to_def)

lemma floor_to_eq_mult: "floor_to q x = (x div q) * q"
  by (simp add: floor_to_def minus_mod_eq_div_mult)

lemma floor_to_id: "q dvd x \<Longrightarrow> floor_to q x = x"
  by (simp add: floor_to_def dvd_eq_mod_eq_0)

text \<open>The Go expression \<open>t - (t % q)\<close>.\<close>

lemma sub64_floor:
  assumes "0 \<le> t" and "t < 2 ^ 63" and "0 < q"
  shows "sub64 t (t smod q) = floor_to q t"
proof -
  have "0 \<le> t mod q" using assms(3) by simp
  moreover have "t mod q \<le> t" using assms(1) by (rule zmod_le_nonneg_dividend)
  ultimately have "in_int64 (t - t mod q)"
    using assms(2) unfolding in_int64_def by linarith
  then show ?thesis
    using assms by (simp add: sub64_exact floor_to_def smod_nonneg)
qed

lemma floor_to_mono:
  assumes "0 < q" and "x \<le> y"
  shows "floor_to q x \<le> floor_to q y"
  using assms by (simp add: floor_to_eq_mult zdiv_mono1)

lemma floor_to_greatest:
  assumes "0 < q" and "q dvd m" and "m \<le> x"
  shows "m \<le> floor_to q x"
  using floor_to_mono [OF assms(1,3)] assms(2) by (simp add: floor_to_id)

lemma floor_to_unique:
  assumes "0 < q" and "q dvd m" and "m \<le> x" and "x < m + q"
  shows "floor_to q x = m"
proof -
  from assms(2) obtain d where m: "m = q * d" ..
  from assms m have "x div q = d"
    by (intro int_div_pos_eq [of x q d "x - q * d"]) auto
  then show ?thesis by (simp add: floor_to_eq_mult m)
qed

section \<open>Lists\<close>

text \<open>Updating one record of a list leaves the fields that the update keeps.\<close>

lemma nth_update_field: "f v = f (xs ! i) \<Longrightarrow> f (xs[i := v] ! j) = f (xs ! j)"
  by (cases "i < length xs"; cases "i = j") (simp_all add: list_update_beyond)

subsection \<open>Swapping two elements\<close>

definition list_swap :: "'a list \<Rightarrow> nat \<Rightarrow> nat \<Rightarrow> 'a list" where
  "list_swap xs i j = xs[i := xs ! j, j := xs ! i]"

lemma length_list_swap [simp]: "length (list_swap xs i j) = length xs"
  by (simp add: list_swap_def)

lemma nth_list_swap:
  assumes "i < length xs" and "j < length xs" and "k < length xs"
  shows "list_swap xs i j ! k = (if k = i then xs ! j else if k = j then xs ! i else xs ! k)"
  using assms by (auto simp: list_swap_def nth_list_update)

lemma mset_list_swap [simp]:
  assumes "i < length xs" and "j < length xs"
  shows "mset (list_swap xs i j) = mset xs"
  using assms mset_swap [of j xs i] by (simp add: list_swap_def)

lemma set_list_swap [simp]:
  assumes "i < length xs" and "j < length xs"
  shows "set (list_swap xs i j) = set xs"
  using mset_list_swap [OF assms] by (metis set_mset_mset)

lemma distinct_list_swap [simp]:
  assumes "i < length xs" and "j < length xs"
  shows "distinct (list_swap xs i j) = distinct xs"
  using assms by (simp add: list_swap_def)

lemma map_list_swap:
  assumes "i < length xs" and "j < length xs"
  shows "map f (list_swap xs i j) = list_swap (map f xs) i j"
  using assms by (simp add: list_swap_def map_update)

end
