(* ===== verification/Go_Heap.thy ===== *)
theory Go_Heap
  imports Skedulr_Prelude
begin

text \<open>
  The binary heap of Go's \<open>container/heap\<close>, which both the scheduler's task queue
  (\<open>scheduler.go\<close>) and the wheel's delay queue (\<open>timing_wheel.go\<close>) use through
  \<open>heap.Push\<close>, \<open>heap.Pop\<close> and \<open>heap.Fix\<close>. An implementation of
  \<open>heap.Interface\<close> is a record of its five methods; the locale \<open>heap_impl\<close> states what
  they must do, and proves the heap operations correct once for both clients.
\<close>

section \<open>The interface and the operations\<close>

record ('h, 'x) heap_interface =
  iLen :: "'h \<Rightarrow> nat"
  iLess :: "'h \<Rightarrow> nat \<Rightarrow> nat \<Rightarrow> bool"
  iSwap :: "'h \<Rightarrow> nat \<Rightarrow> nat \<Rightarrow> 'h"
  iPush :: "'h \<Rightarrow> 'x \<Rightarrow> 'h"
  iPop :: "'h \<Rightarrow> 'x option \<times> 'h"

definition parent :: "nat \<Rightarrow> nat" where
  "parent j = (j - 1) div 2"

lemma parent_less: "0 < k \<Longrightarrow> parent k < k"
  by (simp add: parent_def)

lemma parent_le: "parent k \<le> k"
  by (simp add: parent_def)

lemma parent_bound: "k < n \<Longrightarrow> parent k < n"
  by (simp add: parent_def)

lemma parent_fixed: "parent k = k \<longleftrightarrow> k = 0"
  by (auto simp: parent_def)

lemma parent_child: "parent k = i \<Longrightarrow> 0 < k \<Longrightarrow> k = 2 * i + 1 \<or> k = 2 * i + 2"
  unfolding parent_def by presburger

lemma parent_children [simp]:
  "parent (2 * i + 1) = i" "parent (2 * i + 2) = i"
  "parent (Suc (2 * i)) = i" "parent (Suc (Suc (2 * i))) = i"
  by (simp_all add: parent_def)

function heap_up :: "('h, 'x) heap_interface \<Rightarrow> 'h \<Rightarrow> nat \<Rightarrow> 'h" where
  "heap_up I h j =
     (let i = parent j
      in if i = j \<or> \<not> iLess I h j i then h else heap_up I (iSwap I h i j) i)"
  by pat_completeness auto
termination
  by (relation "measure (\<lambda>(I, h, j). j)") (auto simp: parent_def)

text \<open>The second component is the index at which the loop of \<open>down\<close> stops.\<close>

function heap_down :: "('h, 'x) heap_interface \<Rightarrow> 'h \<Rightarrow> nat \<Rightarrow> nat \<Rightarrow> 'h \<times> nat" where
  "heap_down I h i n =
     (let j1 = 2 * i + 1
      in if j1 \<ge> n then (h, i)
         else let j = (if j1 + 1 < n \<and> iLess I h (j1 + 1) j1 then j1 + 1 else j1)
              in if \<not> iLess I h j i then (h, i)
                 else heap_down I (iSwap I h i j) j n)"
  by pat_completeness auto
termination
  by (relation "measure (\<lambda>(I, h, i, n). n - i)") (auto simp: Let_def split: if_splits)

declare heap_up.simps [simp del] heap_down.simps [simp del]

definition heap_Push :: "('h, 'x) heap_interface \<Rightarrow> 'h \<Rightarrow> 'x \<Rightarrow> 'h" where
  "heap_Push I h x = (let h1 = iPush I h x in heap_up I h1 (iLen I h1 - 1))"

text \<open>
  \<open>heap.Pop\<close> of an empty heap swaps index \<open>-1\<close> and panics: the outer \<open>None\<close>.
\<close>

definition heap_Pop :: "('h, 'x) heap_interface \<Rightarrow> 'h \<Rightarrow> ('x \<times> 'h) option" where
  "heap_Pop I h =
     (if iLen I h = 0 then None
      else let n = iLen I h - 1;
               h1 = iSwap I h 0 n;
               h2 = fst (heap_down I h1 0 n)
           in case iPop I h2 of (None, _) \<Rightarrow> None | (Some x, h3) \<Rightarrow> Some (x, h3))"

definition heap_Fix :: "('h, 'x) heap_interface \<Rightarrow> 'h \<Rightarrow> nat \<Rightarrow> 'h" where
  "heap_Fix I h i =
     (let (h1, stop) = heap_down I h i (iLen I h)
      in if stop > i then h1 else heap_up I h1 i)"

section \<open>The heap order on a list of keys\<close>

definition is_heap :: "int list \<Rightarrow> nat \<Rightarrow> bool" where
  "is_heap ks n \<longleftrightarrow> (\<forall>k < n. 0 < k \<longrightarrow> ks ! parent k \<le> ks ! k)"

text \<open>Every pair is in order but the one above \<open>j\<close>, and \<open>j\<close>'s children respect its parent.\<close>

definition up_order :: "int list \<Rightarrow> nat \<Rightarrow> nat \<Rightarrow> bool" where
  "up_order ks n j \<longleftrightarrow>
     (\<forall>k < n. 0 < k \<longrightarrow> k \<noteq> j \<longrightarrow> ks ! parent k \<le> ks ! k) \<and>
     (\<forall>k < n. 0 < k \<longrightarrow> parent k = j \<longrightarrow> 0 < j \<longrightarrow> ks ! parent j \<le> ks ! k)"

text \<open>Every pair is in order but those below \<open>i\<close>, whose children respect its parent.\<close>

definition down_order :: "int list \<Rightarrow> nat \<Rightarrow> nat \<Rightarrow> bool" where
  "down_order ks n i \<longleftrightarrow>
     (\<forall>k < n. 0 < k \<longrightarrow> parent k \<noteq> i \<longrightarrow> ks ! parent k \<le> ks ! k) \<and>
     (\<forall>k < n. 0 < k \<longrightarrow> parent k = i \<longrightarrow> 0 < i \<longrightarrow> ks ! parent i \<le> ks ! k)"

text \<open>The key at \<open>i\<close> may be out of order both ways: what \<open>heap.Fix\<close> repairs.\<close>

definition fix_order :: "int list \<Rightarrow> nat \<Rightarrow> nat \<Rightarrow> bool" where
  "fix_order ks n i \<longleftrightarrow>
     (\<forall>k < n. 0 < k \<longrightarrow> k \<noteq> i \<longrightarrow> parent k \<noteq> i \<longrightarrow> ks ! parent k \<le> ks ! k) \<and>
     (\<forall>k < n. 0 < k \<longrightarrow> parent k = i \<longrightarrow> 0 < i \<longrightarrow> ks ! parent i \<le> ks ! k)"

lemma is_heap_root:
  assumes "is_heap ks n" and "k < n"
  shows "ks ! 0 \<le> ks ! k"
  using assms(2)
proof (induction k rule: less_induct)
  case (less k)
  show ?case
  proof (cases "k = 0")
    case False
    then have "ks ! 0 \<le> ks ! parent k"
      using less parent_less [of k] by auto
    also have "\<dots> \<le> ks ! k"
      using assms(1) less.prems False by (simp add: is_heap_def)
    finally show ?thesis .
  qed simp
qed

lemma up_order_done:
  assumes "up_order ks n j" and "parent j = j \<or> ks ! parent j \<le> ks ! j"
  shows "is_heap ks n"
  using assms parent_fixed by (auto simp: up_order_def is_heap_def)

lemma up_order_swap:
  assumes ord: "up_order ks n j" and n: "n \<le> length ks" "j < n"
    and lt: "ks ! j < ks ! parent j" and ne: "parent j \<noteq> j"
  shows "up_order (list_swap ks (parent j) j) n (parent j)"
proof -
  let ?p = "parent j"
  let ?ks = "list_swap ks ?p j"
  have p: "?p < j" "0 < j" using ne parent_fixed [of j] parent_less [of j] by auto
  have val: "k < n \<Longrightarrow> ?ks ! k = (if k = ?p then ks ! j else if k = j then ks ! ?p else ks ! k)" for k
    using n p by (intro nth_list_swap) auto
  have pair: "k < n \<Longrightarrow> 0 < k \<Longrightarrow> k \<noteq> j \<Longrightarrow> ks ! parent k \<le> ks ! k" for k
    using ord by (simp add: up_order_def)
  have child: "k < n \<Longrightarrow> 0 < k \<Longrightarrow> parent k = j \<Longrightarrow> ks ! ?p \<le> ks ! k" for k
    using ord p by (simp add: up_order_def)
  have "?ks ! parent k \<le> ?ks ! k" if k: "k < n" "0 < k" "k \<noteq> ?p" for k
  proof -
    have pk: "parent k < n" using parent_less [OF k(2)] k(1) by simp
    show ?thesis
      using pair [OF k(1,2)] child [OF k(1,2)] k lt val [OF k(1)] val [OF pk] by auto
  qed
  moreover have "?ks ! parent ?p \<le> ?ks ! k"
    if k: "k < n" "0 < k" "parent k = ?p" "0 < ?p" for k
  proof -
    have pp: "parent ?p < n" "parent ?p \<noteq> ?p" "parent ?p \<noteq> j" "?p < n"
      using parent_less [OF k(4)] p n by auto
    have "ks ! parent ?p \<le> ks ! ?p" using pair [OF pp(4) k(4)] p by simp
    then show ?thesis
      using pair [OF k(1,2)] k val [OF k(1)] val [OF pp(1)] pp parent_less [OF k(2)] by auto
  qed
  ultimately show ?thesis by (simp add: up_order_def)
qed

lemma down_order_done:
  assumes "down_order ks n i" and "n \<le> 2 * i + 1 \<or>
    (ks ! i \<le> ks ! (2 * i + 1) \<and> (2 * i + 2 < n \<longrightarrow> ks ! i \<le> ks ! (2 * i + 2)))"
  shows "is_heap ks n"
  unfolding is_heap_def
proof (intro allI impI)
  fix k assume k: "k < n" "0 < k"
  show "ks ! parent k \<le> ks ! k"
  proof (cases "parent k = i")
    case True
    then show ?thesis using parent_child [OF True k(2)] assms(2) k by auto
  next
    case False
    then show ?thesis using assms(1) k by (simp add: down_order_def)
  qed
qed

lemma down_order_fix: "down_order ks n i \<Longrightarrow> fix_order ks n i"
  by (simp add: down_order_def fix_order_def)

lemma is_heap_fix: "is_heap ks n \<Longrightarrow> i < n \<Longrightarrow> fix_order ks n i"
  unfolding is_heap_def fix_order_def by (metis order_trans)

lemma fix_order_up:
  assumes "fix_order ks n i" and "n \<le> 2 * i + 1 \<or>
    (ks ! i \<le> ks ! (2 * i + 1) \<and> (2 * i + 2 < n \<longrightarrow> ks ! i \<le> ks ! (2 * i + 2)))"
  shows "up_order ks n i"
proof -
  have "ks ! parent k \<le> ks ! k" if k: "k < n" "0 < k" "k \<noteq> i" for k
  proof (cases "parent k = i")
    case True
    then show ?thesis using parent_child [OF True k(2)] assms(2) k by auto
  next
    case False
    then show ?thesis using assms(1) k by (simp add: fix_order_def)
  qed
  then show ?thesis using assms(1) by (simp add: up_order_def fix_order_def)
qed

text \<open>Moving the smaller child \<open>j\<close> above \<open>i\<close> leaves only the pairs below \<open>j\<close> open.\<close>

lemma fix_order_swap:
  assumes ord: "fix_order ks n i" and n: "n \<le> length ks" "i < j" "j < n" "parent j = i"
    and lt: "ks ! j < ks ! i"
    and sib: "\<And>k. k < n \<Longrightarrow> 0 < k \<Longrightarrow> parent k = i \<Longrightarrow> ks ! j \<le> ks ! k"
  shows "down_order (list_swap ks i j) n j"
proof -
  let ?ks = "list_swap ks i j"
  have val: "k < n \<Longrightarrow> ?ks ! k = (if k = i then ks ! j else if k = j then ks ! i else ks ! k)" for k
    using n by (intro nth_list_swap) auto
  have pair: "k < n \<Longrightarrow> 0 < k \<Longrightarrow> k \<noteq> i \<Longrightarrow> parent k \<noteq> i \<Longrightarrow> ks ! parent k \<le> ks ! k" for k
    using ord by (simp add: fix_order_def)
  have above: "0 < i \<Longrightarrow> ks ! parent i \<le> ks ! j"
    using ord n by (simp add: fix_order_def)
  have "?ks ! parent k \<le> ?ks ! k" if k: "k < n" "0 < k" "parent k \<noteq> j" for k
  proof -
    have pk: "parent k < n" "parent k \<noteq> k" using parent_less [OF k(2)] k(1) by auto
    show ?thesis
      using pair [OF k(1,2)] sib [OF k(1,2)] above k lt val [OF k(1)] val [OF pk(1)] pk n by auto
  qed
  moreover have "?ks ! parent j \<le> ?ks ! k" if k: "k < n" "0 < k" "parent k = j" for k
  proof -
    have "ks ! j \<le> ks ! k" using pair [OF k(1,2)] k n parent_less [OF k(2)] by auto
    then show ?thesis using val [OF k(1)] val [of i] k n parent_less [OF k(2)] by auto
  qed
  ultimately show ?thesis by (simp add: down_order_def)
qed

text \<open>Changing one key of a heap leaves it in the shape \<open>heap.Fix\<close> repairs.\<close>

lemma fix_order_update:
  assumes "is_heap ks n" and "n \<le> length ks" and "i < n"
  shows "fix_order (ks[i := x]) n i"
proof -
  have pair: "ks ! parent k \<le> ks ! k" if "k < n" "0 < k" for k
    using assms(1) that by (simp add: is_heap_def)
  have "ks[i := x] ! parent i \<le> ks[i := x] ! k" if k: "k < n" "0 < k" "parent k = i" "0 < i" for k
    using pair [of k] pair [of i] k assms parent_fixed [of i] parent_less [of k] by simp
  then show ?thesis using pair by (simp add: fix_order_def)
qed

lemma up_order_append:
  assumes "is_heap ks (length ks)"
  shows "up_order (ks @ [x]) (Suc (length ks)) (length ks)"
proof -
  have "parent k \<noteq> length ks" if "k < Suc (length ks)" "0 < k" for k
    using that parent_less [of k] by simp
  then show ?thesis
    using assms by (auto simp: up_order_def is_heap_def nth_append parent_bound less_Suc_eq)
qed

lemma down_order_swap_last:
  assumes "is_heap ks (Suc n)" and "length ks = Suc n"
  shows "down_order (list_swap ks 0 n) n 0"
proof -
  have "list_swap ks 0 n ! parent k \<le> list_swap ks 0 n ! k"
    if k: "k < n" "0 < k" "parent k \<noteq> 0" for k
    using assms k parent_bound [OF k(1)] by (simp add: nth_list_swap is_heap_def)
  then show ?thesis by (simp add: down_order_def)
qed

lemma is_heap_butlast: "length ks = Suc n \<Longrightarrow> is_heap ks n \<Longrightarrow> is_heap (butlast ks) n"
  by (simp add: is_heap_def nth_butlast parent_bound)

section \<open>The contract of an implementation\<close>

text \<open>
  \<open>elems\<close> reads the stored elements in slice order, \<open>frame\<close> the part of the state that no
  method changes, from which \<open>key\<close> computes the order; \<open>inv\<close> is the representation
  invariant and \<open>fresh\<close> says which elements may be pushed.
\<close>

locale heap_impl =
  fixes I :: "('h, 'x) heap_interface"
    and elems :: "'h \<Rightarrow> 'x list"
    and frame :: "'h \<Rightarrow> 'f"
    and key :: "'f \<Rightarrow> 'x \<Rightarrow> int"
    and inv :: "'h \<Rightarrow> bool"
    and fresh :: "'h \<Rightarrow> 'x \<Rightarrow> bool"
  assumes len: "inv h \<Longrightarrow> iLen I h = length (elems h)"
    and less: "inv h \<Longrightarrow> i < length (elems h) \<Longrightarrow> j < length (elems h) \<Longrightarrow>
      iLess I h i j \<longleftrightarrow> key (frame h) (elems h ! i) < key (frame h) (elems h ! j)"
    and swap: "inv h \<Longrightarrow> i < length (elems h) \<Longrightarrow> j < length (elems h) \<Longrightarrow>
      elems (iSwap I h i j) = list_swap (elems h) i j \<and>
      frame (iSwap I h i j) = frame h \<and> inv (iSwap I h i j)"
    and push: "inv h \<Longrightarrow> fresh h x \<Longrightarrow>
      elems (iPush I h x) = elems h @ [x] \<and> frame (iPush I h x) = frame h \<and> inv (iPush I h x)"
    and pop: "inv h \<Longrightarrow> elems h \<noteq> [] \<Longrightarrow>
      fst (iPop I h) = Some (last (elems h)) \<and> elems (snd (iPop I h)) = butlast (elems h) \<and>
      frame (snd (iPop I h)) = frame h \<and> inv (snd (iPop I h))"
begin

definition keys :: "'h \<Rightarrow> int list" where
  "keys h = map (key (frame h)) (elems h)"

definition ordered :: "'h \<Rightarrow> bool" where
  "ordered h \<longleftrightarrow> is_heap (keys h) (length (elems h))"

text \<open>What every rearrangement of the heap keeps.\<close>

definition same :: "'h \<Rightarrow> 'h \<Rightarrow> bool" where
  "same h h' \<longleftrightarrow> inv h' \<and> frame h' = frame h \<and> mset (elems h') = mset (elems h)"

lemma same_refl: "inv h \<Longrightarrow> same h h"
  by (simp add: same_def)

lemma same_trans: "same h h' \<Longrightarrow> same h' h'' \<Longrightarrow> same h h''"
  by (simp add: same_def)

lemma same_length: "same h h' \<Longrightarrow> length (elems h') = length (elems h)"
  unfolding same_def by (metis size_mset)

lemma length_keys [simp]: "length (keys h) = length (elems h)"
  by (simp add: keys_def)

lemma nth_keys: "i < length (elems h) \<Longrightarrow> keys h ! i = key (frame h) (elems h ! i)"
  by (simp add: keys_def)

lemma less_keys:
  "inv h \<Longrightarrow> i < length (elems h) \<Longrightarrow> j < length (elems h) \<Longrightarrow> iLess I h i j \<longleftrightarrow> keys h ! i < keys h ! j"
  by (simp add: less nth_keys)

lemma same_swap:
  assumes "inv h" and "i < length (elems h)" and "j < length (elems h)"
  shows "same h (iSwap I h i j)" and "keys (iSwap I h i j) = list_swap (keys h) i j"
  using swap [OF assms] assms by (simp_all add: same_def keys_def map_list_swap)

lemma up_correct:
  assumes "inv h" and "j < length (elems h)" and "up_order (keys h) (length (elems h)) j"
  shows "same h (heap_up I h j) \<and> ordered (heap_up I h j)"
  using assms
proof (induction j arbitrary: h rule: less_induct)
  case (less j)
  let ?p = "parent j"
  have p: "?p < length (elems h)" using less.prems(2) parent_le [of j] by simp
  show ?case
  proof (cases "?p = j \<or> \<not> iLess I h j ?p")
    case True
    then have "ordered h"
      unfolding ordered_def using less.prems p
      by (intro up_order_done [of _ _ j]) (auto simp: less_keys)
    with True less.prems(1) show ?thesis
      by (simp add: heap_up.simps [of I h j] same_refl)
  next
    case False
    let ?h = "iSwap I h ?p j"
    note sw = same_swap [OF less.prems(1) p less.prems(2)]
    have "up_order (keys ?h) (length (elems ?h)) ?p"
      unfolding sw(2) same_length [OF sw(1)] using False less.prems p
      by (intro up_order_swap) (auto simp: less_keys)
    moreover have "?p < j" using False parent_fixed [of j] parent_less [of j] by simp
    ultimately have "same ?h (heap_up I ?h ?p) \<and> ordered (heap_up I ?h ?p)"
      using less.IH [of ?p ?h] sw(1) p same_length [OF sw(1)] by (simp add: same_def)
    with False sw(1) show ?thesis
      by (auto simp: heap_up.simps [of I h j] Let_def intro: same_trans)
  qed
qed

text \<open>One step of \<open>down\<close>: it stops with \<open>i\<close> above its children, or swaps the smaller child up.\<close>

lemma down_unfold:
  assumes "inv h" and "n \<le> length (elems h)"
  obtains
    (stop) "heap_down I h i n = (h, i)"
      "n \<le> 2 * i + 1 \<or> (keys h ! i \<le> keys h ! (2 * i + 1) \<and>
        (2 * i + 2 < n \<longrightarrow> keys h ! i \<le> keys h ! (2 * i + 2)))"
  | (move) j where "heap_down I h i n = heap_down I (iSwap I h i j) j n" "i < j" "j < n"
      "parent j = i" "keys h ! j < keys h ! i"
      "\<And>k. k < n \<Longrightarrow> 0 < k \<Longrightarrow> parent k = i \<Longrightarrow> keys h ! j \<le> keys h ! k"
proof -
  let ?l = "2 * i + 1" and ?r = "2 * i + 2"
  define j where "j = (if ?r < n \<and> iLess I h ?r ?l then ?r else ?l)"
  show thesis
  proof (cases "n \<le> ?l")
    case True
    then show ?thesis by (intro stop) (simp_all add: heap_down.simps [of I h i n])
  next
    case False
    have j: "i < j" "j < n" "parent j = i" using False by (auto simp: j_def)
    have min: "keys h ! j \<le> keys h ! k" if "k < n" "0 < k" "parent k = i" for k
      using parent_child [OF that(3,2)] that False assms by (auto simp: j_def less_keys)
    have unf: "heap_down I h i n = (if \<not> iLess I h j i then (h, i) else heap_down I (iSwap I h i j) j n)"
      using False by (subst heap_down.simps) (simp add: Let_def j_def)
    show ?thesis
    proof (cases "iLess I h j i")
      case True
      then show ?thesis using j assms unf min by (intro move) (auto simp: less_keys)
    next
      case le: False
      then have "keys h ! i \<le> keys h ! j" using j assms by (auto simp: less_keys)
      with min [of ?l] min [of ?r] False le unf show ?thesis by (intro stop) auto
    qed
  qed
qed

text \<open>
  \<open>down\<close> from \<open>i\<close> on the first \<open>n\<close> elements: the others stay where they are.
\<close>

lemma down_correct:
  assumes "inv h" and "n \<le> length (elems h)" and "down_order (keys h) n i"
  shows "same h (fst (heap_down I h i n)) \<and> is_heap (keys (fst (heap_down I h i n))) n \<and>
    drop n (elems (fst (heap_down I h i n))) = drop n (elems h)"
  using assms
proof (induction "n - i" arbitrary: h i rule: less_induct)
  case less
  show ?case
  proof (cases rule: down_unfold [OF less.prems(1,2), of i])
    case 1
    then show ?thesis
      using less.prems down_order_done [OF less.prems(3)] by (auto simp: same_refl)
  next
    case (2 j)
    let ?h = "iSwap I h i j"
    have ij: "i < length (elems h)" "j < length (elems h)" using 2 less.prems(2) by auto
    note sw = same_swap [OF less.prems(1) ij]
    have "down_order (keys ?h) n j"
      unfolding sw(2) using less.prems 2 by (intro fix_order_swap) (auto intro: down_order_fix)
    moreover have "drop n (elems ?h) = drop n (elems h)"
      using swap [OF less.prems(1) ij] 2 by (simp add: list_swap_def)
    ultimately show ?thesis
      using less.hyps [of j ?h] sw(1) same_length [OF sw(1)] less.prems(2) 2
      by (auto simp: same_def)
  qed
qed

lemma down_bounds:
  assumes "inv h" and "n \<le> length (elems h)" and "i < n"
  shows "i \<le> snd (heap_down I h i n) \<and> snd (heap_down I h i n) < n"
  using assms
proof (induction "n - i" arbitrary: h i rule: less_induct)
  case less
  show ?case
  proof (cases rule: down_unfold [OF less.prems(1,2), of i])
    case 1
    then show ?thesis using less.prems by simp
  next
    case (2 j)
    have ij: "i < length (elems h)" "j < length (elems h)" using 2 less.prems(2) by auto
    note sw = same_swap [OF less.prems(1) ij]
    have "n - j < n - i" using 2 by simp
    then have "j \<le> snd (heap_down I (iSwap I h i j) j n) \<and> snd (heap_down I (iSwap I h i j) j n) < n"
      using less.hyps [of j "iSwap I h i j"] 2 less.prems sw(1) same_length [OF sw(1)]
      by (simp add: same_def)
    then show ?thesis using 2 by simp
  qed
qed

subsection \<open>The heap operations\<close>

lemma Push_correct:
  assumes "inv h" and "ordered h" and "fresh h x"
  shows "inv (heap_Push I h x)" and "ordered (heap_Push I h x)"
    and "frame (heap_Push I h x) = frame h"
    and "mset (elems (heap_Push I h x)) = add_mset x (mset (elems h))"
proof -
  let ?h = "iPush I h x"
  note ps = push [OF assms(1,3)]
  have l: "iLen I ?h = Suc (length (elems h))" using ps len [of ?h] by simp
  have "up_order (keys ?h) (length (elems ?h)) (length (elems h))"
    using assms(2) ps up_order_append [of "keys h"] by (simp add: ordered_def keys_def)
  then have "same ?h (heap_Push I h x) \<and> ordered (heap_Push I h x)"
    using up_correct [of ?h "length (elems h)"] ps l by (simp add: heap_Push_def Let_def)
  then show "inv (heap_Push I h x)" and "ordered (heap_Push I h x)"
    and "frame (heap_Push I h x) = frame h"
    and "mset (elems (heap_Push I h x)) = add_mset x (mset (elems h))"
    using ps by (simp_all add: same_def)
qed

lemma Pop_empty: "inv h \<Longrightarrow> elems h = [] \<Longrightarrow> heap_Pop I h = None"
  by (simp add: heap_Pop_def len)

lemma ordered_min: "ordered h \<Longrightarrow> x \<in> set (elems h) \<Longrightarrow> key (frame h) (elems h ! 0) \<le> key (frame h) x"
  unfolding ordered_def in_set_conv_nth
  by (metis is_heap_root nth_keys length_pos_if_in_set nth_mem)

lemma Pop_correct:
  assumes "inv h" and "ordered h" and "elems h \<noteq> []"
  obtains h' where "heap_Pop I h = Some (elems h ! 0, h')" "inv h'" "ordered h'"
    "frame h' = frame h" "mset (elems h) = add_mset (elems h ! 0) (mset (elems h'))"
proof -
  define n where "n = length (elems h) - 1"
  let ?h1 = "iSwap I h 0 n"
  define h2 where "h2 = fst (heap_down I ?h1 0 n)"
  define h3 where "h3 = snd (iPop I h2)"
  have n: "n < length (elems h)" "0 < length (elems h)" "length (elems h) = Suc n"
    using assms(3) by (simp_all add: n_def)
  note sw = same_swap [OF assms(1) n(2,1)]
  have "down_order (keys ?h1) n 0"
    using assms(2) n down_order_swap_last [of "keys h" n] by (simp add: sw(2) ordered_def)
  then have dn: "same ?h1 h2" "is_heap (keys h2) n" "drop n (elems h2) = drop n (elems ?h1)"
    using down_correct [of ?h1 n 0] sw(1) same_length [OF sw(1)] n by (auto simp: h2_def same_def)
  have l2: "length (elems h2) = Suc n"
    using same_length [OF dn(1)] same_length [OF sw(1)] n by simp
  then have ne: "elems h2 \<noteq> []" by auto
  have "last (elems h2) = elems h2 ! n" using l2 ne by (simp add: last_conv_nth)
  also have "\<dots> = elems ?h1 ! n"
    using dn(3) l2 same_length [OF sw(1)] n by (metis Cons_nth_drop_Suc lessI list.inject)
  also have "\<dots> = elems h ! 0"
    using swap [OF assms(1) n(2,1)] n by (simp add: nth_list_swap)
  finally have lst: "last (elems h2) = elems h ! 0" .
  note pp = pop [of h2, folded h3_def]
  have "heap_Pop I h = Some (elems h ! 0, h3)"
    using pp dn(1) ne lst n assms(1)
    by (cases "iPop I h2")
      (auto simp: heap_Pop_def len Let_def n_def [symmetric] h2_def [symmetric] same_def h3_def)
  moreover have "mset (elems h) = add_mset (elems h ! 0) (mset (elems h3))"
    using pp dn(1) sw(1) ne lst append_butlast_last_id [OF ne]
    by (metis same_def mset_append add_mset_add_single mset.simps)
  moreover have "ordered h3"
    using dn(1,2) pp ne l2 is_heap_butlast [of "keys h2" n]
    by (simp add: ordered_def same_def keys_def map_butlast)
  ultimately show thesis
    using that [of h3] pp dn(1) sw(1) ne by (simp add: same_def)
qed

lemma Fix_correct:
  assumes "inv h" and "i < length (elems h)" and "fix_order (keys h) (length (elems h)) i"
  shows "same h (heap_Fix I h i) \<and> ordered (heap_Fix I h i)"
proof (cases rule: down_unfold [OF assms(1) order_refl, of i])
  case 1
  then have "up_order (keys h) (length (elems h)) i"
    using assms(3) by (intro fix_order_up) auto
  with 1 assms up_correct show ?thesis by (simp add: heap_Fix_def len)
next
  case (2 j)
  let ?h = "iSwap I h i j" and ?n = "length (elems h)"
  note sw = same_swap [OF assms(1,2) 2(3)]
  have "down_order (keys ?h) ?n j"
    unfolding sw(2) using assms 2 by (intro fix_order_swap) auto
  then have "same ?h (fst (heap_down I ?h j ?n)) \<and> is_heap (keys (fst (heap_down I ?h j ?n))) ?n"
    using down_correct [of ?h ?n j] sw(1) same_length [OF sw(1)] by (simp add: same_def)
  moreover have "j \<le> snd (heap_down I ?h j ?n)"
    using down_bounds [of ?h ?n j] sw(1) same_length [OF sw(1)] 2 by (simp add: same_def)
  ultimately show ?thesis
    using 2 assms(1) sw(1) same_trans [OF sw(1)] same_length
    by (auto simp: heap_Fix_def len ordered_def split: prod.splits)
qed

end

end
