(* ===== verification/Delay_Queue.thy ===== *)
theory Delay_Queue
  imports Go_Heap
begin

text \<open>
  The delay queue of \<open>timing_wheel.go\<close>: the buckets and levels of the wheel as data, the
  min-heap of buckets ordered by expiration (\<open>bucketHeap\<close>) with the index each bucket
  keeps of its own position, and the operations \<open>offer\<close> and \<open>poll\<close>.

  Buckets are shared, mutable objects: a bucket is named by its level and its slot, and the
  memory \<open>wheel_mem\<close> holds all levels (the base level first, each followed by its overflow)
  and the queue. A bucket's intrusive list of entries is the list of their references;
  theory \<open>Wheel_Bucket\<close> shows that the pointer structure of the source represents it.
\<close>

section \<open>Data\<close>

type_synonym entry_ref = nat

text \<open>A bucket is named by its level and its slot.\<close>

datatype bucket_ref = BRef (br_level: nat) (br_slot: nat)

record wheelBucket =
  b_expiration :: int
  b_entries :: "entry_ref list"
  b_heapIdx :: int

definition newWheelBucket :: wheelBucket where
  "newWheelBucket = \<lparr>b_expiration = -1, b_entries = [], b_heapIdx = -1\<rparr>"

record timingWheel =
  w_tickMs :: int
  w_wheelSize :: int
  w_interval :: int
  w_currentTime :: int
  w_buckets :: "wheelBucket list"

record wheel_mem =
  m_levels :: "timingWheel list"
  m_h :: "bucket_ref list"
  m_wake :: bool

definition valid_ref :: "wheel_mem \<Rightarrow> bucket_ref \<Rightarrow> bool" where
  "valid_ref m r \<longleftrightarrow> br_level r < length (m_levels m) \<and> br_slot r < length (w_buckets (m_levels m ! br_level r))"

definition get_bucket :: "wheel_mem \<Rightarrow> bucket_ref \<Rightarrow> wheelBucket" where
  "get_bucket m r = w_buckets (m_levels m ! br_level r) ! br_slot r"

definition upd_bucket :: "bucket_ref \<Rightarrow> (wheelBucket \<Rightarrow> wheelBucket) \<Rightarrow> wheel_mem \<Rightarrow> wheel_mem" where
  "upd_bucket r f m = m\<lparr>m_levels := (m_levels m)[br_level r :=
     (m_levels m ! br_level r)\<lparr>w_buckets := (w_buckets (m_levels m ! br_level r))[br_slot r := f (get_bucket m r)]\<rparr>]\<rparr>"

lemma get_upd_bucket:
  "valid_ref m r \<Longrightarrow> get_bucket (upd_bucket r f m) r' = (if r' = r then f (get_bucket m r) else get_bucket m r')"
  by (cases r; cases r') (auto simp: get_bucket_def upd_bucket_def valid_ref_def nth_list_update)

lemma upd_bucket_simps [simp]:
  "m_h (upd_bucket r f m) = m_h m"
  "m_wake (upd_bucket r f m) = m_wake m"
  "length (m_levels (upd_bucket r f m)) = length (m_levels m)"
  by (simp_all add: upd_bucket_def)

lemma valid_upd_bucket [simp]: "valid_ref (upd_bucket r f m) r' \<longleftrightarrow> valid_ref m r'"
  by (cases "br_level r < length (m_levels m)")
    (auto simp: valid_ref_def upd_bucket_def nth_list_update list_update_beyond)

lemma get_bucket_cong [simp]:
  "get_bucket (m\<lparr>m_h := h\<rparr>) r = get_bucket m r" "get_bucket (m\<lparr>m_wake := b\<rparr>) r = get_bucket m r"
  "valid_ref (m\<lparr>m_h := h\<rparr>) r = valid_ref m r" "valid_ref (m\<lparr>m_wake := b\<rparr>) r = valid_ref m r"
  by (simp_all add: get_bucket_def valid_ref_def)

section \<open>The heap of buckets\<close>

definition bucketHeap_Len :: "wheel_mem \<Rightarrow> nat" where
  "bucketHeap_Len m = length (m_h m)"

definition bucketHeap_Less :: "wheel_mem \<Rightarrow> nat \<Rightarrow> nat \<Rightarrow> bool" where
  "bucketHeap_Less m i j \<longleftrightarrow>
     b_expiration (get_bucket m (m_h m ! i)) < b_expiration (get_bucket m (m_h m ! j))"

definition bucketHeap_Swap :: "wheel_mem \<Rightarrow> nat \<Rightarrow> nat \<Rightarrow> wheel_mem" where
  "bucketHeap_Swap m i j =
     (let m1 = m\<lparr>m_h := list_swap (m_h m) i j\<rparr>;
          m2 = upd_bucket (m_h m1 ! i) (\<lambda>b. b\<lparr>b_heapIdx := int i\<rparr>) m1
      in upd_bucket (m_h m1 ! j) (\<lambda>b. b\<lparr>b_heapIdx := int j\<rparr>) m2)"

definition bucketHeap_Push :: "wheel_mem \<Rightarrow> bucket_ref \<Rightarrow> wheel_mem" where
  "bucketHeap_Push m r =
     (let m1 = upd_bucket r (\<lambda>b. b\<lparr>b_heapIdx := int (length (m_h m))\<rparr>) m
      in m1\<lparr>m_h := m_h m1 @ [r]\<rparr>)"

text \<open>On an empty slice the index \<open>n - 1\<close> is out of range: \<open>None\<close>.\<close>

definition bucketHeap_Pop :: "wheel_mem \<Rightarrow> bucket_ref option \<times> wheel_mem" where
  "bucketHeap_Pop m =
     (if m_h m = [] then (None, m)
      else let r = last (m_h m);
               m1 = upd_bucket r (\<lambda>b. b\<lparr>b_heapIdx := -1\<rparr>) m
           in (Some r, m1\<lparr>m_h := butlast (m_h m1)\<rparr>))"

definition bucketHeap :: "(wheel_mem, bucket_ref) heap_interface" where
  "bucketHeap = \<lparr>iLen = bucketHeap_Len, iLess = bucketHeap_Less, iSwap = bucketHeap_Swap,
     iPush = bucketHeap_Push, iPop = bucketHeap_Pop\<rparr>"

lemmas bucketHeap_simps [heap_simps] =
  bucketHeap_def bucketHeap_Len_def bucketHeap_Less_def bucketHeap_Swap_def
  bucketHeap_Push_def bucketHeap_Pop_def

section \<open>Offer and poll\<close>

definition delayQueue_offer :: "bucket_ref \<Rightarrow> wheel_mem \<Rightarrow> wheel_mem" where
  "delayQueue_offer r m =
     (let m1 = (if b_heapIdx (get_bucket m r) \<ge> 0
                then heap_Fix bucketHeap m (nat (b_heapIdx (get_bucket m r)))
                else heap_Push bucketHeap m r)
      in m1\<lparr>m_wake := True\<rparr>)"

text \<open>
  One pass of the loop of \<open>poll\<close> at wall-clock time \<open>now\<close> (the part under the queue's
  lock): the bucket it takes, if the head is due, and the time to wait otherwise
  (\<open>-1\<close>, no timer, for an empty heap).
\<close>

definition delayQueue_poll :: "int \<Rightarrow> wheel_mem \<Rightarrow> bucket_ref option \<times> int \<times> wheel_mem" where
  "delayQueue_poll now m =
     (if m_h m = [] then (None, -1, m)
      else let exp = b_expiration (get_bucket m (m_h m ! 0))
           in if exp \<le> now
              then case heap_Pop bucketHeap m of
                     None \<Rightarrow> (None, -1, m)
                   | Some (r, m') \<Rightarrow> (Some r, -1, m')
              else (None, sub64 exp now, m))"

section \<open>The queue implements a heap\<close>

text \<open>
  The representation invariant: every queued bucket records its own index, and every other
  bucket records \<open>-1\<close>.
\<close>

definition heap_idx_inv :: "wheel_mem \<Rightarrow> bool" where
  "heap_idx_inv m \<longleftrightarrow> distinct (m_h m) \<and>
     (\<forall>i < length (m_h m). valid_ref m (m_h m ! i) \<and> b_heapIdx (get_bucket m (m_h m ! i)) = int i) \<and>
     (\<forall>r. valid_ref m r \<longrightarrow> r \<notin> set (m_h m) \<longrightarrow> b_heapIdx (get_bucket m r) = -1)"

text \<open>The rest of the memory: everything but the heap slice and the recorded indices.\<close>

definition erase_idx :: "wheel_mem \<Rightarrow> wheel_mem" where
  "erase_idx m = m\<lparr>m_h := [], m_levels :=
     map (\<lambda>w. w\<lparr>w_buckets := map (\<lambda>b. b\<lparr>b_heapIdx := 0\<rparr>) (w_buckets w)\<rparr>) (m_levels m)\<rparr>"

definition exp_of :: "wheel_mem \<Rightarrow> bucket_ref \<Rightarrow> int" where
  "exp_of m r = (if valid_ref m r then b_expiration (get_bucket m r) else -1)"

lemma valid_erase [simp]: "valid_ref (erase_idx m) r = valid_ref m r"
  by (auto simp: valid_ref_def erase_idx_def)

lemma get_erase: "valid_ref m r \<Longrightarrow> get_bucket (erase_idx m) r = (get_bucket m r)\<lparr>b_heapIdx := 0\<rparr>"
  by (simp add: valid_ref_def erase_idx_def get_bucket_def)

lemma exp_erase [simp]: "exp_of (erase_idx m) r = exp_of m r"
  by (simp add: exp_of_def get_erase)

lemma erase_m_h [simp]: "erase_idx (m\<lparr>m_h := h\<rparr>) = erase_idx m"
  by (simp add: erase_idx_def)

lemma erase_upd_idx [simp]: "valid_ref m r \<Longrightarrow> erase_idx (upd_bucket r (\<lambda>b. b\<lparr>b_heapIdx := i\<rparr>) m) = erase_idx m"
  by (auto simp: erase_idx_def upd_bucket_def valid_ref_def get_bucket_def list_eq_iff_nth_eq
      nth_list_update)

lemma heap_idx_valid: "heap_idx_inv m \<Longrightarrow> r \<in> set (m_h m) \<Longrightarrow> valid_ref m r"
  by (auto simp: heap_idx_inv_def in_set_conv_nth)

lemma heap_idx_Swap:
  assumes inv: "heap_idx_inv m" and ij: "i < length (m_h m)" "j < length (m_h m)"
  shows "m_h (bucketHeap_Swap m i j) = list_swap (m_h m) i j \<and>
    erase_idx (bucketHeap_Swap m i j) = erase_idx m \<and> heap_idx_inv (bucketHeap_Swap m i j)"
proof -
  let ?h = "list_swap (m_h m) i j"
  have d: "distinct ?h" using inv ij by (simp add: heap_idx_inv_def)
  have v: "valid_ref m (m_h m ! k)" if "k < length (m_h m)" for k
    using inv that by (simp add: heap_idx_inv_def)
  have vh: "valid_ref m (?h ! k)" if "k < length (m_h m)" for k
    using v ij that by (simp add: nth_list_swap)
  have idx: "b_heapIdx (get_bucket (bucketHeap_Swap m i j) r) =
      (if r = ?h ! j then int j else if r = ?h ! i then int i else b_heapIdx (get_bucket m r))" for r
    using vh ij by (simp add: bucketHeap_Swap_def Let_def get_upd_bucket)
  have "b_heapIdx (get_bucket (bucketHeap_Swap m i j) (?h ! k)) = int k" if k: "k < length (m_h m)" for k
  proof (cases "k = i \<or> k = j")
    case True
    then show ?thesis using idx d ij by (auto simp: nth_eq_iff_index_eq)
  next
    case False
    then have "?h ! k \<noteq> ?h ! i" "?h ! k \<noteq> ?h ! j" "?h ! k = m_h m ! k"
      using d ij k by (auto simp: nth_eq_iff_index_eq nth_list_swap)
    then show ?thesis using idx inv k by (simp add: heap_idx_inv_def)
  qed
  moreover have "b_heapIdx (get_bucket (bucketHeap_Swap m i j) r) = -1"
    if "valid_ref m r" "r \<notin> set (m_h m)" for r
  proof -
    have "r \<noteq> ?h ! i" "r \<noteq> ?h ! j" using that ij by (auto simp: nth_list_swap)
    then show ?thesis using that idx inv by (simp add: heap_idx_inv_def)
  qed
  moreover have "m_h (bucketHeap_Swap m i j) = ?h" "valid_ref (bucketHeap_Swap m i j) r = valid_ref m r"
    "erase_idx (bucketHeap_Swap m i j) = erase_idx m" for r
    using vh ij by (simp_all add: bucketHeap_Swap_def Let_def)
  ultimately show ?thesis using d vh ij by (simp add: heap_idx_inv_def)
qed

lemma heap_idx_Push:
  assumes inv: "heap_idx_inv m" and r: "valid_ref m r" "r \<notin> set (m_h m)"
  shows "m_h (bucketHeap_Push m r) = m_h m @ [r] \<and>
    erase_idx (bucketHeap_Push m r) = erase_idx m \<and> heap_idx_inv (bucketHeap_Push m r)"
proof -
  have "m_h m ! k \<noteq> r" if "k < length (m_h m)" for k
    using r(2) that by (metis nth_mem)
  then show ?thesis
    using inv r by (auto simp: bucketHeap_Push_def Let_def heap_idx_inv_def get_upd_bucket
        nth_append less_Suc_eq)
qed

lemma heap_idx_Pop:
  assumes inv: "heap_idx_inv m" and ne: "m_h m \<noteq> []"
  shows "fst (bucketHeap_Pop m) = Some (last (m_h m)) \<and>
    m_h (snd (bucketHeap_Pop m)) = butlast (m_h m) \<and>
    erase_idx (snd (bucketHeap_Pop m)) = erase_idx m \<and> heap_idx_inv (snd (bucketHeap_Pop m))"
proof -
  obtain xs r where xs: "m_h m = xs @ [r]"
    using ne by (metis rev_exhaust)
  have d: "distinct xs" "r \<notin> set xs" and v: "valid_ref m r"
    using inv heap_idx_valid [OF inv] by (simp_all add: heap_idx_inv_def xs)
  have "xs ! k \<noteq> r" if "k < length xs" for k
    using d(2) that by (metis nth_mem)
  moreover have "valid_ref m (xs ! k) \<and> b_heapIdx (get_bucket m (xs ! k)) = int k"
    if k: "k < length xs" for k
  proof -
    have "m_h m ! k = xs ! k" "k < length (m_h m)" using k by (simp_all add: xs nth_append)
    then show ?thesis using inv unfolding heap_idx_inv_def by metis
  qed
  moreover have "b_heapIdx (get_bucket m r') = -1" if "valid_ref m r'" "r' \<notin> set xs" "r' \<noteq> r" for r'
    using inv that by (simp add: heap_idx_inv_def xs)
  ultimately show ?thesis
    using v d by (simp add: bucketHeap_Pop_def Let_def heap_idx_inv_def get_upd_bucket xs)
qed

interpretation bq: heap_impl bucketHeap m_h erase_idx exp_of heap_idx_inv
  "\<lambda>m r. valid_ref m r \<and> r \<notin> set (m_h m)"
proof
  fix m i j assume "heap_idx_inv m" "i < length (m_h m)" "j < length (m_h m)"
  then show "iLess bucketHeap m i j \<longleftrightarrow>
      exp_of (erase_idx m) (m_h m ! i) < exp_of (erase_idx m) (m_h m ! j)"
    by (simp add: bucketHeap_def bucketHeap_Less_def exp_of_def heap_idx_inv_def get_erase)
qed (simp_all add: bucketHeap_def bucketHeap_Len_def heap_idx_Swap heap_idx_Push heap_idx_Pop)

section \<open>What the client sees of the memory\<close>

definition ents :: "wheel_mem \<Rightarrow> bucket_ref \<Rightarrow> entry_ref list" where
  "ents m r = (if valid_ref m r then b_entries (get_bucket m r) else [])"

lemma ents_erase [simp]: "ents (erase_idx m) r = ents m r"
  by (simp add: ents_def get_erase)

lemma frame_views:
  assumes "erase_idx m' = erase_idx m"
  shows "valid_ref m' r = valid_ref m r" and "exp_of m' r = exp_of m r" and "ents m' r = ents m r"
  using assms by (metis valid_erase, metis exp_erase, metis ents_erase)

lemma wake_views [simp]:
  "exp_of (m\<lparr>m_wake := b\<rparr>) = exp_of m" "ents (m\<lparr>m_wake := b\<rparr>) = ents m"
  "heap_idx_inv (m\<lparr>m_wake := b\<rparr>) = heap_idx_inv m"
  "erase_idx (m\<lparr>m_wake := b\<rparr>) = (erase_idx m)\<lparr>m_wake := b\<rparr>"
  by (auto simp: exp_of_def ents_def heap_idx_inv_def erase_idx_def fun_eq_iff)

lemma ordered_wake [simp]: "bq.ordered (m\<lparr>m_wake := b\<rparr>) = bq.ordered m"
  by (simp add: bq.ordered_def bq.keys_def exp_of_def cong: map_cong)

lemma keys_exp: "bq.keys m = map (exp_of m) (m_h m)"
  by (simp add: bq.keys_def)

lemma upd_views:
  assumes "valid_ref m r"
  shows "exp_of (upd_bucket r f m) = (exp_of m)(r := b_expiration (f (get_bucket m r)))"
    and "ents (upd_bucket r f m) = (ents m)(r := b_entries (f (get_bucket m r)))"
  using assms by (auto simp: exp_of_def ents_def get_upd_bucket fun_eq_iff)

lemma heap_idx_upd:
  assumes "heap_idx_inv m" and "valid_ref m r"
    and "b_heapIdx (f (get_bucket m r)) = b_heapIdx (get_bucket m r)"
  shows "heap_idx_inv (upd_bucket r f m)"
  using assms by (auto simp: heap_idx_inv_def get_upd_bucket)

lemma heapIdx_iff:
  assumes "heap_idx_inv m" and "valid_ref m r"
  shows "0 \<le> b_heapIdx (get_bucket m r) \<longleftrightarrow> r \<in> set (m_h m)"
  using assms unfolding heap_idx_inv_def in_set_conv_nth by (metis of_nat_0_le_iff neg_0_le_iff_le not_one_le_zero nth_mem)

lemma heapIdx_nth:
  assumes "heap_idx_inv m" and "r \<in> set (m_h m)"
  shows "nat (b_heapIdx (get_bucket m r)) < length (m_h m)"
    and "m_h m ! nat (b_heapIdx (get_bucket m r)) = r"
  using assms unfolding heap_idx_inv_def in_set_conv_nth by auto

text \<open>
  \<open>offer\<close> after a change of one bucket's expiration: the heap is in order again, whether the
  bucket was queued (\<open>heap.Fix\<close>) or not (\<open>heap.Push\<close>), and the bucket is queued.
\<close>

lemma offer_correct:
  assumes inv: "heap_idx_inv m0" and ord: "bq.ordered m0" and r: "valid_ref m0 r"
    and f: "b_heapIdx (f (get_bucket m0 r)) = b_heapIdx (get_bucket m0 r)"
    and m: "m = upd_bucket r f m0"
  shows "heap_idx_inv (delayQueue_offer r m)" and "bq.ordered (delayQueue_offer r m)"
    and "erase_idx (delayQueue_offer r m) = (erase_idx m)\<lparr>m_wake := True\<rparr>"
    and "set (m_h (delayQueue_offer r m)) = insert r (set (m_h m0))"
proof -
  let ?i = "nat (b_heapIdx (get_bucket m r))"
  let ?m1 = "if b_heapIdx (get_bucket m r) \<ge> 0 then heap_Fix bucketHeap m ?i else heap_Push bucketHeap m r"
  have off: "delayQueue_offer r m = ?m1\<lparr>m_wake := True\<rparr>"
    by (simp add: delayQueue_offer_def Let_def)
  have inv': "heap_idx_inv m" and r': "valid_ref m r" and h: "m_h m = m_h m0"
    using heap_idx_upd [OF inv r, of f] f r by (simp_all add: m)
  have ks: "bq.keys m = map ((exp_of m0)(r := b_expiration (f (get_bucket m0 r)))) (m_h m0)"
    using upd_views(1) [OF r] by (simp add: keys_exp m)
  have "heap_idx_inv ?m1 \<and> bq.ordered ?m1 \<and> erase_idx ?m1 = erase_idx m \<and>
      set (m_h ?m1) = insert r (set (m_h m0))"
  proof (cases "r \<in> set (m_h m)")
    case True
    note idx = heapIdx_nth [OF inv' True]
    have d: "distinct (m_h m0)" using inv by (simp add: heap_idx_inv_def)
    have "bq.keys m = (bq.keys m0)[?i := b_expiration (f (get_bucket m0 r))]"
      unfolding ks unfolding keys_exp using idx d
      by (auto simp: h list_eq_iff_nth_eq nth_list_update nth_eq_iff_index_eq)
    then have "fix_order (bq.keys m) (length (m_h m)) ?i"
      using ord idx h by (simp add: bq.ordered_def fix_order_update)
    from bq.Fix_correct [OF inv' idx(1) this]
    show ?thesis using True heapIdx_iff [OF inv' r'] h
      by (auto simp: bq.same_def dest: mset_eq_setD)
  next
    case False
    have "bq.keys m = bq.keys m0"
      unfolding ks unfolding keys_exp using False by (simp add: h map_fun_upd)
    then have "bq.ordered m" using ord h by (simp add: bq.ordered_def)
    note pc = bq.Push_correct [OF inv' this, of r]
    have "set (m_h (heap_Push bucketHeap m r)) = insert r (set (m_h m0))"
      using pc(4) r' False h by (metis set_mset_add_mset_insert set_mset_mset)
    with pc show ?thesis using False heapIdx_iff [OF inv' r'] r' by simp
  qed
  then show "heap_idx_inv (delayQueue_offer r m)" and "bq.ordered (delayQueue_offer r m)"
    and "erase_idx (delayQueue_offer r m) = (erase_idx m)\<lparr>m_wake := True\<rparr>"
    and "set (m_h (delayQueue_offer r m)) = insert r (set (m_h m0))"
    unfolding off by simp_all
qed

text \<open>\<open>poll\<close> takes a bucket with the least expiration, exactly when one is due.\<close>

lemma poll_none_iff:
  assumes "heap_idx_inv m" and "bq.ordered m"
  shows "fst (delayQueue_poll now m) = None \<longleftrightarrow> (\<forall>r \<in> set (m_h m). now < exp_of m r)"
proof (cases "m_h m = []")
  case False
  have hd: "exp_of m (m_h m ! 0) = b_expiration (get_bucket m (m_h m ! 0))"
    using False assms(1) by (simp add: exp_of_def heap_idx_valid)
  from bq.Pop_correct [OF assms False] obtain m' where "heap_Pop bucketHeap m = Some (m_h m ! 0, m')"
    by metis
  then have "fst (delayQueue_poll now m) = None \<longleftrightarrow> now < exp_of m (m_h m ! 0)"
    using False by (simp add: delayQueue_poll_def Let_def hd not_le)
  also have "\<dots> \<longleftrightarrow> (\<forall>r \<in> set (m_h m). now < exp_of m r)"
    using bq.ordered_min [OF assms(2)] False by (force simp: nth_mem)
  finally show ?thesis .
qed (simp add: delayQueue_poll_def)

lemma poll_none_mem: "fst (delayQueue_poll now m) = None \<Longrightarrow> snd (snd (delayQueue_poll now m)) = m"
  by (auto simp: delayQueue_poll_def Let_def split: option.splits if_splits)

lemma poll_some:
  assumes inv: "heap_idx_inv m" "bq.ordered m" and p: "delayQueue_poll now m = (Some r, wt, m')"
  shows "r \<in> set (m_h m)" and "exp_of m r \<le> now" and "\<And>r'. r' \<in> set (m_h m) \<Longrightarrow> exp_of m r \<le> exp_of m r'"
    and "heap_idx_inv m'" and "bq.ordered m'" and "erase_idx m' = erase_idx m"
    and "set (m_h m') = set (m_h m) - {r}"
proof -
  have ne: "m_h m \<noteq> []" using p by (auto simp: delayQueue_poll_def)
  from bq.Pop_correct [OF inv ne] obtain m'' where pop: "heap_Pop bucketHeap m = Some (m_h m ! 0, m'')"
      "heap_idx_inv m''" "bq.ordered m''" "erase_idx m'' = erase_idx m"
      "mset (m_h m) = add_mset (m_h m ! 0) (mset (m_h m''))" by metis
  have hd: "exp_of m (m_h m ! 0) = b_expiration (get_bucket m (m_h m ! 0))"
    using ne inv(1) by (simp add: exp_of_def heap_idx_valid)
  have r: "r = m_h m ! 0" "m' = m''" and due: "exp_of m r \<le> now"
    using p pop(1) ne hd by (auto simp: delayQueue_poll_def Let_def split: if_splits)
  have "distinct (m_h m)" using inv(1) by (simp add: heap_idx_inv_def)
  with pop(5) have "r \<notin> set (m_h m'')" "set (m_h m) = insert r (set (m_h m''))"
    unfolding r by (metis mset_eq_imp_distinct_iff distinct.simps(2) mset.simps(2))
      (metis pop(5) set_mset_add_mset_insert set_mset_mset)
  then show "set (m_h m') = set (m_h m) - {r}" unfolding r by auto
  show "\<And>r'. r' \<in> set (m_h m) \<Longrightarrow> exp_of m r \<le> exp_of m r'"
    using bq.ordered_min [OF inv(2)] by (simp add: r)
  show "r \<in> set (m_h m)" and "exp_of m r \<le> now" and "heap_idx_inv m'" and "bq.ordered m'"
    and "erase_idx m' = erase_idx m"
    using r due pop ne by simp_all
qed

end
