(* ===== verification/Timing_Wheel.thy ===== *)
theory Timing_Wheel
  imports Delay_Queue
begin

text \<open>
  The hierarchical timing wheel of \<open>timing_wheel.go\<close>: one level (\<open>timingWheel\<close>) with its
  routing of entries and its clock, and the public \<open>TimingWheel\<close> with \<open>Start\<close>, \<open>Stop\<close>,
  \<open>Schedule\<close>, \<open>Cancel\<close> and the tick loop.

  Entries are objects named by their index in the store. A callback is a value of type
  \<open>'cb\<close>, and \<open>go e.callback()\<close> is recorded in the list \<open>tw_fired\<close>. Each operation is one
  atomic step; wall-clock time enters as an argument.
\<close>

section \<open>Entries and the wheel\<close>

record 'cb wheelEntry =
  e_expirationMs :: int
  e_taskID :: string
  e_callback :: 'cb
  e_bucket :: "bucket_ref option"
  e_cancelled :: bool

record 'cb TimingWheel =
  tw_mem :: wheel_mem
  tw_tickMs :: int
  tw_size :: int
  tw_started :: bool
  tw_stopped :: bool
  tw_entries :: "string \<rightharpoonup> entry_ref"
  tw_store :: "'cb wheelEntry list"
  tw_fired :: "entry_ref list"

datatype wheel_error = ErrWheelNotStarted | ErrWheelStopped | ErrNilCallback

section \<open>Buckets\<close>

text \<open>\<open>wheelBucket.add\<close>: link at the tail, set the expiration, tell whether it changed.\<close>

definition wheelBucket_add ::
  "entry_ref \<Rightarrow> bucket_ref \<Rightarrow> int \<Rightarrow> 'cb TimingWheel \<Rightarrow> bool \<times> 'cb TimingWheel" where
  "wheelBucket_add e r bucketExp tw =
     (let prev = b_expiration (get_bucket (tw_mem tw) r);
          m = upd_bucket r (\<lambda>b. b\<lparr>b_entries := b_entries b @ [e], b_expiration := bucketExp\<rparr>) (tw_mem tw)
      in (prev \<noteq> bucketExp,
          tw\<lparr>tw_mem := m, tw_store := (tw_store tw)[e := (tw_store tw ! e)\<lparr>e_bucket := Some r\<rparr>]\<rparr>))"

text \<open>\<open>wheelBucket.flush\<close>: empty the bucket and hand out its entries, unlinked.\<close>

definition clear_bucket_ptr :: "entry_ref \<Rightarrow> 'cb wheelEntry list \<Rightarrow> 'cb wheelEntry list" where
  "clear_bucket_ptr e st = st[e := (st ! e)\<lparr>e_bucket := None\<rparr>]"

definition wheelBucket_flush :: "bucket_ref \<Rightarrow> 'cb TimingWheel \<Rightarrow> entry_ref list \<times> 'cb TimingWheel" where
  "wheelBucket_flush r tw =
     (let es = b_entries (get_bucket (tw_mem tw) r)
      in (es, tw\<lparr>tw_mem := upd_bucket r (\<lambda>b. b\<lparr>b_entries := [], b_expiration := -1\<rparr>) (tw_mem tw),
                 tw_store := fold clear_bucket_ptr es (tw_store tw)\<rparr>))"

section \<open>Levels\<close>

definition newTimingLevel :: "int \<Rightarrow> int \<Rightarrow> int \<Rightarrow> timingWheel go" where
  "newTimingLevel tickMs wheelSize startMs =
     (if wheelSize < 0 then Inl MakeSliceRange
      else if tickMs = 0 then Inl DivideByZero
      else Inr \<lparr>w_tickMs = tickMs, w_wheelSize = wheelSize, w_interval = mul64 tickMs wheelSize,
                w_currentTime = sub64 startMs (startMs smod tickMs),
                w_buckets = replicate (nat wheelSize) newWheelBucket\<rparr>)"

text \<open>
  \<open>timingWheel.add\<close> at level \<open>k\<close>: \<open>True\<close> when the entry was routed, \<open>False\<close> when it is
  already due. The recursion into the overflow level has no bound in the source; the fuel
  stands for its depth (see \<open>maxDepth\<close>).
\<close>

fun timingWheel_add ::
  "nat \<Rightarrow> entry_ref \<Rightarrow> nat \<Rightarrow> 'cb TimingWheel \<Rightarrow> (bool \<times> 'cb TimingWheel) go" where
  "timingWheel_add 0 e k tw = Inl OutOfFuel"
| "timingWheel_add (Suc fuel) e k tw =
     (if e_cancelled (tw_store tw ! e) then Inr (True, tw)
      else
        let w = m_levels (tw_mem tw) ! k;
            exp = e_expirationMs (tw_store tw ! e);
            curr = w_currentTime w
        in if exp < add64 curr (w_tickMs w) then Inr (False, tw)
           else if exp < add64 curr (w_interval w) then
             (let virtualId = exp sdiv w_tickMs w;
                  slot = virtualId smod w_wheelSize w;
                  bucketExp = mul64 virtualId (w_tickMs w)
              in if slot < 0 \<or> int (length (w_buckets w)) \<le> slot then Inl IndexOutOfRange
                 else let (changed, tw1) = wheelBucket_add e (BRef k (nat slot)) bucketExp tw
                      in if changed
                         then Inr (True, tw1\<lparr>tw_mem := delayQueue_offer (BRef k (nat slot)) (tw_mem tw1)\<rparr>)
                         else Inr (True, tw1))
           else if k + 1 < length (m_levels (tw_mem tw)) then timingWheel_add fuel e (k + 1) tw
           else go_bind (newTimingLevel (w_interval w) (w_wheelSize w) curr)
             (\<lambda>fresh. timingWheel_add fuel e (k + 1)
                (tw\<lparr>tw_mem := (tw_mem tw)\<lparr>m_levels := m_levels (tw_mem tw) @ [fresh]\<rparr>\<rparr>)))"

text \<open>\<open>timingWheel.advanceClock\<close>, over a level and its overflow levels.\<close>

fun advanceClock :: "int \<Rightarrow> timingWheel list \<Rightarrow> timingWheel list" where
  "advanceClock timeMs [] = []"
| "advanceClock timeMs (w # ov) =
     (if timeMs \<ge> add64 (w_currentTime w) (w_tickMs w) then
        let newCurr = sub64 timeMs (timeMs smod w_tickMs w)
        in w\<lparr>w_currentTime := newCurr\<rparr> # advanceClock newCurr ov
      else w # ov)"

section \<open>The public wheel\<close>

text \<open>The tick is a \<open>time.Duration\<close>, in nanoseconds; \<open>now\<close> is the current unix time in ms.\<close>

definition NewTimingWheel :: "int \<Rightarrow> int \<Rightarrow> int \<Rightarrow> 'cb TimingWheel go" where
  "NewTimingWheel tick wheelSize now =
     (let tick = (if tick < 1000000 then 1000000 else tick);
          wheelSize = (if wheelSize < 2 then 2 else wheelSize);
          tickMs = tick sdiv 1000000
      in go_bind (newTimingLevel tickMs wheelSize now)
           (\<lambda>base. Inr \<lparr>tw_mem = \<lparr>m_levels = [base], m_h = [], m_wake = False\<rparr>,
                        tw_tickMs = tickMs, tw_size = wheelSize, tw_started = False,
                        tw_stopped = False, tw_entries = Map.empty, tw_store = [], tw_fired = []\<rparr>))"

definition TimingWheel_Start :: "'cb TimingWheel \<Rightarrow> 'cb TimingWheel" where
  "TimingWheel_Start tw = (if tw_started tw then tw else tw\<lparr>tw_started := True\<rparr>)"

definition TimingWheel_Stop :: "'cb TimingWheel \<Rightarrow> 'cb TimingWheel" where
  "TimingWheel_Stop tw = (if tw_stopped tw then tw else tw\<lparr>tw_stopped := True\<rparr>)"

definition removeFromIndex :: "entry_ref \<Rightarrow> 'cb TimingWheel \<Rightarrow> 'cb TimingWheel" where
  "removeFromIndex e tw =
     (let tid = e_taskID (tw_store tw ! e)
      in if tid = '''' then tw
         else if tw_entries tw tid = Some e then tw\<lparr>tw_entries := (tw_entries tw)(tid := None)\<rparr>
         else tw)"

text \<open>
  Depth allowed to the recursion of \<open>add\<close>. Every level at least doubles the span of the one
  below, so 64 levels exceed every span that fits 64 bits.
\<close>

definition maxDepth :: nat where
  "maxDepth = 64"

definition TimingWheel_insert :: "entry_ref \<Rightarrow> 'cb TimingWheel \<Rightarrow> 'cb TimingWheel go" where
  "TimingWheel_insert e tw =
     go_bind (timingWheel_add maxDepth e 0 tw)
       (\<lambda>(ok, tw1). Inr (if ok then tw1
          else if e_cancelled (tw_store tw1 ! e) then tw1
          else (removeFromIndex e tw1)\<lparr>tw_fired := tw_fired tw1 @ [e]\<rparr>))"

definition cancel_entry :: "entry_ref \<Rightarrow> 'cb TimingWheel \<Rightarrow> 'cb TimingWheel" where
  "cancel_entry e tw = tw\<lparr>tw_store := (tw_store tw)[e := (tw_store tw ! e)\<lparr>e_cancelled := True\<rparr>]\<rparr>"

definition new_entry :: "int \<Rightarrow> string \<Rightarrow> 'cb \<Rightarrow> 'cb wheelEntry" where
  "new_entry fireAtMs tid cb = \<lparr>e_expirationMs = fireAtMs, e_taskID = tid, e_callback = cb,
     e_bucket = None, e_cancelled = False\<rparr>"

text \<open>The part of \<open>Schedule\<close> before \<open>insert\<close>: build the entry, replace the indexed one.\<close>

definition schedule_index :: "string \<Rightarrow> int \<Rightarrow> 'cb \<Rightarrow> 'cb TimingWheel \<Rightarrow> 'cb TimingWheel" where
  "schedule_index tid fireAtMs cb tw =
     (let e = length (tw_store tw);
          tw1 = tw\<lparr>tw_store := tw_store tw @ [new_entry fireAtMs tid cb]\<rparr>
      in if tid = '''' then tw1
         else let tw2 = (case tw_entries tw1 tid of None \<Rightarrow> tw1 | Some old \<Rightarrow> cancel_entry old tw1)
              in tw2\<lparr>tw_entries := (tw_entries tw2)(tid \<mapsto> e)\<rparr>)"

definition TimingWheel_Schedule ::
  "string \<Rightarrow> int \<Rightarrow> 'cb option \<Rightarrow> 'cb TimingWheel \<Rightarrow> (wheel_error option \<times> 'cb TimingWheel) go" where
  "TimingWheel_Schedule tid fireAtMs cb tw =
     (if \<not> tw_started tw then Inr (Some ErrWheelNotStarted, tw)
      else if tw_stopped tw then Inr (Some ErrWheelStopped, tw)
      else case cb of None \<Rightarrow> Inr (Some ErrNilCallback, tw)
           | Some f \<Rightarrow> go_bind (TimingWheel_insert (length (tw_store tw)) (schedule_index tid fireAtMs f tw))
                        (\<lambda>tw1. Inr (None, tw1)))"

definition TimingWheel_Cancel :: "string \<Rightarrow> 'cb TimingWheel \<Rightarrow> 'cb TimingWheel" where
  "TimingWheel_Cancel tid tw =
     (if tid = '''' then tw
      else case tw_entries tw tid of
             None \<Rightarrow> tw
           | Some e \<Rightarrow> cancel_entry e (tw\<lparr>tw_entries := (tw_entries tw)(tid := None)\<rparr>))"

section \<open>The tick loop\<close>

text \<open>The body of the loop for the bucket \<open>poll\<close> returned.\<close>

definition tick_bucket :: "bucket_ref \<Rightarrow> 'cb TimingWheel \<Rightarrow> 'cb TimingWheel go" where
  "tick_bucket r tw =
     (let exp = b_expiration (get_bucket (tw_mem tw) r);
          tw1 = (if exp \<ge> 0
                 then tw\<lparr>tw_mem := (tw_mem tw)\<lparr>m_levels := advanceClock exp (m_levels (tw_mem tw))\<rparr>\<rparr>
                 else tw);
          (es, tw2) = wheelBucket_flush r tw1
      in go_fold TimingWheel_insert es tw2)"

text \<open>
  \<open>tickLoop\<close> at a fixed wall-clock time: it handles due buckets until \<open>poll\<close> would block
  (or, once \<open>Stop\<close> closed the channel, return \<open>nil\<close>).
\<close>

fun tickLoop :: "nat \<Rightarrow> int \<Rightarrow> 'cb TimingWheel \<Rightarrow> 'cb TimingWheel go" where
  "tickLoop 0 now tw = Inl OutOfFuel"
| "tickLoop (Suc fuel) now tw =
     (case delayQueue_poll now (tw_mem tw) of
        (None, _, m) \<Rightarrow> Inr (tw\<lparr>tw_mem := m\<rparr>)
      | (Some r, _, m) \<Rightarrow> go_bind (tick_bucket r (tw\<lparr>tw_mem := m\<rparr>)) (tickLoop fuel now))"

end
