(* ===== verification/Wheel_Invariant.thy ===== *)
theory Wheel_Invariant
  imports Timing_Wheel
begin

text \<open>
  The invariant of the wheel's memory and the lemmas that every operation on it keeps the
  invariant: linking an entry into a bucket, allocating an overflow level, routing an entry
  through the levels, advancing the clocks.

  \<open>T\<close> is the base tick, \<open>n\<close> the number of buckets per level, \<open>ex\<close> the expiration of each
  entry. Level \<open>k\<close> has the tick \<open>T * n ^ k\<close>.
\<close>

section \<open>Levels\<close>

definition tk :: "int \<Rightarrow> int \<Rightarrow> nat \<Rightarrow> int" where
  "tk T n k = T * n ^ k"

definition level_ok :: "int \<Rightarrow> int \<Rightarrow> int \<Rightarrow> nat \<Rightarrow> timingWheel \<Rightarrow> bool" where
  "level_ok T n c k w \<longleftrightarrow> w_tickMs w = tk T n k \<and> w_wheelSize w = n \<and>
     w_interval w = tk T n (Suc k) \<and> w_currentTime w = floor_to (tk T n k) c \<and>
     length (w_buckets w) = nat n \<and> tk T n (Suc k) \<le> 2 ^ 62"

definition clock :: "wheel_mem \<Rightarrow> int" where
  "clock m = w_currentTime (m_levels m ! 0)"

definition levels_ok :: "int \<Rightarrow> int \<Rightarrow> wheel_mem \<Rightarrow> bool" where
  "levels_ok T n m \<longleftrightarrow> 0 < T \<and> 2 \<le> n \<and> m_levels m \<noteq> [] \<and> 0 \<le> clock m \<and> clock m < 2 ^ 62 \<and>
     (\<forall>k < length (m_levels m). level_ok T n (clock m) k (m_levels m ! k))"

text \<open>
  A live bucket's expiration is not before the clock, lies in the current turn of its level
  and belongs to its slot.
\<close>

definition slot_ok :: "int \<Rightarrow> int \<Rightarrow> int \<Rightarrow> bucket_ref \<Rightarrow> int \<Rightarrow> bool" where
  "slot_ok T n c r E \<longleftrightarrow>
     (let q = tk T n (br_level r)
      in c \<le> E \<and> E < floor_to q c + q * n \<and> q dvd E \<and> E div q mod n = int (br_slot r))"

definition pending :: "wheel_mem \<Rightarrow> entry_ref set" where
  "pending m = (\<Union>r. set (ents m r))"

definition mem_ok :: "int \<Rightarrow> int \<Rightarrow> (entry_ref \<Rightarrow> int) \<Rightarrow> wheel_mem \<Rightarrow> bool" where
  "mem_ok T n ex m \<longleftrightarrow> levels_ok T n m \<and> heap_idx_inv m \<and> bq.ordered m \<and>
     (\<forall>r. r \<in> set (m_h m) \<longleftrightarrow> exp_of m r \<noteq> -1) \<and>
     (\<forall>r. ents m r \<noteq> [] \<longleftrightarrow> exp_of m r \<noteq> -1) \<and>
     (\<forall>r. exp_of m r \<noteq> -1 \<longrightarrow> slot_ok T n (clock m) r (exp_of m r)) \<and>
     (\<forall>r. \<forall>e \<in> set (ents m r). exp_of m r \<le> ex e \<and> ex e < exp_of m r + tk T n (br_level r)) \<and>
     (\<forall>r. distinct (ents m r)) \<and>
     (\<forall>r r'. r \<noteq> r' \<longrightarrow> set (ents m r) \<inter> set (ents m r') = {})"

lemma mem_okD:
  assumes "mem_ok T n ex m"
  shows "levels_ok T n m" and "heap_idx_inv m" and "bq.ordered m"
    and "r \<in> set (m_h m) \<longleftrightarrow> exp_of m r \<noteq> -1"
    and "ents m r = [] \<longleftrightarrow> exp_of m r = -1"
    and "exp_of m r \<noteq> -1 \<Longrightarrow> slot_ok T n (clock m) r (exp_of m r)"
    and "e \<in> set (ents m r) \<Longrightarrow> exp_of m r \<le> ex e"
    and "e \<in> set (ents m r) \<Longrightarrow> ex e < exp_of m r + tk T n (br_level r)"
    and "distinct (ents m r)"
    and "r \<noteq> r' \<Longrightarrow> set (ents m r) \<inter> set (ents m r') = {}"
  using assms by (simp_all add: mem_ok_def)

lemma mem_okI:
  assumes "levels_ok T n m" and "heap_idx_inv m" and "bq.ordered m"
    and "\<And>r. r \<in> set (m_h m) \<longleftrightarrow> exp_of m r \<noteq> -1"
    and "\<And>r. ents m r = [] \<longleftrightarrow> exp_of m r = -1"
    and "\<And>r. exp_of m r \<noteq> -1 \<Longrightarrow> slot_ok T n (clock m) r (exp_of m r)"
    and "\<And>r e. e \<in> set (ents m r) \<Longrightarrow> exp_of m r \<le> ex e \<and> ex e < exp_of m r + tk T n (br_level r)"
    and "\<And>r. distinct (ents m r)"
    and "\<And>r r'. r \<noteq> r' \<Longrightarrow> set (ents m r) \<inter> set (ents m r') = {}"
  shows "mem_ok T n ex m"
  using assms by (simp add: mem_ok_def)

section \<open>Arithmetic of ticks\<close>

lemma tk_0 [simp]: "tk T n 0 = T"
  by (simp add: tk_def)

lemma tk_Suc: "tk T n (Suc k) = tk T n k * n"
  by (simp add: tk_def)

lemma tk_pos: "0 < T \<Longrightarrow> 2 \<le> n \<Longrightarrow> 0 < tk T n k"
  by (simp add: tk_def)

lemma tk_dvd: "j \<le> k \<Longrightarrow> tk T n j dvd tk T n k"
  by (simp add: tk_def le_imp_power_dvd)

lemma tk_mono: "0 < T \<Longrightarrow> 2 \<le> n \<Longrightarrow> j \<le> k \<Longrightarrow> tk T n j \<le> tk T n k"
  by (simp add: tk_def power_increasing)

lemma tk_large:
  assumes "0 < T" and "2 \<le> n"
  shows "2 ^ k \<le> tk T n k"
proof -
  have "(2::int) ^ k \<le> n ^ k" using assms by (simp add: power_mono)
  also have "\<dots> \<le> T * n ^ k" using assms by (simp add: mult_le_cancel_right1)
  finally show ?thesis by (simp add: tk_def)
qed

lemma floor_to_floor:
  assumes "0 < q" and "q dvd q'" and "0 < q'"
  shows "floor_to q' (floor_to q x) = floor_to q' x"
proof (rule floor_to_unique)
  have "q dvd floor_to q' x" using assms(2) floor_to_dvd dvd_trans by blast
  then show "floor_to q' x \<le> floor_to q x"
    using assms floor_to_greatest floor_to_le by blast
  show "floor_to q x < floor_to q' x + q'"
    using floor_to_le [OF assms(1), of x] floor_to_gt [OF assms(3), of x] by linarith
qed (use assms in simp_all)

lemma floor_tk:
  assumes "0 < T" and "2 \<le> n" and "j \<le> k"
  shows "floor_to (tk T n k) (floor_to (tk T n j) x) = floor_to (tk T n k) x"
  using assms by (intro floor_to_floor tk_dvd tk_pos)

text \<open>A slot holds at most one expiration at a time.\<close>

lemma slot_unique:
  assumes pos: "0 < T" "2 \<le> n" and E: "slot_ok T n c r E" and F: "slot_ok T n c r F"
  shows "E = F"
proof -
  let ?q = "tk T n (br_level r)"
  have q: "0 < ?q" using pos by (rule tk_pos)
  obtain a b where ab: "E = ?q * a" "F = ?q * b"
    using E F by (auto simp: slot_ok_def Let_def elim!: dvdE)
  have "a mod n = b mod n" using E F q by (simp add: slot_ok_def Let_def ab)
  moreover have "\<bar>?q * a - ?q * b\<bar> < ?q * n"
    using E F floor_to_le [OF q, of c] by (simp add: slot_ok_def Let_def ab abs_less_iff)
  then have "\<bar>a - b\<bar> < n"
    using q by (metis abs_mult abs_of_pos mult_less_cancel_left_pos right_diff_distrib')
  ultimately have "a = b"
    using pos by (metis abs_of_pos dvd_imp_le_int mod_eq_dvd_iff not_less right_minus_eq zero_less_numeral less_le_trans)
  then show ?thesis by (simp add: ab)
qed

text \<open>The slot that \<open>add\<close> computes for an entry within the span of the level.\<close>

lemma slot_of_entry:
  assumes pos: "0 < T" "2 \<le> n" "0 \<le> c"
    and lo: "floor_to (tk T n k) c + tk T n k \<le> x" and hi: "x < floor_to (tk T n k) c + tk T n (Suc k)"
  shows "slot_ok T n c (BRef k (nat (x div tk T n k mod n))) (floor_to (tk T n k) x)"
    and "floor_to (tk T n k) x \<le> x" and "x < floor_to (tk T n k) x + tk T n k"
proof -
  let ?q = "tk T n k"
  have q: "0 < ?q" using pos by (intro tk_pos)
  show *: "floor_to ?q x \<le> x" "x < floor_to ?q x + ?q"
    using q by (simp_all add: floor_to_le floor_to_gt)
  have "floor_to ?q c + ?q \<le> floor_to ?q x"
    using q lo by (intro floor_to_greatest) simp_all
  then have "c \<le> floor_to ?q x" using floor_to_gt [OF q, of c] by simp
  moreover have "floor_to ?q x div ?q = x div ?q"
    using q by (simp add: floor_to_eq_mult)
  ultimately show "slot_ok T n c (BRef k (nat (x div ?q mod n))) (floor_to ?q x)"
    using * hi pos by (simp add: slot_ok_def tk_Suc)
qed

section \<open>Changes that keep the levels\<close>

definition level_shape :: "timingWheel \<Rightarrow> int \<times> int \<times> int \<times> int \<times> nat" where
  "level_shape w = (w_tickMs w, w_wheelSize w, w_interval w, w_currentTime w, length (w_buckets w))"

definition shape :: "wheel_mem \<Rightarrow> (int \<times> int \<times> int \<times> int \<times> nat) list" where
  "shape m = map level_shape (m_levels m)"

lemma shape_upd [simp]: "shape (upd_bucket r f m) = shape m"
  by (cases "br_level r < length (m_levels m)")
    (auto simp: shape_def upd_bucket_def level_shape_def list_eq_iff_nth_eq nth_list_update)

lemma shape_wake [simp]: "shape (m\<lparr>m_wake := b\<rparr>) = shape m"
  by (simp add: shape_def)

lemma shape_m_h [simp]: "shape (m\<lparr>m_h := h\<rparr>) = shape m"
  by (simp add: shape_def)

lemma shape_erase [simp]: "shape (erase_idx m) = shape m"
  by (simp add: shape_def erase_idx_def level_shape_def)

lemma shape_nth:
  assumes "shape m' = shape m" and "k < length (m_levels m)"
  shows "length (m_levels m') = length (m_levels m)"
    and "level_shape (m_levels m' ! k) = level_shape (m_levels m ! k)"
proof -
  show len: "length (m_levels m') = length (m_levels m)"
    using assms(1) unfolding shape_def by (metis length_map)
  show "level_shape (m_levels m' ! k) = level_shape (m_levels m ! k)"
    using assms len unfolding shape_def by (metis nth_map)
qed

lemma shape_levels_ok:
  assumes "shape m' = shape m" and ok: "levels_ok T n m"
  shows "clock m' = clock m" and "levels_ok T n m'"
proof -
  have ne: "0 < length (m_levels m)" using ok by (simp add: levels_ok_def)
  note sh = shape_nth [OF assms(1)]
  show cl: "clock m' = clock m"
    using sh(2) [OF ne] by (simp add: clock_def level_shape_def)
  have "level_ok T n (clock m) k (m_levels m' ! k)" if "k < length (m_levels m)" for k
    using sh(2) [OF that] ok that by (simp add: levels_ok_def level_ok_def level_shape_def)
  then show "levels_ok T n m'"
    using ok sh(1) [OF ne] ne cl by (auto simp: levels_ok_def)
qed

lemma levels_ok_nth:
  "levels_ok T n m \<Longrightarrow> k < length (m_levels m) \<Longrightarrow> level_ok T n (clock m) k (m_levels m ! k)"
  by (simp add: levels_ok_def)

lemma levels_ok_valid:
  assumes "levels_ok T n m"
  shows "valid_ref m r \<longleftrightarrow> br_level r < length (m_levels m) \<and> br_slot r < nat n"
  using levels_ok_nth [OF assms] by (auto simp: valid_ref_def level_ok_def)

lemma exp_of_valid: "exp_of m r \<noteq> -1 \<Longrightarrow> valid_ref m r"
  by (simp add: exp_of_def split: if_splits)

lemma ents_pending: "e \<in> set (ents m r) \<Longrightarrow> e \<in> pending m"
  by (auto simp: pending_def)

lemma pending_put:
  "ents m' = (ents m)(r := ents m r @ [e]) \<Longrightarrow> pending m' = insert e (pending m)"
  by (auto simp: pending_def split: if_splits)

lemma wake_frame_views:
  assumes "erase_idx m' = (erase_idx m)\<lparr>m_wake := b\<rparr>"
  shows "exp_of m' = exp_of m" and "ents m' = ents m" and "shape m' = shape m"
proof -
  have "exp_of m' r = exp_of m r" for r by (metis assms exp_erase wake_views(1))
  then show "exp_of m' = exp_of m" by (simp add: fun_eq_iff)
  have "ents m' r = ents m r" for r by (metis assms ents_erase wake_views(2))
  then show "ents m' = ents m" by (simp add: fun_eq_iff)
  show "shape m' = shape m" by (metis assms shape_erase shape_wake)
qed

section \<open>Linking an entry into a bucket\<close>

text \<open>\<open>wheelBucket.add\<close> followed by \<open>offer\<close> when the expiration changed.\<close>

definition put :: "entry_ref \<Rightarrow> bucket_ref \<Rightarrow> int \<Rightarrow> wheel_mem \<Rightarrow> wheel_mem" where
  "put e r E m =
     (let m1 = upd_bucket r (\<lambda>b. b\<lparr>b_entries := b_entries b @ [e], b_expiration := E\<rparr>) m
      in if b_expiration (get_bucket m r) \<noteq> E then delayQueue_offer r m1 else m1)"

lemma put_views:
  assumes ok: "mem_ok T n ex m" and r: "valid_ref m r" and E: "slot_ok T n (clock m) r E" "0 \<le> E"
  shows "heap_idx_inv (put e r E m)" and "bq.ordered (put e r E m)"
    and "set (m_h (put e r E m)) = insert r (set (m_h m))" and "shape (put e r E m) = shape m"
    and "ents (put e r E m) = (ents m)(r := ents m r @ [e])"
    and "exp_of (put e r E m) = (exp_of m)(r := E)"
proof -
  let ?f = "\<lambda>b. b\<lparr>b_entries := b_entries b @ [e], b_expiration := E\<rparr>"
  let ?m1 = "upd_bucket r ?f m"
  have inv: "heap_idx_inv m" "bq.ordered m" using ok by (simp_all add: mem_ok_def)
  have v: "exp_of ?m1 = (exp_of m)(r := E)" "ents ?m1 = (ents m)(r := ents m r @ [e])"
    using upd_views [OF r, of ?f] r by (simp_all add: ents_def)
  have xr: "exp_of m r = b_expiration (get_bucket m r)" using r by (simp add: exp_of_def)
  have "heap_idx_inv (put e r E m) \<and> bq.ordered (put e r E m) \<and>
      set (m_h (put e r E m)) = insert r (set (m_h m)) \<and> shape (put e r E m) = shape m \<and>
      ents (put e r E m) = ents ?m1 \<and> exp_of (put e r E m) = exp_of ?m1"
  proof (cases "b_expiration (get_bucket m r) = E")
    case True
    then have "exp_of m r \<noteq> -1" using E(2) xr by simp
    then have rh: "r \<in> set (m_h m)" using ok by (simp add: mem_ok_def)
    have "exp_of ?m1 = exp_of m" using True xr by (simp add: v fun_eq_iff)
    then have "bq.ordered ?m1" using inv(2) by (simp add: bq.ordered_def keys_exp)
    moreover have "heap_idx_inv ?m1" using inv(1) r by (intro heap_idx_upd) simp_all
    ultimately show ?thesis using True rh by (auto simp: put_def)
  next
    case False
    note oc = offer_correct [OF inv r, of ?f ?m1, simplified]
    show ?thesis using False oc(1,2,4) wake_frame_views [OF oc(3)] by (simp add: put_def Let_def)
  qed
  with v show "heap_idx_inv (put e r E m)" and "bq.ordered (put e r E m)"
    and "set (m_h (put e r E m)) = insert r (set (m_h m))" and "shape (put e r E m) = shape m"
    and "ents (put e r E m) = (ents m)(r := ents m r @ [e])"
    and "exp_of (put e r E m) = (exp_of m)(r := E)"
    by simp_all
qed

lemma mem_ok_put:
  assumes ok: "mem_ok T n ex m" and r: "valid_ref m r" and E: "slot_ok T n (clock m) r E" "0 \<le> E"
    and e: "e \<notin> pending m" "E \<le> ex e" "ex e < E + tk T n (br_level r)"
  shows "mem_ok T n ex (put e r E m)"
proof -
  let ?m = "put e r E m"
  note pv = put_views [OF ok r E, of e]
  have lv: "levels_ok T n m" "0 < T" "2 \<le> n" using ok by (simp_all add: mem_ok_def levels_ok_def)
  note sl = shape_levels_ok [OF pv(4) lv(1)]
  note D = mem_okD [OF ok]
  have old: "exp_of m r = E" if "exp_of m r \<noteq> -1"
    using slot_unique [OF lv(2,3) D(6) [OF that] E(1)] .
  have fresh: "e \<notin> set (ents m r')" for r' using e(1) ents_pending by blast
  show ?thesis
  proof (rule mem_okI)
    fix r' show "r' \<in> set (m_h ?m) \<longleftrightarrow> exp_of ?m r' \<noteq> -1" using D(4) pv E(2) by auto
    show "ents ?m r' = [] \<longleftrightarrow> exp_of ?m r' = -1" using D(5) pv E(2) by auto
    show "distinct (ents ?m r')" using D(9) fresh pv by simp
    { assume "exp_of ?m r' \<noteq> -1" then show "slot_ok T n (clock ?m) r' (exp_of ?m r')"
        using D(6) pv(6) sl E(1) by (auto split: if_splits) }
    { fix r'' assume "r' \<noteq> r''" then show "set (ents ?m r') \<inter> set (ents ?m r'') = {}"
        using D(10) [of r' r''] fresh pv by auto }
    { fix x assume x: "x \<in> set (ents ?m r')"
      show "exp_of ?m r' \<le> ex x \<and> ex x < exp_of ?m r' + tk T n (br_level r')"
        using x D(7,8) [of x r'] old D(5) [of r] e pv by (auto split: if_splits) }
  qed (use pv sl in simp_all)
qed

section \<open>Allocating an overflow level\<close>

definition grow :: "timingWheel \<Rightarrow> wheel_mem \<Rightarrow> wheel_mem" where
  "grow w m = m\<lparr>m_levels := m_levels m @ [w]\<rparr>"

lemma grow_views:
  assumes "w_buckets w = replicate (nat n) newWheelBucket" and "m_levels m \<noteq> []"
  shows "ents (grow w m) = ents m" and "exp_of (grow w m) = exp_of m" and "clock (grow w m) = clock m"
    and "valid_ref m r \<Longrightarrow> valid_ref (grow w m) r \<and> get_bucket (grow w m) r = get_bucket m r"
    and "valid_ref (grow w m) r \<Longrightarrow> \<not> valid_ref m r \<Longrightarrow> get_bucket (grow w m) r = newWheelBucket"
  using assms
  by (auto simp: ents_def exp_of_def grow_def clock_def valid_ref_def get_bucket_def nth_append
      newWheelBucket_def fun_eq_iff less_Suc_eq split: if_splits)

lemma mem_ok_grow:
  assumes ok: "mem_ok T n ex m" and w: "level_ok T n (clock m) (length (m_levels m)) w"
    and b: "w_buckets w = replicate (nat n) newWheelBucket"
  shows "mem_ok T n ex (grow w m)"
proof -
  note D = mem_okD [OF ok]
  have ne: "m_levels m \<noteq> []" using D(1) by (simp add: levels_ok_def)
  note gv = grow_views [OF b ne]
  have h: "m_h (grow w m) = m_h m" by (simp add: grow_def)
  have "levels_ok T n (grow w m)"
    using D(1) w gv(3) by (auto simp: levels_ok_def grow_def nth_append less_Suc_eq)
  moreover have "heap_idx_inv (grow w m)"
    unfolding heap_idx_inv_def h
  proof (intro conjI allI impI)
    show "distinct (m_h m)" using D(2) by (simp add: heap_idx_inv_def)
    fix i assume "i < length (m_h m)"
    then show "valid_ref (grow w m) (m_h m ! i)" and "b_heapIdx (get_bucket (grow w m) (m_h m ! i)) = int i"
      using D(2) gv(4) by (simp_all add: heap_idx_inv_def)
  next
    fix r assume r: "valid_ref (grow w m) r" "r \<notin> set (m_h m)"
    show "b_heapIdx (get_bucket (grow w m) r) = -1"
      using r D(2) gv(4) [of r] gv(5) [OF r(1)] by (cases "valid_ref m r")
        (simp_all add: heap_idx_inv_def newWheelBucket_def)
  qed
  moreover have "bq.ordered (grow w m)"
    using D(3) gv(2) by (simp add: bq.ordered_def keys_exp h)
  ultimately show ?thesis
    using ok gv by (simp add: mem_ok_def h)
qed

section \<open>Routing an entry\<close>

text \<open>The level that \<open>add\<close> allocates above level \<open>k\<close> is well formed, without overflow.\<close>

lemma newTimingLevel_ok:
  assumes pos: "0 < T" "2 \<le> n" "0 \<le> c" "c < 2 ^ 62" and w: "level_ok T n c k w"
    and x: "tk T n (Suc k) \<le> x" "x * n \<le> 2 ^ 62"
  obtains v where "newTimingLevel (w_interval w) (w_wheelSize w) (w_currentTime w) = Inr v"
    and "level_ok T n c (Suc k) v" and "w_buckets v = replicate (nat n) newWheelBucket"
proof -
  let ?q = "tk T n (Suc k)"
  have q: "0 < ?q" using pos by (intro tk_pos)
  have "?q * n \<le> x * n" using x pos by (simp add: mult_right_mono)
  then have iv: "?q * n \<le> 2 ^ 62" using x by simp
  have mul: "mul64 ?q n = tk T n (Suc (Suc k))"
    using iv q pos by (subst mul64_exact) (auto simp: in_int64_def tk_Suc [of _ _ "Suc k"] intro: order_trans [of _ 0])
  have fl: "0 \<le> floor_to (tk T n k) c" "floor_to (tk T n k) c \<le> c"
    using pos floor_to_greatest [of "tk T n k" 0 c] by (simp_all add: tk_pos floor_to_le)
  let ?f = "floor_to (tk T n k) c"
  have sub: "sub64 ?f (?f smod ?q) = floor_to ?q c"
    using fl q pos floor_tk [OF pos(1,2), of k "Suc k" c] by (simp add: sub64_floor)
  show thesis
  proof (rule that)
    show "newTimingLevel (w_interval w) (w_wheelSize w) (w_currentTime w) =
        Inr \<lparr>w_tickMs = ?q, w_wheelSize = n, w_interval = tk T n (Suc (Suc k)),
             w_currentTime = floor_to ?q c, w_buckets = replicate (nat n) newWheelBucket\<rparr>"
      using w q pos by (simp add: newTimingLevel_def level_ok_def mul sub)
  qed (use iv pos in \<open>simp_all add: level_ok_def tk_Suc [of _ _ "Suc k"]\<close>)
qed

text \<open>
  The main lemma: a routed entry ends in exactly one bucket, at a level no higher than the
  first one whose span covers it; it is reported due only by the base level, exactly when its
  tick is not after the clock. No fault occurs when \<open>x * n\<close> fits.
\<close>

definition routed ::
  "nat \<Rightarrow> int \<Rightarrow> int \<Rightarrow> entry_ref \<Rightarrow> 'cb TimingWheel \<Rightarrow> bucket_ref \<Rightarrow> 'cb TimingWheel \<Rightarrow> bool" where
  "routed k T n e tw r tw' \<longleftrightarrow>
     (\<exists>m. tw' = tw\<lparr>tw_mem := m, tw_store := (tw_store tw)[e := (tw_store tw ! e)\<lparr>e_bucket := Some r\<rparr>]\<rparr> \<and>
        ents m = (ents (tw_mem tw))(r := ents (tw_mem tw) r @ [e]) \<and> clock m = clock (tw_mem tw)) \<and>
     (\<forall>j \<ge> k. e_expirationMs (tw_store tw ! e) < floor_to (tk T n j) (clock (tw_mem tw)) + tk T n (Suc j)
        \<longrightarrow> br_level r \<le> j)"

lemma routed_weaken:
  assumes "routed (Suc k) T n e tw r tw'"
    and "\<not> e_expirationMs (tw_store tw ! e) < floor_to (tk T n k) (clock (tw_mem tw)) + tk T n (Suc k)"
  shows "routed k T n e tw r tw'"
  using assms unfolding routed_def by (metis le_antisym not_less_eq_eq)

lemma level_add64:
  assumes "level_ok T n c k w" and "0 < T" "2 \<le> n" "0 \<le> c" "c < 2 ^ 62"
  shows "add64 (w_currentTime w) (w_tickMs w) = floor_to (tk T n k) c + tk T n k"
    and "add64 (w_currentTime w) (w_interval w) = floor_to (tk T n k) c + tk T n (Suc k)"
proof -
  have fl: "0 \<le> floor_to (tk T n k) c" "floor_to (tk T n k) c \<le> c"
    using assms floor_to_greatest [of "tk T n k" 0 c] by (simp_all add: tk_pos floor_to_le)
  have t: "0 < tk T n k" "tk T n k \<le> tk T n (Suc k)" "tk T n (Suc k) \<le> 2 ^ 62"
    using assms by (simp_all add: tk_pos tk_mono level_ok_def)
  show "add64 (w_currentTime w) (w_tickMs w) = floor_to (tk T n k) c + tk T n k"
    and "add64 (w_currentTime w) (w_interval w) = floor_to (tk T n k) c + tk T n (Suc k)"
    using assms fl t by (simp_all add: add64_small level_ok_def)
qed

text \<open>Where \<open>add\<close> links an entry that fits level \<open>k\<close>.\<close>

lemma add_fits:
  assumes ok: "mem_ok T n ex (tw_mem tw)" and k: "k < length (m_levels (tw_mem tw))"
    and x: "ex e = e_expirationMs (tw_store tw ! e)" "\<not> e_cancelled (tw_store tw ! e)"
    and e: "e \<notin> pending (tw_mem tw)"
    and lo: "floor_to (tk T n k) (clock (tw_mem tw)) + tk T n k \<le> ex e"
    and hi: "ex e < floor_to (tk T n k) (clock (tw_mem tw)) + tk T n (Suc k)"
  shows "\<exists>r tw'. timingWheel_add (Suc fuel) e k tw = Inr (True, tw') \<and>
    routed k T n e tw r tw' \<and> mem_ok T n ex (tw_mem tw')"
proof -
  let ?m = "tw_mem tw" and ?q = "tk T n k"
  let ?w = "m_levels ?m ! k" and ?x = "ex e" and ?E = "floor_to (tk T n k) (ex e)"
  let ?r = "BRef k (nat (?x div ?q mod n))"
  have lv: "levels_ok T n ?m" using ok by (simp add: mem_ok_def)
  then have pos: "0 < T" "2 \<le> n" "0 \<le> clock ?m" "clock ?m < 2 ^ 62" by (simp_all add: levels_ok_def)
  have w: "level_ok T n (clock ?m) k ?w" using lv k by (rule levels_ok_nth)
  have q: "0 < ?q" using pos by (intro tk_pos)
  have c: "0 \<le> floor_to ?q (clock ?m)" using q pos by (simp add: floor_to_greatest)
  have x0: "0 \<le> ?x" using lo c q by simp
  have top: "?x < 2 ^ 63"
    using hi w floor_to_le [OF q, of "clock ?m"] pos by (simp add: level_ok_def)
  have E0: "0 \<le> ?E" using q x0 by (simp add: floor_to_greatest)
  have wf: "w_tickMs ?w = ?q" "w_wheelSize ?w = n" "int (length (w_buckets ?w)) = n"
    using w pos by (simp_all add: level_ok_def)
  have vid: "?x sdiv ?q = ?x div ?q" "(?x div ?q) smod n = ?x div ?q mod n"
    using q x0 pos by (simp_all add: sdiv_nonneg smod_nonneg pos_imp_zdiv_nonneg_iff)
  have bexp: "mul64 (?x div ?q) ?q = ?E"
    unfolding mul64_def using E0 top floor_to_le [OF q, of ?x]
    by (subst wrap64_id) (simp_all add: in_int64_def floor_to_eq_mult)
  have slot: "0 \<le> ?x div ?q mod n" "?x div ?q mod n < n" using pos by simp_all
  note so = slot_of_entry [OF pos(1-3), of k ?x]
  have sl: "slot_ok T n (clock ?m) ?r ?E" "?E \<le> ?x" "?x < ?E + ?q" using so lo hi q by simp_all
  have v: "valid_ref ?m ?r" using levels_ok_valid [OF lv] k slot by simp
  let ?tw = "tw\<lparr>tw_mem := put e ?r ?E ?m,
    tw_store := (tw_store tw)[e := (tw_store tw ! e)\<lparr>e_bucket := Some ?r\<rparr>]\<rparr>"
  have "timingWheel_add (Suc fuel) e k tw = Inr (True, ?tw)"
    using x(2) lo hi slot level_add64 [OF w pos]
    by (simp add: x(1) [symmetric] wf vid bexp Let_def wheelBucket_add_def put_def)
  moreover have "mem_ok T n ex (put e ?r ?E ?m)"
    using mem_ok_put [OF ok v sl(1) E0 e] sl by simp
  moreover note pv = put_views [OF ok v sl(1) E0, of e]
  have "routed k T n e tw ?r ?tw"
    using pv(5) shape_levels_ok(1) [OF pv(4) lv] by (auto simp: routed_def)
  ultimately show ?thesis by (intro exI [of _ ?r] exI [of _ ?tw]) simp
qed

lemma add_routes:
  assumes "mem_ok T n ex (tw_mem tw)" and "k < length (m_levels (tw_mem tw))"
    and "ex e = e_expirationMs (tw_store tw ! e)" and "\<not> e_cancelled (tw_store tw ! e)"
    and "e \<notin> pending (tw_mem tw)" and "ex e * n \<le> 2 ^ 62"
    and "floor_to (tk T n k) (clock (tw_mem tw)) + tk T n k \<le> ex e"
    and "ex e < tk T n (k + fuel)"
  shows "\<exists>r tw'. timingWheel_add fuel e k tw = Inr (True, tw') \<and>
    routed k T n e tw r tw' \<and> mem_ok T n ex (tw_mem tw')"
  using assms
proof (induction fuel arbitrary: k tw)
  case 0
  have "levels_ok T n (tw_mem tw)" using "0.prems"(1) by (simp add: mem_ok_def)
  then have "0 \<le> floor_to (tk T n k) (clock (tw_mem tw))"
    by (intro floor_to_greatest) (simp_all add: levels_ok_def tk_pos)
  with "0.prems" show ?case by simp
next
  case (Suc fuel)
  let ?m = "tw_mem tw"
  let ?w = "m_levels ?m ! k" and ?c = "clock ?m"
  have lv: "levels_ok T n ?m" using Suc.prems(1) by (simp add: mem_ok_def)
  then have pos: "0 < T" "2 \<le> n" "0 \<le> ?c" "?c < 2 ^ 62" by (simp_all add: levels_ok_def)
  have w: "level_ok T n ?c k ?w" using lv Suc.prems(2) by (rule levels_ok_nth)
  have q: "0 < tk T n k" "0 < tk T n (Suc k)" using pos by (simp_all add: tk_pos)
  show ?case
  proof (cases "ex e < floor_to (tk T n k) ?c + tk T n (Suc k)")
    case True
    then show ?thesis using Suc.prems by (intro add_fits)
  next
    case False
    have "floor_to (tk T n (Suc k)) ?c \<le> floor_to (tk T n k) ?c"
      using floor_tk [OF pos(1,2), of k "Suc k" ?c] floor_to_le [OF q(2)] by (metis le_SucI order_refl)
    with False have lo: "floor_to (tk T n (k + 1)) ?c + tk T n (k + 1) \<le> ex e" by simp
    have up: "tk T n (Suc k) \<le> ex e" using False floor_to_greatest [OF q(1), of 0 ?c] pos by simp
    have weaken: "routed k T n e tw r tw'" if "routed (k + 1) T n e tw r tw'" for r tw'
      using that False Suc.prems(3) by (simp add: routed_weaken)
    note step = level_add64 [OF w pos] Suc.prems(3,4,7) False
    show ?thesis
    proof (cases "k + 1 < length (m_levels ?m)")
      case True
      have "timingWheel_add (Suc fuel) e k tw = timingWheel_add fuel e (k + 1) tw"
        using True step by (simp add: Let_def)
      then show ?thesis
        using Suc.IH [of tw "k + 1"] Suc.prems True lo weaken by (auto simp: add_ac)
    next
      case top: False
      then have len: "length (m_levels ?m) = Suc k" using Suc.prems(2) by simp
      from newTimingLevel_ok [OF pos w up Suc.prems(6)]
      obtain v where v: "newTimingLevel (w_interval ?w) (w_wheelSize ?w) (w_currentTime ?w) = Inr v"
        "level_ok T n ?c (Suc k) v" "w_buckets v = replicate (nat n) newWheelBucket" .
      let ?tw = "tw\<lparr>tw_mem := grow v ?m\<rparr>"
      have ne: "m_levels ?m \<noteq> []" using len by auto
      note gv = grow_views [OF v(3) ne]
      have "timingWheel_add (Suc fuel) e k tw = timingWheel_add fuel e (k + 1) ?tw"
        using top step v(1) by (simp add: Let_def grow_def)
      moreover have "\<exists>r tw'. timingWheel_add fuel e (k + 1) ?tw = Inr (True, tw') \<and>
          routed (k + 1) T n e ?tw r tw' \<and> mem_ok T n ex (tw_mem tw')"
        using mem_ok_grow [OF Suc.prems(1) v(2) [folded len] v(3)] Suc.prems gv lo len
        by (intro Suc.IH) (simp_all add: pending_def grow_def add_ac)
      moreover have "routed (k + 1) T n e tw r tw'" if "routed (k + 1) T n e ?tw r tw'" for r tw'
        using that gv by (simp add: routed_def)
      ultimately show ?thesis using weaken by metis
    qed
  qed
qed

text \<open>Only the base level reports an entry as due.\<close>

lemma add_due:
  assumes "levels_ok T n (tw_mem tw)" and "\<not> e_cancelled (tw_store tw ! e)"
    and "e_expirationMs (tw_store tw ! e) < clock (tw_mem tw) + T"
  shows "timingWheel_add (Suc fuel) e 0 tw = Inr (False, tw)"
proof -
  have pos: "0 < T" "2 \<le> n" "0 \<le> clock (tw_mem tw)" "clock (tw_mem tw) < 2 ^ 62" "m_levels (tw_mem tw) \<noteq> []"
    using assms(1) by (simp_all add: levels_ok_def)
  have w: "level_ok T n (clock (tw_mem tw)) 0 (m_levels (tw_mem tw) ! 0)"
    using levels_ok_nth [OF assms(1), of 0] pos(5) by simp
  have "floor_to T (clock (tw_mem tw)) = clock (tw_mem tw)"
    using w by (simp add: level_ok_def clock_def)
  then show ?thesis
    using assms(2,3) level_add64 [OF w pos(1-4)] by (simp add: Let_def)
qed

lemma add_cancelled: "e_cancelled (tw_store tw ! e) \<Longrightarrow> timingWheel_add (Suc fuel) e k tw = Inr (True, tw)"
  by simp

section \<open>Advancing the clocks\<close>

lemma advance_buckets [simp]: "map w_buckets (advanceClock t ws) = map w_buckets ws"
  by (induction t ws rule: advanceClock.induct) (simp_all add: Let_def)

lemma advance_length [simp]: "length (advanceClock t ws) = length ws"
  using advance_buckets [of t ws] by (metis length_map)

lemma advance_Nil [simp]: "advanceClock t ws = [] \<longleftrightarrow> ws = []"
  by (metis advance_length length_0_conv)

lemma advance_level_ok:
  assumes "\<forall>i < length ws. level_ok T n c (k + i) (ws ! i)"
    and pos: "0 < T" "2 \<le> n" "0 \<le> c" "c \<le> t" "t < 2 ^ 62"
    and "0 \<le> t'" "t' \<le> t" "\<And>i. k \<le> i \<Longrightarrow> floor_to (tk T n i) t' = floor_to (tk T n i) t"
  shows "i < length ws \<Longrightarrow> level_ok T n t (k + i) (advanceClock t' ws ! i)"
  using assms(1,7-9)
proof (induction t' ws arbitrary: k i rule: advanceClock.induct)
  case (2 t' w ov)
  let ?q = "tk T n k"
  have q: "0 < ?q" using pos by (intro tk_pos)
  have w: "level_ok T n c k w" using "2.prems"(2) by force
  have ov: "\<forall>i < length ov. level_ok T n c (Suc k + i) (ov ! i)" using "2.prems"(2) by force
  have fl: "floor_to ?q t' = floor_to ?q t" using "2.prems"(5) by simp
  have add: "add64 (w_currentTime w) (w_tickMs w) = floor_to ?q c + ?q"
    using level_add64(1) [OF w] pos by simp
  show ?case
  proof (cases "t' \<ge> floor_to ?q c + ?q")
    case True
    let ?n = "sub64 t' (t' smod w_tickMs w)"
    have n: "?n = floor_to ?q t"
      using w q "2.prems"(3,4) pos fl by (simp add: level_ok_def sub64_floor)
    have "level_ok T n t k (w\<lparr>w_currentTime := ?n\<rparr>)" using w n by (simp add: level_ok_def)
    moreover have "level_ok T n t (Suc k + j) (advanceClock ?n ov ! j)" if "j < length ov" for j
    proof (rule "2.IH" [OF _ refl that ov])
      show "t' \<ge> add64 (w_currentTime w) (w_tickMs w)" using True add by simp
      show "0 \<le> ?n" "?n \<le> t" using n q pos floor_to_greatest [OF q, of 0 t] floor_to_le [OF q] by simp_all
      show "floor_to (tk T n i) ?n = floor_to (tk T n i) t" if "Suc k \<le> i" for i
        using n that floor_tk [OF pos(1,2), of k i] by simp
    qed
    ultimately show ?thesis
      using True add "2.prems"(1) by (cases i) (simp_all add: Let_def)
  next
    case False
    have "floor_to ?q t' = floor_to ?q c"
      using False fl floor_to_mono [OF q pos(4)] floor_to_le [OF q, of t']
      by (intro floor_to_unique [OF q]) simp_all
    then have "floor_to ?q t = floor_to ?q c" using fl by simp
    then have "floor_to (tk T n (k + j)) t = floor_to (tk T n (k + j)) c" for j
      using floor_tk [OF pos(1,2), of k "k + j"] by (metis le_add1)
    then show ?thesis
      using False add "2.prems"(1,2) by (auto simp: level_ok_def)
  qed
qed simp

section \<open>Taking a due bucket off the wheel\<close>

definition adv :: "int \<Rightarrow> wheel_mem \<Rightarrow> wheel_mem" where
  "adv t m = m\<lparr>m_levels := advanceClock t (m_levels m)\<rparr>"

lemma adv_bucket:
  assumes "k < length (m_levels m)"
  shows "w_buckets (advanceClock t (m_levels m) ! k) = w_buckets (m_levels m ! k)"
  using assms by (metis advance_buckets advance_length nth_map)

lemma adv_views:
  shows "valid_ref (adv t m) r = valid_ref m r" and "valid_ref m r \<Longrightarrow> get_bucket (adv t m) r = get_bucket m r"
    and "ents (adv t m) = ents m" and "exp_of (adv t m) = exp_of m" and "m_h (adv t m) = m_h m"
  using adv_bucket [of _ m t]
  by (auto simp: adv_def valid_ref_def get_bucket_def ents_def exp_of_def fun_eq_iff)

lemma adv_heap_inv: "heap_idx_inv m \<Longrightarrow> heap_idx_inv (adv t m)"
  by (simp add: heap_idx_inv_def adv_views)

lemma adv_levels_ok:
  assumes ok: "levels_ok T n m" and t: "clock m \<le> t" "t < 2 ^ 62" "T dvd t"
  shows "levels_ok T n (adv t m)" and "clock (adv t m) = t"
proof -
  have pos: "0 < T" "2 \<le> n" "0 \<le> clock m" "m_levels m \<noteq> []" using ok by (simp_all add: levels_ok_def)
  have all: "\<forall>i < length (m_levels m). level_ok T n (clock m) (0 + i) (m_levels m ! i)"
    using levels_ok_nth [OF ok] by simp
  have lv: "level_ok T n t i (advanceClock t (m_levels m) ! i)" if "i < length (m_levels m)" for i
    using advance_level_ok [OF all pos(1-3) t(1,2), of t i] pos t that by simp
  then show cl: "clock (adv t m) = t"
    using lv [of 0] pos t(3) by (simp add: clock_def adv_def level_ok_def floor_to_id)
  show "levels_ok T n (adv t m)"
    using lv pos t cl by (auto simp: levels_ok_def adv_def)
qed

definition clear :: "bucket_ref \<Rightarrow> wheel_mem \<Rightarrow> wheel_mem" where
  "clear r m = upd_bucket r (\<lambda>b. b\<lparr>b_entries := [], b_expiration := -1\<rparr>) m"

lemma slot_ok_advance:
  assumes "slot_ok T n c r E" and "0 < T" "2 \<le> n" and "c \<le> t" and "t \<le> E"
  shows "slot_ok T n t r E"
  using assms floor_to_mono [OF tk_pos [OF assms(2,3)] assms(4), of "br_level r"]
  by (simp add: slot_ok_def Let_def)

lemma slot_ok_tick: "slot_ok T n c r E \<Longrightarrow> T dvd E"
  using tk_dvd [of 0 "br_level r" T n] by (auto simp: slot_ok_def Let_def intro: dvd_trans)

lemma mem_ok_take:
  assumes ok: "mem_ok T n ex m" and p: "delayQueue_poll now m = (Some r, wt, m')" and now: "now < 2 ^ 62"
  defines "E \<equiv> exp_of m r"
  shows "mem_ok T n ex (clear r (adv E m'))" and "ents (clear r (adv E m')) = (ents m)(r := [])"
    and "clock (clear r (adv E m')) = E" and "clock m \<le> E" and "E \<le> now"
    and "slot_ok T n (clock m) r E" and "valid_ref m' r" and "get_bucket m' r = get_bucket (adv E m') r"
    and "b_expiration (get_bucket m' r) = E" and "b_entries (get_bucket m' r) = ents m r" and "ents m r \<noteq> []"
proof -
  note D = mem_okD [OF ok]
  note ps = poll_some [OF D(2,3) p]
  have pos: "0 < T" "2 \<le> n" using D(1) by (simp_all add: levels_ok_def)
  have sh: "shape m' = shape m" using ps(6) by (metis shape_erase)
  note fv = frame_views [OF ps(6)] and sl = shape_levels_ok [OF sh D(1)]
  have live: "exp_of m r \<noteq> -1" using ps(1) D(4) by simp
  show so: "slot_ok T n (clock m) r E" using D(6) [OF live] by (simp add: E_def)
  show v: "valid_ref m' r" using exp_of_valid [OF live] fv(1) by simp
  show cE: "clock m \<le> E" using so by (simp add: slot_ok_def Let_def)
  show En: "E \<le> now" using ps(2) by (simp add: E_def)
  show gb: "get_bucket m' r = get_bucket (adv E m') r" using adv_views(2) [OF v] by simp
  show xr: "b_expiration (get_bucket m' r) = E" and er: "b_entries (get_bucket m' r) = ents m r"
    using v fv [of r] by (simp_all add: E_def exp_of_def ents_def)
  show ne: "ents m r \<noteq> []" using D(5) live by simp
  note al = adv_levels_ok [OF sl(2) _ _ slot_ok_tick [OF so]]
  have al': "levels_ok T n (adv E m')" "clock (adv E m') = E"
    using al sl(1) cE En now by simp_all
  have v': "valid_ref (adv E m') r" using v by (simp add: adv_views)
  let ?m = "clear r (adv E m')"
  have views: "ents ?m = (ents m)(r := [])" "exp_of ?m = (exp_of m)(r := -1)" "m_h ?m = m_h m'" "shape ?m = shape (adv E m')"
    using upd_views [OF v'] fv by (simp_all add: clear_def adv_views fun_eq_iff)
  show "ents ?m = (ents m)(r := [])" by (fact views(1))
  note sl' = shape_levels_ok [OF views(4) al'(1)]
  show cl: "clock ?m = E" using sl'(1) al'(2) by simp
  have ord: "bq.ordered ?m"
  proof -
    have *: "map (exp_of ?m) (m_h m') = map (exp_of m') (m_h m')"
      using ps(7) views fv by auto
    show ?thesis using ps(5) unfolding bq.ordered_def keys_exp views(3) * .
  qed
  have hi: "heap_idx_inv ?m"
    unfolding clear_def using adv_heap_inv [OF ps(4)] v' by (intro heap_idx_upd) simp_all
  show "mem_ok T n ex ?m"
  proof (rule mem_okI)
    fix r'
    show "r' \<in> set (m_h ?m) \<longleftrightarrow> exp_of ?m r' \<noteq> -1" using ps(7) D(4) views by auto
    show "ents ?m r' = [] \<longleftrightarrow> exp_of ?m r' = -1" using D(5) views by auto
    show "distinct (ents ?m r')" using D(9) views by simp
    { assume a: "exp_of ?m r' \<noteq> -1"
      then have "exp_of m r' \<noteq> -1" "exp_of ?m r' = exp_of m r'" using views by (auto split: if_splits)
      then show "slot_ok T n (clock ?m) r' (exp_of ?m r')"
        using slot_ok_advance [OF D(6) pos cE, of r'] ps(3) [of r'] D(4) [of r'] cl by (simp add: E_def) }
    { fix r'' assume "r' \<noteq> r''" then show "set (ents ?m r') \<inter> set (ents ?m r'') = {}"
        using D(10) [of r' r''] views by auto }
    { fix x assume "x \<in> set (ents ?m r')"
      then show "exp_of ?m r' \<le> ex x \<and> ex x < exp_of ?m r' + tk T n (br_level r')"
        using D(7,8) [of x r'] views by (auto split: if_splits) }
  qed (use sl' hi ord in simp_all)
qed

end
