(* ===== verification/Wheel_Correct.thy ===== *)
theory Wheel_Correct
  imports Wheel_Invariant
begin

text \<open>
  Correctness of the public wheel: the invariant \<open>wheel_ok\<close> over the memory, the store, the
  index of entries by task ID and the log of dispatched callbacks; that \<open>Schedule\<close>,
  \<open>Cancel\<close> and the tick loop keep it; and what each of them does to the set of armed entries.
\<close>

section \<open>The invariant\<close>

definition tw_exp :: "'cb TimingWheel \<Rightarrow> entry_ref \<Rightarrow> int" where
  "tw_exp tw e = e_expirationMs (tw_store tw ! e)"

definition tw_canc :: "'cb TimingWheel \<Rightarrow> entry_ref \<Rightarrow> bool" where
  "tw_canc tw e = e_cancelled (tw_store tw ! e)"

definition tw_tid :: "'cb TimingWheel \<Rightarrow> entry_ref \<Rightarrow> string" where
  "tw_tid tw e = e_taskID (tw_store tw ! e)"

abbreviation tw_pending :: "'cb TimingWheel \<Rightarrow> entry_ref set" where
  "tw_pending tw \<equiv> pending (tw_mem tw)"

abbreviation tw_clock :: "'cb TimingWheel \<Rightarrow> int" where
  "tw_clock tw \<equiv> clock (tw_mem tw)"

text \<open>The index maps an ID to the one armed, not cancelled entry with this ID.\<close>

definition index_ok :: "entry_ref set \<Rightarrow> 'cb TimingWheel \<Rightarrow> bool" where
  "index_ok A tw \<longleftrightarrow> (\<forall>tid e. tw_entries tw tid = Some e \<longleftrightarrow>
     tid \<noteq> '''' \<and> e \<in> A \<and> \<not> tw_canc tw e \<and> tw_tid tw e = tid)"

text \<open>\<open>F\<close> holds the entries in flight: flushed from a bucket and not yet inserted again.\<close>

definition wheel_ok :: "entry_ref set \<Rightarrow> 'cb TimingWheel \<Rightarrow> bool" where
  "wheel_ok F tw \<longleftrightarrow> mem_ok (tw_tickMs tw) (tw_size tw) (tw_exp tw) (tw_mem tw) \<and>
     tw_pending tw \<inter> F = {} \<and> tw_pending tw \<union> F \<subseteq> {..<length (tw_store tw)} \<and>
     set (tw_fired tw) \<subseteq> {..<length (tw_store tw)} - (tw_pending tw \<union> F) \<and> distinct (tw_fired tw) \<and>
     (\<forall>e \<in> tw_pending tw \<union> F. tw_exp tw e * tw_size tw \<le> 2 ^ 62) \<and>
     index_ok (tw_pending tw \<union> F) tw"

text \<open>What no internal step of the wheel changes.\<close>

definition same_wheel :: "'cb TimingWheel \<Rightarrow> 'cb TimingWheel \<Rightarrow> bool" where
  "same_wheel tw tw' \<longleftrightarrow> tw_tickMs tw' = tw_tickMs tw \<and> tw_size tw' = tw_size tw \<and>
     tw_started tw' = tw_started tw \<and> tw_stopped tw' = tw_stopped tw \<and>
     length (tw_store tw') = length (tw_store tw) \<and>
     tw_exp tw' = tw_exp tw \<and> tw_canc tw' = tw_canc tw \<and> tw_tid tw' = tw_tid tw"

lemma same_wheel_refl [simp]: "same_wheel tw tw"
  by (simp add: same_wheel_def)

lemma same_wheel_trans: "same_wheel a b \<Longrightarrow> same_wheel b c \<Longrightarrow> same_wheel a c"
  by (simp add: same_wheel_def)

lemma wheel_okD:
  assumes "wheel_ok F tw"
  shows "mem_ok (tw_tickMs tw) (tw_size tw) (tw_exp tw) (tw_mem tw)"
    and "levels_ok (tw_tickMs tw) (tw_size tw) (tw_mem tw)"
    and "0 < tw_tickMs tw" and "2 \<le> tw_size tw" and "m_levels (tw_mem tw) \<noteq> []"
    and "e \<in> F \<Longrightarrow> e \<notin> tw_pending tw"
    and "e \<in> F \<Longrightarrow> e < length (tw_store tw)"
    and "e \<in> F \<Longrightarrow> tw_exp tw e * tw_size tw \<le> 2 ^ 62"
    and "e \<in> F \<Longrightarrow> e \<notin> set (tw_fired tw)"
    and "tw_tickMs tw dvd tw_clock tw"
proof -
  show l: "levels_ok (tw_tickMs tw) (tw_size tw) (tw_mem tw)"
    using assms by (simp add: wheel_ok_def mem_ok_def)
  then have "level_ok (tw_tickMs tw) (tw_size tw) (tw_clock tw) 0 (m_levels (tw_mem tw) ! 0)"
    by (simp add: levels_ok_def)
  then show "tw_tickMs tw dvd tw_clock tw"
    unfolding level_ok_def clock_def by (metis floor_to_dvd tk_0)
qed (use assms in \<open>auto simp: wheel_ok_def mem_ok_def levels_ok_def\<close>)

lemma index_ok_unique:
  assumes "index_ok A tw" and "e \<in> A" "\<not> tw_canc tw e" and "e' \<in> A" "\<not> tw_canc tw e'"
    and "tw_tid tw e = tw_tid tw e'" "tw_tid tw e \<noteq> ''''"
  shows "e = e'"
proof -
  have "tw_entries tw (tw_tid tw e) = Some e" "tw_entries tw (tw_tid tw e) = Some e'"
    using assms by (simp_all add: index_ok_def)
  then show ?thesis by simp
qed

text \<open>Taking \<open>e\<close> out of the index when it leaves the armed entries.\<close>

lemma index_ok_remove:
  assumes i: "index_ok A tw" and e: "e \<in> A" "\<not> tw_canc tw e"
    and t: "\<And>tid. tw_entries tw' tid = (if tw_entries tw tid = Some e then None else tw_entries tw tid)"
    and c: "\<And>x. x \<noteq> e \<Longrightarrow> tw_canc tw' x = tw_canc tw x" "tw_tid tw' = tw_tid tw"
  shows "index_ok (A - {e}) tw'"
  unfolding index_ok_def
proof (intro allI)
  fix tid x
  show "tw_entries tw' tid = Some x \<longleftrightarrow> tid \<noteq> '''' \<and> x \<in> A - {e} \<and> \<not> tw_canc tw' x \<and> tw_tid tw' x = tid"
    using i e t [of tid] c index_ok_unique [OF i e, of x] by (cases "x = e") (auto simp: index_ok_def)
qed

section \<open>Inserting an entry\<close>

text \<open>The effect of \<open>insert\<close>: dropped when cancelled, dispatched when due, else armed.\<close>

definition inserted :: "entry_ref \<Rightarrow> 'cb TimingWheel \<Rightarrow> 'cb TimingWheel \<Rightarrow> bool" where
  "inserted e tw tw' \<longleftrightarrow> same_wheel tw tw' \<and> tw_clock tw' = tw_clock tw \<and>
     (if tw_canc tw e then ents (tw_mem tw') = ents (tw_mem tw) \<and> tw_fired tw' = tw_fired tw
      else if tw_exp tw e < tw_clock tw + tw_tickMs tw
      then ents (tw_mem tw') = ents (tw_mem tw) \<and> tw_fired tw' = tw_fired tw @ [e]
      else tw_fired tw' = tw_fired tw \<and>
        (\<exists>r. ents (tw_mem tw') = (ents (tw_mem tw))(r := ents (tw_mem tw) r @ [e]) \<and>
          (\<forall>j. tw_exp tw e < floor_to (tk (tw_tickMs tw) (tw_size tw) j) (tw_clock tw) +
                 tk (tw_tickMs tw) (tw_size tw) (Suc j) \<longrightarrow> br_level r \<le> j)))"

lemma insert_armed:
  assumes ok: "wheel_ok F tw" and e: "e \<in> F" and c: "\<not> tw_canc tw e"
    and d: "tw_clock tw + tw_tickMs tw \<le> tw_exp tw e"
  shows "\<exists>tw'. TimingWheel_insert e tw = Inr tw' \<and> wheel_ok (F - {e}) tw' \<and> inserted e tw tw'"
proof -
  let ?T = "tw_tickMs tw" and ?n = "tw_size tw"
  note W = wheel_okD [OF ok]
  have fl: "floor_to (tk ?T ?n 0) (tw_clock tw) = tw_clock tw" using W(10) by (simp add: floor_to_id)
  have "tw_exp tw e * 2 \<le> tw_exp tw e * ?n"
    using W(2,3,4) d by (intro mult_left_mono) (simp_all add: levels_ok_def)
  then have "tw_exp tw e < 2 ^ maxDepth" using W(8) [OF e] by (simp add: maxDepth_def)
  then have "tw_exp tw e < tk ?T ?n (0 + maxDepth)" using tk_large [OF W(3,4), of maxDepth] by simp
  then have "\<exists>r tw'. timingWheel_add maxDepth e 0 tw = Inr (True, tw') \<and>
      routed 0 ?T ?n e tw r tw' \<and> mem_ok ?T ?n (tw_exp tw) (tw_mem tw')"
    using W(1,5) W(8) [OF e] W(6) [OF e] c d fl
    by (intro add_routes) (simp_all add: tw_exp_def tw_canc_def)
  then obtain r tw' where a: "timingWheel_add maxDepth e 0 tw = Inr (True, tw')"
      "routed 0 ?T ?n e tw r tw'" "mem_ok ?T ?n (tw_exp tw) (tw_mem tw')" by blast
  from a(2) obtain m where t: "tw' = tw\<lparr>tw_mem := m,
      tw_store := (tw_store tw)[e := (tw_store tw ! e)\<lparr>e_bucket := Some r\<rparr>]\<rparr>"
    and m: "ents m = (ents (tw_mem tw))(r := ents (tw_mem tw) r @ [e])" "clock m = tw_clock tw"
    by (auto simp: routed_def)
  have sw: "same_wheel tw tw'"
    by (simp add: same_wheel_def t tw_exp_def tw_canc_def tw_tid_def fun_eq_iff nth_update_field)
  have p: "tw_pending tw' = insert e (tw_pending tw)" using pending_put [of m "tw_mem tw" r e] m t by simp
  then have un: "tw_pending tw' \<union> (F - {e}) = tw_pending tw \<union> F" using e by auto
  have "wheel_ok (F - {e}) tw'"
    using ok a(3) sw p un e unfolding wheel_ok_def same_wheel_def index_ok_def
    by (auto simp: t)
  moreover have "inserted e tw tw'"
    using sw m a(2) c d by (auto simp: inserted_def t routed_def tw_exp_def)
  moreover have "TimingWheel_insert e tw = Inr tw'" using a(1) by (simp add: TimingWheel_insert_def)
  ultimately show ?thesis by blast
qed

lemma insert_due:
  assumes ok: "wheel_ok F tw" and e: "e \<in> F" and c: "\<not> tw_canc tw e"
    and d: "tw_exp tw e < tw_clock tw + tw_tickMs tw"
  shows "\<exists>tw'. TimingWheel_insert e tw = Inr tw' \<and> wheel_ok (F - {e}) tw' \<and> inserted e tw tw'"
proof -
  note W = wheel_okD [OF ok]
  let ?tw = "(removeFromIndex e tw)\<lparr>tw_fired := tw_fired tw @ [e]\<rparr>"
  have "timingWheel_add maxDepth e 0 tw = Inr (False, tw)"
    unfolding maxDepth_def using add_due [OF W(2), of e 63] c d by (simp add: tw_canc_def tw_exp_def)
  then have ins: "TimingWheel_insert e tw = Inr ?tw"
    using c by (simp add: TimingWheel_insert_def tw_canc_def)
  have idx: "tw_entries (removeFromIndex e tw) tid = (if tw_entries tw tid = Some e then None else tw_entries tw tid)" for tid
    using ok by (auto simp: removeFromIndex_def Let_def wheel_ok_def index_ok_def tw_tid_def)
  have fields: "tw_mem ?tw = tw_mem tw" "tw_store ?tw = tw_store tw" "tw_tickMs ?tw = tw_tickMs tw"
    "tw_size ?tw = tw_size tw" "tw_started ?tw = tw_started tw" "tw_stopped ?tw = tw_stopped tw"
    by (simp_all add: removeFromIndex_def Let_def)
  have sw: "same_wheel tw ?tw"
    using fields by (simp add: same_wheel_def tw_exp_def tw_canc_def tw_tid_def fun_eq_iff)
  have i: "index_ok (tw_pending tw \<union> F) tw" using ok by (simp add: wheel_ok_def)
  have "index_ok (tw_pending tw \<union> F - {e}) ?tw"
    using e c idx sw by (intro index_ok_remove [OF i]) (simp_all add: same_wheel_def)
  then have "index_ok (tw_pending ?tw \<union> (F - {e})) ?tw"
    using W(6) [OF e] by (simp add: fields Un_Diff)
  then have "wheel_ok (F - {e}) ?tw"
    using ok sw e W(6,7,9) [OF e] unfolding wheel_ok_def same_wheel_def by (auto simp: fields)
  moreover have "inserted e tw ?tw" using sw c d by (simp add: inserted_def fields)
  ultimately show ?thesis using ins by blast
qed

lemma insert_cancelled:
  assumes ok: "wheel_ok F tw" and e: "e \<in> F" and c: "tw_canc tw e"
  shows "\<exists>tw'. TimingWheel_insert e tw = Inr tw' \<and> wheel_ok (F - {e}) tw' \<and> inserted e tw tw'"
proof -
  note W = wheel_okD [OF ok]
  have "TimingWheel_insert e tw = Inr tw"
    using c by (simp add: TimingWheel_insert_def maxDepth_def tw_canc_def numeral_eq_Suc)
  moreover have "wheel_ok (F - {e}) tw"
    using ok c W(6) [OF e] unfolding wheel_ok_def index_ok_def by auto
  moreover have "inserted e tw tw" using c by (simp add: inserted_def)
  ultimately show ?thesis by blast
qed

lemma insert_ok:
  assumes "wheel_ok F tw" and "e \<in> F"
  obtains tw' where "TimingWheel_insert e tw = Inr tw'" "wheel_ok (F - {e}) tw'" "inserted e tw tw'"
  using insert_armed [OF assms] insert_due [OF assms] insert_cancelled [OF assms] by (meson not_less)

section \<open>The weight of the pending entries\<close>

text \<open>An entry at level \<open>k\<close> is handled at most \<open>k + 1\<close> times before it is gone.\<close>

definition weight :: "(bucket_ref \<Rightarrow> entry_ref list) \<Rightarrow> nat" where
  "weight g = (\<Sum>r | g r \<noteq> []. Suc (br_level r) * length (g r))"

lemma weight_upd:
  assumes "finite {r. g r \<noteq> []}"
  shows "weight (g(r := xs)) + Suc (br_level r) * length (g r) = weight g + Suc (br_level r) * length xs"
proof -
  let ?f = "\<lambda>g r. Suc (br_level r) * length (g r)"
  let ?S = "insert r {r. g r \<noteq> []}"
  have "weight (g(r := xs)) = sum (?f (g(r := xs))) ?S"
    unfolding weight_def using assms by (intro sum.mono_neutral_left) auto
  also have "\<dots> = Suc (br_level r) * length xs + sum (?f g) (?S - {r})"
    using assms by (subst sum.remove [of ?S r]) (auto intro!: sum.cong)
  finally have "weight (g(r := xs)) = Suc (br_level r) * length xs + sum (?f g) (?S - {r})" .
  moreover have "weight g = sum (?f g) ?S"
    unfolding weight_def using assms by (intro sum.mono_neutral_left) auto
  moreover have "sum (?f g) ?S = ?f g r + sum (?f g) (?S - {r})"
    using assms by (intro sum.remove) auto
  ultimately show ?thesis by simp
qed

lemma finite_ents:
  assumes "levels_ok T n m"
  shows "finite {r. ents m r \<noteq> []}"
proof (rule finite_subset)
  show "{r. ents m r \<noteq> []} \<subseteq> (\<lambda>(k, s). BRef k s) ` ({..<length (m_levels m)} \<times> {..<nat n})"
  proof
    fix r assume "r \<in> {r. ents m r \<noteq> []}"
    then have "valid_ref m r" by (simp add: ents_def split: if_splits)
    then show "r \<in> (\<lambda>(k, s). BRef k s) ` ({..<length (m_levels m)} \<times> {..<nat n})"
      using levels_ok_valid [OF assms] by (cases r) auto
  qed
qed simp

section \<open>One turn of the tick loop\<close>

text \<open>The flushed entries: those whose tick is the clock's fire, the others move down.\<close>

lemma go_fold_insert:
  assumes "wheel_ok F tw" and "distinct es" and "F = set es"
    and "tk (tw_tickMs tw) (tw_size tw) k dvd tw_clock tw"
    and "\<And>e. e \<in> set es \<Longrightarrow> tw_exp tw e < tw_clock tw + tk (tw_tickMs tw) (tw_size tw) k"
  shows "\<exists>tw'. go_fold TimingWheel_insert es tw = Inr tw' \<and> wheel_ok {} tw' \<and> same_wheel tw tw' \<and>
    tw_clock tw' = tw_clock tw \<and>
    tw_fired tw' = tw_fired tw @ [e \<leftarrow> es. \<not> tw_canc tw e \<and> tw_exp tw e < tw_clock tw + tw_tickMs tw] \<and>
    tw_pending tw' = tw_pending tw \<union>
      {e \<in> set es. \<not> tw_canc tw e \<and> tw_clock tw + tw_tickMs tw \<le> tw_exp tw e} \<and>
    weight (ents (tw_mem tw')) \<le> weight (ents (tw_mem tw)) + k * length es"
  using assms
proof (induction es arbitrary: F tw)
  case Nil
  then show ?case by auto
next
  case (Cons e es)
  have eF: "e \<in> F" using Cons.prems(3) by simp
  from insert_ok [OF Cons.prems(1) eF] obtain tw1 where t1: "TimingWheel_insert e tw = Inr tw1"
    "wheel_ok (F - {e}) tw1" "inserted e tw tw1" .
  have F: "F - {e} = set es" using Cons.prems(2,3) by auto
  have sw: "same_wheel tw tw1" "tw_clock tw1 = tw_clock tw" using t1(3) by (simp_all add: inserted_def)
  have fin: "finite {r. ents (tw_mem tw) r \<noteq> []}"
    using wheel_okD(2) [OF Cons.prems(1)] by (rule finite_ents)
  have w: "weight (ents (tw_mem tw1)) \<le> weight (ents (tw_mem tw)) + k"
  proof (cases "\<not> tw_canc tw e \<and> tw_clock tw + tw_tickMs tw \<le> tw_exp tw e")
    case True
    then obtain j where k: "k = Suc j" using Cons.prems(5) [of e] by (cases k) auto
    have "floor_to (tk (tw_tickMs tw) (tw_size tw) j) (tw_clock tw) = tw_clock tw"
      using Cons.prems(4) k tk_dvd [of j k] by (meson dvd_trans floor_to_id le_SucI order_refl)
    then obtain r where r: "ents (tw_mem tw1) = (ents (tw_mem tw))(r := ents (tw_mem tw) r @ [e])"
      "br_level r \<le> j"
      using True t1(3) Cons.prems(5) [of e] k by (auto simp: inserted_def)
    have "weight (ents (tw_mem tw1)) = weight (ents (tw_mem tw)) + Suc (br_level r)"
      using weight_upd [OF fin, of r "ents (tw_mem tw) r @ [e]"] r(1) by simp
    then show ?thesis using r(2) k by simp
  next
    case False
    then show ?thesis using t1(3) by (auto simp: inserted_def split: if_splits)
  qed
  have p: "tw_pending tw1 = tw_pending tw \<union>
      (if \<not> tw_canc tw e \<and> tw_clock tw + tw_tickMs tw \<le> tw_exp tw e then {e} else {})"
    using t1(3) pending_put by (fastforce simp: inserted_def pending_def split: if_splits)
  have f: "tw_fired tw1 = tw_fired tw @
      (if \<not> tw_canc tw e \<and> tw_exp tw e < tw_clock tw + tw_tickMs tw then [e] else [])"
    using t1(3) by (auto simp: inserted_def split: if_splits)
  have "\<exists>tw'. go_fold TimingWheel_insert es tw1 = Inr tw' \<and> wheel_ok {} tw' \<and> same_wheel tw1 tw' \<and>
    tw_clock tw' = tw_clock tw1 \<and>
    tw_fired tw' = tw_fired tw1 @ [e \<leftarrow> es. \<not> tw_canc tw1 e \<and> tw_exp tw1 e < tw_clock tw1 + tw_tickMs tw1] \<and>
    tw_pending tw' = tw_pending tw1 \<union>
      {e \<in> set es. \<not> tw_canc tw1 e \<and> tw_clock tw1 + tw_tickMs tw1 \<le> tw_exp tw1 e} \<and>
    weight (ents (tw_mem tw')) \<le> weight (ents (tw_mem tw1)) + k * length es"
    using Cons.prems sw by (intro Cons.IH [OF t1(2)]) (simp_all add: F same_wheel_def)
  then show ?case
    using t1(1) sw w p f by (auto simp: same_wheel_def)
qed

text \<open>\<open>flush\<close> changes only the back-pointers of the entries it hands out.\<close>

lemma fold_clear_store:
  "length (fold clear_bucket_ptr es st) = length st"
  "e_expirationMs (fold clear_bucket_ptr es st ! i) = e_expirationMs (st ! i)"
  "e_cancelled (fold clear_bucket_ptr es st ! i) = e_cancelled (st ! i)"
  "e_taskID (fold clear_bucket_ptr es st ! i) = e_taskID (st ! i)"
  by (induction es arbitrary: st) (simp_all add: clear_bucket_ptr_def nth_update_field)

lemma pending_clear:
  assumes "mem_ok T n ex m" and "ents m' = (ents m)(r := [])"
  shows "pending m' = pending m - set (ents m r)"
proof -
  have "r' = r" if "x \<in> set (ents m r)" "x \<in> set (ents m r')" for x r'
    using mem_okD(10) [OF assms(1), of r r'] that by auto
  then show ?thesis using assms(2) by (auto simp: pending_def split: if_splits)
qed

text \<open>
  A due bucket \<open>r\<close> with expiration \<open>E\<close>: exactly its live entries of the tick \<open>E\<close> fire, the
  others move down, the clock is at \<open>E\<close> and the pending weight decreases.
\<close>

lemma tick_bucket_ok:
  assumes ok: "wheel_ok {} tw" and p: "delayQueue_poll now (tw_mem tw) = (Some r, wt, m')"
    and now: "now < 2 ^ 62"
  defines "E \<equiv> exp_of (tw_mem tw) r" and "es \<equiv> ents (tw_mem tw) r"
  shows "\<exists>tw'. tick_bucket r (tw\<lparr>tw_mem := m'\<rparr>) = Inr tw' \<and> wheel_ok {} tw' \<and> same_wheel tw tw' \<and>
    tw_clock tw' = E \<and>
    tw_fired tw' = tw_fired tw @ [e \<leftarrow> es. \<not> tw_canc tw e \<and> tw_exp tw e < E + tw_tickMs tw] \<and>
    tw_pending tw' = (tw_pending tw - set es) \<union>
      {e \<in> set es. \<not> tw_canc tw e \<and> E + tw_tickMs tw \<le> tw_exp tw e} \<and>
    weight (ents (tw_mem tw')) < weight (ents (tw_mem tw))"
proof -
  let ?T = "tw_tickMs tw" and ?n = "tw_size tw" and ?m = "tw_mem tw"
  note W = wheel_okD [OF ok]
  note D = mem_okD [OF W(1)]
  note take = mem_ok_take [OF W(1) p now, folded E_def es_def]
  let ?m2 = "clear r (adv E m')"
  let ?tw2 = "tw\<lparr>tw_mem := ?m2, tw_store := fold clear_bucket_ptr es (tw_store tw)\<rparr>"
  have E0: "0 \<le> E" using take(4) W(2) by (simp add: levels_ok_def)
  have step: "tick_bucket r (tw\<lparr>tw_mem := m'\<rparr>) = go_fold TimingWheel_insert es ?tw2"
    using take(8,9,10) E0 by (simp add: tick_bucket_def Let_def wheelBucket_flush_def adv_def clear_def)
  have sw: "same_wheel tw ?tw2"
    by (simp add: same_wheel_def tw_exp_def tw_canc_def tw_tid_def fold_clear_store fun_eq_iff)
  have pn: "pending ?m2 = pending ?m - set es"
    using pending_clear [OF W(1) take(2)] by (simp add: es_def)
  have sub: "set es \<subseteq> pending ?m" using ents_pending by (auto simp: es_def)
  have ok2: "wheel_ok (set es) ?tw2"
    using ok take(1) sw pn sub unfolding wheel_ok_def same_wheel_def index_ok_def
    by (auto simp: fold_clear_store)
  have "tk ?T ?n (br_level r) dvd E" using take(6) by (simp add: slot_ok_def Let_def)
  moreover have "tw_exp tw e < E + tk ?T ?n (br_level r)" if "e \<in> set es" for e
    using D(8) [of e r] that by (simp add: es_def E_def)
  moreover have "distinct es" using D(9) by (simp add: es_def)
  ultimately obtain tw' where tw': "go_fold TimingWheel_insert es ?tw2 = Inr tw'" "wheel_ok {} tw'"
      "same_wheel ?tw2 tw'" "tw_clock tw' = E"
      "tw_fired tw' = tw_fired tw @ [e \<leftarrow> es. \<not> tw_canc tw e \<and> tw_exp tw e < E + ?T]"
      "tw_pending tw' = pending ?m2 \<union> {e \<in> set es. \<not> tw_canc tw e \<and> E + ?T \<le> tw_exp tw e}"
      "weight (ents (tw_mem tw')) \<le> weight (ents ?m2) + br_level r * length es"
    using go_fold_insert [OF ok2 _ refl, of "br_level r"] take(3) sw
    by (auto simp: same_wheel_def)
  have "weight (ents ?m2) + Suc (br_level r) * length es = weight (ents ?m)"
    using weight_upd [OF finite_ents [OF W(2)], of r "[]"] take(2) by (simp add: es_def)
  with tw'(7) take(11) have "weight (ents (tw_mem tw')) < weight (ents ?m)"
    by (cases es) (auto simp: es_def)
  then show ?thesis
    using step tw' pn same_wheel_trans [OF sw tw'(3)] by (intro exI [of _ tw']) simp
qed

section \<open>The tick loop\<close>

text \<open>
  What one run of the tick loop at time \<open>now\<close> does to a well-formed wheel, in one predicate:
  \<open>fs\<close> are the entries it dispatches, in order.
\<close>

definition drained :: "int \<Rightarrow> 'cb TimingWheel \<Rightarrow> entry_ref list \<Rightarrow> 'cb TimingWheel \<Rightarrow> bool" where
  "drained now tw fs tw' \<longleftrightarrow> wheel_ok {} tw' \<and> same_wheel tw tw' \<and>
     tw_clock tw \<le> tw_clock tw' \<and> tw_clock tw' \<le> now \<and>
     tw_fired tw' = tw_fired tw @ fs \<and>
     set fs = {e \<in> tw_pending tw. \<not> tw_canc tw e \<and> floor_to (tw_tickMs tw) (tw_exp tw e) \<le> now} \<and>
     sorted (map (\<lambda>e. floor_to (tw_tickMs tw) (tw_exp tw e)) fs) \<and>
     (\<forall>e \<in> set fs. tw_clock tw \<le> floor_to (tw_tickMs tw) (tw_exp tw e)) \<and>
     {e \<in> tw_pending tw'. \<not> tw_canc tw e} =
       {e \<in> tw_pending tw. \<not> tw_canc tw e \<and> now < floor_to (tw_tickMs tw) (tw_exp tw e)} \<and>
     (\<forall>r. exp_of (tw_mem tw') r \<noteq> -1 \<longrightarrow> now < exp_of (tw_mem tw') r)"

lemma drained_stop:
  assumes ok: "wheel_ok {} tw" and p: "fst (delayQueue_poll now (tw_mem tw)) = None"
    and c: "tw_clock tw \<le> now"
  shows "drained now tw [] tw"
proof -
  note W = wheel_okD [OF ok]
  note D = mem_okD [OF W(1)]
  have live: "now < exp_of (tw_mem tw) r" if "exp_of (tw_mem tw) r \<noteq> -1" for r
    using poll_none_iff [OF D(2,3)] p D(4) that by simp
  have later: "now < floor_to (tw_tickMs tw) (tw_exp tw e)" if e: "e \<in> tw_pending tw" for e
  proof -
    obtain r where r: "e \<in> set (ents (tw_mem tw) r)" using e by (auto simp: pending_def)
    then have x: "exp_of (tw_mem tw) r \<noteq> -1" using D(5) [of r] by auto
    have "exp_of (tw_mem tw) r \<le> floor_to (tw_tickMs tw) (tw_exp tw e)"
      using slot_ok_tick [OF D(6) [OF x]] D(7) [OF r] W(3) by (intro floor_to_greatest)
    with live [OF x] show ?thesis by simp
  qed
  then show ?thesis using ok c live by (fastforce simp: drained_def)
qed

lemma drained_step:
  assumes ok: "wheel_ok {} tw" and p: "delayQueue_poll now (tw_mem tw) = (Some r, wt, m')"
    and now: "now < 2 ^ 62"
    and E: "E = exp_of (tw_mem tw) r" and es: "es = ents (tw_mem tw) r"
    and fs1: "fs1 = [e \<leftarrow> es. \<not> tw_canc tw e \<and> tw_exp tw e < E + tw_tickMs tw]"
    and t1: "same_wheel tw tw1" "tw_clock tw1 = E" "tw_fired tw1 = tw_fired tw @ fs1"
      "tw_pending tw1 = (tw_pending tw - set es) \<union>
         {e \<in> set es. \<not> tw_canc tw e \<and> E + tw_tickMs tw \<le> tw_exp tw e}"
    and t2: "drained now tw1 fs2 tw2"
  shows "drained now tw (fs1 @ fs2) tw2"
proof -
  let ?T = "tw_tickMs tw"
  let ?fl = "\<lambda>e. floor_to ?T (tw_exp tw e)"
  note W = wheel_okD [OF ok]
  note D = mem_okD [OF W(1)]
  note take = mem_ok_take [OF W(1) p now, folded E es]
  have sub: "set es \<subseteq> tw_pending tw" using ents_pending by (auto simp: es)
  have dv: "?T dvd E" using slot_ok_tick [OF take(6)] .
  have ge: "E \<le> tw_exp tw e" if "e \<in> set es" for e using D(7) [of e r] that by (simp add: E es)
  have flE: "?fl e = E" if "e \<in> set fs1" for e
    using that ge dv W(3) by (intro floor_to_unique) (auto simp: fs1)
  have flk: "e \<in> set es \<Longrightarrow> ?fl e \<le> now \<or> E + ?T \<le> tw_exp tw e" for e
    using ge [of e] dv W(3) take(5) floor_to_unique [of ?T E "tw_exp tw e"] by force
  have sw: "tw_tickMs tw1 = ?T" "tw_exp tw1 = tw_exp tw" "tw_canc tw1 = tw_canc tw"
    using t1(1) by (simp_all add: same_wheel_def)
  note d = t2 [unfolded drained_def sw]
  have s2: "set fs2 = {e \<in> tw_pending tw1. \<not> tw_canc tw e \<and> ?fl e \<le> now}" using d by blast
  have "set (fs1 @ fs2) = {e \<in> tw_pending tw. \<not> tw_canc tw e \<and> ?fl e \<le> now}"
    using s2 t1(4) sub flE take(5) by (auto simp: fs1)
  moreover have "map ?fl fs1 = map (\<lambda>_. E) fs1" using flE by simp
  then have "sorted (map ?fl (fs1 @ fs2))"
    using d flE t1(2) by (simp add: sorted_append map_replicate_const)
  moreover have "{e \<in> tw_pending tw2. \<not> tw_canc tw e} = {e \<in> tw_pending tw. \<not> tw_canc tw e \<and> now < ?fl e}"
  proof -
    have "{e \<in> tw_pending tw2. \<not> tw_canc tw e} = {e \<in> tw_pending tw1. \<not> tw_canc tw e \<and> now < ?fl e}"
      using d by blast
    also have "\<dots> = {e \<in> tw_pending tw. \<not> tw_canc tw e \<and> now < ?fl e}"
      using t1(4) sub flk by force
    finally show ?thesis .
  qed
  moreover have "\<forall>e \<in> set (fs1 @ fs2). tw_clock tw \<le> ?fl e"
    using d flE t1(2) take(4) by fastforce
  ultimately show ?thesis
    using d t1 take(4) same_wheel_trans [OF t1(1)] unfolding drained_def by force
qed

theorem tickLoop_drains:
  assumes "wheel_ok {} tw" and "tw_clock tw \<le> now" and "now < 2 ^ 62"
    and "weight (ents (tw_mem tw)) < fuel"
  shows "\<exists>tw' fs. tickLoop fuel now tw = Inr tw' \<and> drained now tw fs tw'"
  using assms
proof (induction fuel arbitrary: tw)
  case (Suc fuel)
  obtain g wt m' where p: "delayQueue_poll now (tw_mem tw) = (g, wt, m')" by (cases "delayQueue_poll now (tw_mem tw)")
  show ?case
  proof (cases g)
    case None
    then have "drained now tw [] tw" "m' = tw_mem tw"
      using drained_stop [OF Suc.prems(1) _ Suc.prems(2)] poll_none_mem [of now "tw_mem tw"] p by simp_all
    then show ?thesis using p None by (intro exI [of _ tw] exI [of _ "[]"]) simp
  next
    case (Some r)
    note p' = p [unfolded Some]
    from tick_bucket_ok [OF Suc.prems(1) p' Suc.prems(3)] obtain tw1 where t1:
      "tick_bucket r (tw\<lparr>tw_mem := m'\<rparr>) = Inr tw1" "wheel_ok {} tw1" "same_wheel tw tw1"
      "tw_clock tw1 = exp_of (tw_mem tw) r"
      "tw_fired tw1 = tw_fired tw @ [e \<leftarrow> ents (tw_mem tw) r. \<not> tw_canc tw e \<and>
         tw_exp tw e < exp_of (tw_mem tw) r + tw_tickMs tw]"
      "tw_pending tw1 = (tw_pending tw - set (ents (tw_mem tw) r)) \<union> {e \<in> set (ents (tw_mem tw) r).
         \<not> tw_canc tw e \<and> exp_of (tw_mem tw) r + tw_tickMs tw \<le> tw_exp tw e}"
      "weight (ents (tw_mem tw1)) < weight (ents (tw_mem tw))" by blast
    have "tw_clock tw1 \<le> now"
      using mem_ok_take(5) [OF wheel_okD(1) [OF Suc.prems(1)] p' Suc.prems(3)] t1(4) by simp
    then obtain tw2 fs2 where t2: "tickLoop fuel now tw1 = Inr tw2" "drained now tw1 fs2 tw2"
      using Suc.IH [OF t1(2)] Suc.prems(3,4) t1(7) by force
    have "drained now tw ([e \<leftarrow> ents (tw_mem tw) r. \<not> tw_canc tw e \<and>
         tw_exp tw e < exp_of (tw_mem tw) r + tw_tickMs tw] @ fs2) tw2"
      by (rule drained_step [OF Suc.prems(1) p' Suc.prems(3) refl refl refl t1(3-6) t2(2)])
    then show ?thesis using p' t1(1) t2(1) by auto
  qed
qed simp

end
