(* ===== verification/Wheel_Run.thy ===== *)
theory Wheel_Run
  imports Wheel_Correct
begin

text \<open>
  The wheel as a state machine. A state is the wall-clock time and the wheel; the steps are
  the public operations, one turn of the tick loop and the passing of time, in any order.
  Every state reached from \<open>NewTimingWheel\<close> satisfies the invariant of \<open>Wheel_Correct\<close>.

  The bounds: wall-clock times stay below \<open>2 ^ 62\<close> ms, and an entry's fire time \<open>x\<close> satisfies
  \<open>x * size \<le> 2 ^ 62\<close>, so that no sum of a clock and a level's span leaves 64 bits.
\<close>

section \<open>Construction\<close>

lemma newTimingLevel_base:
  assumes "0 < T" and "2 \<le> n" and "T * n \<le> 2 ^ 62" and "0 \<le> now" and "now < 2 ^ 62"
  shows "newTimingLevel T n now = Inr \<lparr>w_tickMs = T, w_wheelSize = n, w_interval = T * n,
    w_currentTime = floor_to T now, w_buckets = replicate (nat n) newWheelBucket\<rparr>"
proof -
  have "0 \<le> T * n" using assms by simp
  then have "in_int64 (T * n)" using assms(3) unfolding in_int64_def by (intro conjI) simp_all
  then have "mul64 T n = T * n" by (rule mul64_exact)
  then show ?thesis using assms by (simp add: newTimingLevel_def sub64_floor)
qed

lemma wheel_ok_new:
  assumes new: "NewTimingWheel tick wsize now = Inr tw"
    and b: "max 1 (tick sdiv 1000000) * max 2 wsize \<le> 2 ^ 62" and now: "0 \<le> now" "now < 2 ^ 62"
  shows "wheel_ok {} tw" and "tw_clock tw \<le> now" and "tw_fired tw = []" and "tw_store tw = []"
    and "tw_tickMs tw = max 1 (tick sdiv 1000000)" and "tw_size tw = max 2 wsize"
proof -
  let ?T = "max 1 (tick sdiv 1000000)" and ?n = "max 2 wsize"
  have T: "(if tick < 1000000 then 1000000 else tick) sdiv 1000000 = ?T"
  proof (cases "tick < 1000000")
    case True
    then have "tick sdiv 1000000 \<le> 0"
      by (cases "0 \<le> tick") (simp_all add: sdiv_nonneg, simp add: signed_divide_int_def pos_imp_zdiv_nonneg_iff)
    then show ?thesis using True by (simp add: max_def)
  next
    case False
    then show ?thesis by (simp add: sdiv_nonneg max_def)
  qed
  have n: "(if wsize < 2 then 2 else wsize) = ?n" by auto
  note base = newTimingLevel_base [of ?T ?n now]
  let ?w = "\<lparr>w_tickMs = ?T, w_wheelSize = ?n, w_interval = ?T * ?n,
    w_currentTime = floor_to ?T now, w_buckets = replicate (nat ?n) newWheelBucket\<rparr>"
  have tw: "tw = \<lparr>tw_mem = \<lparr>m_levels = [?w], m_h = [], m_wake = False\<rparr>, tw_tickMs = ?T, tw_size = ?n,
      tw_started = False, tw_stopped = False, tw_entries = Map.empty, tw_store = [], tw_fired = []\<rparr>"
    using new base b now unfolding NewTimingWheel_def Let_def T n by simp
  have c: "tw_clock tw = floor_to ?T now" by (simp add: tw clock_def)
  have fl: "0 \<le> floor_to ?T now" "floor_to ?T now \<le> now"
    using now floor_to_greatest [of ?T 0 now] floor_to_le [of ?T now] by simp_all
  have e: "ents (tw_mem tw) r = []" "exp_of (tw_mem tw) r = -1" for r
    by (auto simp: tw ents_def exp_of_def valid_ref_def get_bucket_def newWheelBucket_def)
  have "levels_ok ?T ?n (tw_mem tw)"
    using b fl now c by (auto simp: levels_ok_def level_ok_def tw tk_def floor_to_id clock_def)
  moreover have "heap_idx_inv (tw_mem tw)" "bq.ordered (tw_mem tw)"
    by (auto simp: tw heap_idx_inv_def valid_ref_def get_bucket_def newWheelBucket_def bq.ordered_def is_heap_def)
  ultimately have "mem_ok ?T ?n (tw_exp tw) (tw_mem tw)"
    using e by (simp add: mem_ok_def) (simp add: tw)
  moreover have "tw_pending tw = {}" using e by (simp add: pending_def)
  ultimately show "wheel_ok {} tw"
    by (simp add: wheel_ok_def index_ok_def) (simp add: tw)
  show "tw_clock tw \<le> now" using c fl by simp
  show "tw_fired tw = []" "tw_store tw = []" "tw_tickMs tw = ?T" "tw_size tw = ?n" by (simp_all add: tw)
qed


section \<open>Schedule and Cancel\<close>

lemma mem_ok_cong:
  assumes "mem_ok T n ex m" and "\<And>e. e \<in> pending m \<Longrightarrow> ex' e = ex e"
  shows "mem_ok T n ex' m"
proof (rule mem_okI)
  fix r e assume e: "e \<in> set (ents m r)"
  then have "ex' e = ex e" using assms(2) by (auto simp: pending_def)
  then show "exp_of m r \<le> ex' e \<and> ex' e < exp_of m r + tk T n (br_level r)"
    using mem_okD(7,8) [OF assms(1) e] by simp
qed (use mem_okD [OF assms(1)] in \<open>blast+\<close>)

lemma cancel_entry_simps [simp]:
  "tw_mem (cancel_entry e tw) = tw_mem tw" "tw_tickMs (cancel_entry e tw) = tw_tickMs tw"
  "tw_size (cancel_entry e tw) = tw_size tw" "tw_started (cancel_entry e tw) = tw_started tw"
  "tw_stopped (cancel_entry e tw) = tw_stopped tw" "tw_entries (cancel_entry e tw) = tw_entries tw"
  "tw_fired (cancel_entry e tw) = tw_fired tw" "length (tw_store (cancel_entry e tw)) = length (tw_store tw)"
  "tw_exp (cancel_entry e tw) = tw_exp tw" "tw_tid (cancel_entry e tw) = tw_tid tw"
  "e < length (tw_store tw) \<Longrightarrow> tw_canc (cancel_entry e tw) x \<longleftrightarrow> x = e \<or> tw_canc tw x"
  by (auto simp: cancel_entry_def tw_exp_def tw_tid_def tw_canc_def fun_eq_iff nth_list_update nth_update_field)

text \<open>The state \<open>Schedule\<close> hands to \<open>insert\<close>: the new entry is in flight, the entry it replaces is cancelled.\<close>

lemma schedule_index_fields:
  fixes tw tid at cb
  defines "e \<equiv> length (tw_store tw)" and "tw1 \<equiv> schedule_index tid at cb tw"
  assumes ok: "wheel_ok {} tw"
  shows "tw_mem tw1 = tw_mem tw" "tw_tickMs tw1 = tw_tickMs tw" "tw_size tw1 = tw_size tw"
    "tw_fired tw1 = tw_fired tw" "length (tw_store tw1) = Suc e"
    "tw_started tw1 = tw_started tw" "tw_stopped tw1 = tw_stopped tw"
    "tw_exp tw1 e = at" "tw_tid tw1 e = tid" "\<not> tw_canc tw1 e"
    "x < e \<Longrightarrow> tw_exp tw1 x = tw_exp tw x" "x < e \<Longrightarrow> tw_tid tw1 x = tw_tid tw x"
    "x < e \<Longrightarrow> tw_canc tw1 x \<longleftrightarrow> tw_canc tw x \<or> tid \<noteq> '''' \<and> tw_entries tw tid = Some x"
    "tw_entries tw1 = (if tid = '''' then tw_entries tw else (tw_entries tw)(tid \<mapsto> e))"
proof -
  have old: "y < e" if "tw_entries tw i = Some y" for i y
    using ok that by (auto simp: wheel_ok_def index_ok_def e_def)
  show "tw_mem tw1 = tw_mem tw" "tw_tickMs tw1 = tw_tickMs tw" "tw_size tw1 = tw_size tw"
    "tw_fired tw1 = tw_fired tw" "length (tw_store tw1) = Suc e"
    "tw_started tw1 = tw_started tw" "tw_stopped tw1 = tw_stopped tw"
    "tw_entries tw1 = (if tid = '''' then tw_entries tw else (tw_entries tw)(tid \<mapsto> e))"
    by (auto simp: tw1_def e_def schedule_index_def Let_def cancel_entry_def split: option.splits)
  show "tw_exp tw1 e = at" "tw_tid tw1 e = tid" "\<not> tw_canc tw1 e"
    using old [of tid] by (auto simp: tw1_def schedule_index_def Let_def cancel_entry_def e_def
      tw_exp_def tw_tid_def tw_canc_def new_entry_def nth_list_update nth_append split: option.splits)
  show "x < e \<Longrightarrow> tw_exp tw1 x = tw_exp tw x" "x < e \<Longrightarrow> tw_tid tw1 x = tw_tid tw x"
    "x < e \<Longrightarrow> tw_canc tw1 x \<longleftrightarrow> tw_canc tw x \<or> tid \<noteq> '''' \<and> tw_entries tw tid = Some x"
    using old [of tid] by (auto simp: tw1_def schedule_index_def Let_def cancel_entry_def e_def
      tw_exp_def tw_tid_def tw_canc_def new_entry_def nth_list_update nth_append split: option.splits)
qed

lemma schedule_index_ok:
  assumes ok: "wheel_ok {} tw" and b: "at * tw_size tw \<le> 2 ^ 62"
  shows "wheel_ok {length (tw_store tw)} (schedule_index tid at cb tw)"
proof -
  let ?e = "length (tw_store tw)" and ?tw = "schedule_index tid at cb tw"
  note F = schedule_index_fields [OF ok, where tid = tid and at = at and cb = cb]
  have lt: "x \<in> tw_pending tw \<Longrightarrow> x < ?e" for x using ok by (auto simp: wheel_ok_def)
  have m: "mem_ok (tw_tickMs ?tw) (tw_size ?tw) (tw_exp ?tw) (tw_mem ?tw)"
    using ok F lt by (auto simp: wheel_ok_def intro: mem_ok_cong)
  have i: "index_ok (tw_pending tw) tw" using ok by (simp add: wheel_ok_def)
  have "index_ok (tw_pending ?tw \<union> {?e}) ?tw"
    unfolding index_ok_def
  proof (intro allI)
    fix t x
    show "tw_entries ?tw t = Some x \<longleftrightarrow> t \<noteq> '''' \<and> x \<in> tw_pending ?tw \<union> {?e} \<and> \<not> tw_canc ?tw x \<and> tw_tid ?tw x = t"
    proof (cases "x \<in> tw_pending tw")
      case True
      then show ?thesis using i lt [OF True] F(12,13) [of x] by (auto simp: F(1,14) index_ok_def)
    next
      case False
      then show ?thesis using i F(9,10) by (auto simp: F(1,14) index_ok_def)
    qed
  qed
  then show ?thesis
    using ok b m F(1-5,8,11) lt unfolding wheel_ok_def by fastforce
qed

text \<open>What a successful \<open>Schedule\<close> does: at most the indexed entry of the same ID is cancelled.\<close>

definition scheduled :: "string \<Rightarrow> int \<Rightarrow> 'cb TimingWheel \<Rightarrow> 'cb TimingWheel \<Rightarrow> bool" where
  "scheduled tid at tw tw' \<longleftrightarrow>
     (let e = length (tw_store tw)
      in wheel_ok {} tw' \<and> length (tw_store tw') = Suc e \<and> tw_clock tw' = tw_clock tw \<and>
         tw_tickMs tw' = tw_tickMs tw \<and> tw_size tw' = tw_size tw \<and>
         tw_started tw' = tw_started tw \<and> tw_stopped tw' = tw_stopped tw \<and>
         tw_exp tw' e = at \<and> tw_tid tw' e = tid \<and> \<not> tw_canc tw' e \<and>
         (\<forall>x < e. tw_exp tw' x = tw_exp tw x \<and> tw_tid tw' x = tw_tid tw x \<and>
            (tw_canc tw' x \<longleftrightarrow> tw_canc tw x \<or> tid \<noteq> '''' \<and> tw_entries tw tid = Some x)) \<and>
         (if at < tw_clock tw + tw_tickMs tw
          then tw_fired tw' = tw_fired tw @ [e] \<and> tw_pending tw' = tw_pending tw
          else tw_fired tw' = tw_fired tw \<and> tw_pending tw' = insert e (tw_pending tw)))"

lemma Schedule_ok:
  assumes ok: "wheel_ok {} tw" and b: "at * tw_size tw \<le> 2 ^ 62"
    and st: "tw_started tw" "\<not> tw_stopped tw"
  shows "\<exists>tw'. TimingWheel_Schedule tid at (Some cb) tw = Inr (None, tw') \<and> scheduled tid at tw tw'"
proof -
  let ?e = "length (tw_store tw)" and ?tw = "schedule_index tid at cb tw"
  note F = schedule_index_fields [OF ok, where tid = tid and at = at and cb = cb]
  from insert_ok [OF schedule_index_ok [OF ok b, of tid cb], of ?e] obtain tw' where
    t: "TimingWheel_insert ?e ?tw = Inr tw'" "wheel_ok {} tw'" "inserted ?e ?tw tw'" by auto
  have sw: "same_wheel ?tw tw'" using t(3) by (simp add: inserted_def)
  have eff: "if at < tw_clock tw + tw_tickMs tw
      then tw_fired tw' = tw_fired tw @ [?e] \<and> tw_pending tw' = tw_pending tw
      else tw_fired tw' = tw_fired tw \<and> tw_pending tw' = insert ?e (tw_pending tw)"
  proof (cases "at < tw_clock tw + tw_tickMs tw")
    case True
    then show ?thesis using t(3) by (simp add: inserted_def F(1,2,4,8,10) pending_def)
  next
    case False
    then show ?thesis using t(3) pending_put [of "tw_mem tw'" "tw_mem tw" _ ?e]
      by (auto simp: inserted_def F(1,2,4,8,10))
  qed
  have "scheduled tid at tw tw'"
    using t(2,3) sw F eff unfolding scheduled_def Let_def same_wheel_def inserted_def by auto
  then show ?thesis using st t(1) by (simp add: TimingWheel_Schedule_def)
qed

lemma Cancel_ok:
  assumes ok: "wheel_ok {} tw"
  shows "wheel_ok {} (TimingWheel_Cancel tid tw)"
proof (cases "tid = '''' \<or> tw_entries tw tid = None")
  case True
  then show ?thesis using ok by (auto simp: TimingWheel_Cancel_def)
next
  case False
  then obtain e where e: "tid \<noteq> ''''" "tw_entries tw tid = Some e" by auto
  let ?tw = "TimingWheel_Cancel tid tw"
  have t: "?tw = cancel_entry e (tw\<lparr>tw_entries := (tw_entries tw)(tid := None)\<rparr>)"
    using e by (simp add: TimingWheel_Cancel_def)
  have i: "index_ok (tw_pending tw) tw" using ok by (simp add: wheel_ok_def)
  then have p: "e \<in> tw_pending tw" "\<not> tw_canc tw e" "tw_tid tw e = tid" "e < length (tw_store tw)"
    using e ok by (auto simp: index_ok_def wheel_ok_def)
  have c: "tw_canc ?tw x \<longleftrightarrow> x = e \<or> tw_canc tw x" for x
    using p(4) by (simp add: t) (simp add: tw_canc_def)
  have f: "tw_exp ?tw = tw_exp tw" "tw_tid ?tw = tw_tid tw"
    by (simp_all add: t) (simp_all add: tw_exp_def tw_tid_def fun_eq_iff)
  have "index_ok (tw_pending tw - {e}) ?tw"
  proof (rule index_ok_remove [OF i p(1,2)])
    show "tw_entries ?tw t' = (if tw_entries tw t' = Some e then None else tw_entries tw t')" for t'
      using i p e by (auto simp: t index_ok_def)
  qed (simp_all add: c f)
  then have "index_ok (tw_pending tw) ?tw" using c i by (auto simp: index_ok_def)
  then show ?thesis using ok by (simp add: wheel_ok_def f) (simp add: t)
qed


section \<open>The wheel as a state machine\<close>

text \<open>
  The arguments of \<open>wheel_step\<close> are the current time and the wheel. Time passes; callers start,
  stop, schedule and cancel; a started wheel runs its tick loop, also after \<open>Stop\<close> (the loop
  handles the due buckets before it looks at the stop channel).
\<close>

inductive wheel_step :: "int \<times> 'cb TimingWheel \<Rightarrow> int \<times> 'cb TimingWheel \<Rightarrow> bool" where
  time: "now \<le> now' \<Longrightarrow> now' < 2 ^ 62 \<Longrightarrow> wheel_step (now, tw) (now', tw)"
| start: "wheel_step (now, tw) (now, TimingWheel_Start tw)"
| stop: "wheel_step (now, tw) (now, TimingWheel_Stop tw)"
| schedule: "at * tw_size tw \<le> 2 ^ 62 \<Longrightarrow> TimingWheel_Schedule tid at cb tw = Inr (er, tw') \<Longrightarrow>
    wheel_step (now, tw) (now, tw')"
| cancel: "wheel_step (now, tw) (now, TimingWheel_Cancel tid tw)"
| tick: "tw_started tw \<Longrightarrow> tickLoop fuel now tw = Inr tw' \<Longrightarrow> wheel_step (now, tw) (now, tw')"

inductive_cases wheel_stepE: "wheel_step (now, tw) (now', tw')"

inductive wheel_reach :: "int \<times> 'cb TimingWheel \<Rightarrow> bool" where
  new: "max 1 (tick sdiv 1000000) * max 2 wsize \<le> 2 ^ 62 \<Longrightarrow> 0 \<le> now \<Longrightarrow> now < 2 ^ 62 \<Longrightarrow>
    NewTimingWheel tick wsize now = Inr tw \<Longrightarrow> wheel_reach (now, tw)"
| step: "wheel_reach s \<Longrightarrow> wheel_step s s' \<Longrightarrow> wheel_reach s'"

definition run_ok :: "int \<times> 'cb TimingWheel \<Rightarrow> bool" where
  "run_ok s = (case s of (now, tw) \<Rightarrow> wheel_ok {} tw \<and> tw_clock tw \<le> now \<and> now < 2 ^ 62 \<and>
     (\<forall>e \<in> set (tw_fired tw). floor_to (tw_tickMs tw) (tw_exp tw e) \<le> now) \<and>
     (\<forall>e < length (tw_store tw). \<not> tw_canc tw e \<longrightarrow> e \<in> tw_pending tw \<or> e \<in> set (tw_fired tw)))"

text \<open>The fuel of the loop is only a bound: two runs that return agree.\<close>

lemma tickLoop_det:
  assumes "tickLoop f now tw = Inr a" and "tickLoop g now tw = Inr b"
  shows "a = b"
  using assms
proof (induction f arbitrary: g tw)
  case (Suc f)
  then show ?case
    by (cases g) (auto simp: go_bind_def split: prod.splits option.splits sum.splits)
qed simp

lemma tick_drained:
  assumes "wheel_ok {} tw" and "tw_clock tw \<le> now" and "now < 2 ^ 62" and t: "tickLoop fuel now tw = Inr tw'"
  obtains fs where "drained now tw fs tw'"
proof -
  obtain tw2 fs where "tickLoop (Suc (weight (ents (tw_mem tw)))) now tw = Inr tw2" "drained now tw fs tw2"
    using tickLoop_drains [OF assms(1-3)] by blast
  then show ?thesis using tickLoop_det [OF t] that by blast
qed

text \<open>What every step keeps of an entry: its fields, and that a cancelled or fired entry stays so.\<close>

definition step_mono :: "'cb TimingWheel \<Rightarrow> 'cb TimingWheel \<Rightarrow> bool" where
  "step_mono tw tw' \<longleftrightarrow> length (tw_store tw) \<le> length (tw_store tw') \<and>
     tw_tickMs tw' = tw_tickMs tw \<and> tw_size tw' = tw_size tw \<and> tw_clock tw \<le> tw_clock tw' \<and>
     (\<forall>e < length (tw_store tw). tw_exp tw' e = tw_exp tw e \<and> tw_tid tw' e = tw_tid tw e \<and>
        (tw_canc tw e \<longrightarrow> tw_canc tw' e)) \<and>
     (\<exists>fs. tw_fired tw' = tw_fired tw @ fs \<and>
        (\<forall>e \<in> set fs. e < length (tw_store tw) \<longrightarrow> e \<in> tw_pending tw \<and> \<not> tw_canc tw e)) \<and>
     (\<forall>e < length (tw_store tw). e \<in> tw_pending tw' \<and> \<not> tw_canc tw' e \<longrightarrow> e \<in> tw_pending tw)"


lemma step_mono_refl [simp]: "step_mono tw tw"
  by (auto simp: step_mono_def)

lemma step_mono_trans:
  assumes "step_mono a b" and "step_mono b c"
  shows "step_mono a c"
proof -
  obtain fs gs where f: "tw_fired b = tw_fired a @ fs" "tw_fired c = tw_fired b @ gs"
    "\<forall>e \<in> set fs. e < length (tw_store a) \<longrightarrow> e \<in> tw_pending a \<and> \<not> tw_canc a e"
    "\<forall>e \<in> set gs. e < length (tw_store b) \<longrightarrow> e \<in> tw_pending b \<and> \<not> tw_canc b e"
    using assms unfolding step_mono_def by blast
  have l: "length (tw_store a) \<le> length (tw_store b)" using assms(1) by (simp add: step_mono_def)
  have A: "tw_exp b e = tw_exp a e" "tw_tid b e = tw_tid a e" "tw_canc a e \<Longrightarrow> tw_canc b e"
      "e \<in> tw_pending b \<Longrightarrow> \<not> tw_canc b e \<Longrightarrow> e \<in> tw_pending a" if "e < length (tw_store a)" for e
    using assms(1) that by (simp_all add: step_mono_def)
  have B: "tw_exp c e = tw_exp b e" "tw_tid c e = tw_tid b e" "tw_canc b e \<Longrightarrow> tw_canc c e"
      "e \<in> tw_pending c \<Longrightarrow> \<not> tw_canc c e \<Longrightarrow> e \<in> tw_pending b" if "e < length (tw_store a)" for e
    using assms(2) that l by (simp_all add: step_mono_def)
  have "tw_fired c = tw_fired a @ (fs @ gs)" using f by simp
  moreover have "\<forall>e \<in> set (fs @ gs). e < length (tw_store a) \<longrightarrow> e \<in> tw_pending a \<and> \<not> tw_canc a e"
    using f(3,4) l A by (auto dest: less_le_trans)
  ultimately have "\<exists>hs. tw_fired c = tw_fired a @ hs \<and>
      (\<forall>e \<in> set hs. e < length (tw_store a) \<longrightarrow> e \<in> tw_pending a \<and> \<not> tw_canc a e)" by blast
  moreover have "length (tw_store a) \<le> length (tw_store c)" "tw_tickMs c = tw_tickMs a" "tw_size c = tw_size a"
      "tw_clock a \<le> tw_clock c" using assms by (simp_all add: step_mono_def)
  moreover have "\<forall>e < length (tw_store a). tw_exp c e = tw_exp a e \<and> tw_tid c e = tw_tid a e \<and> (tw_canc a e \<longrightarrow> tw_canc c e)"
    using A(1-3) B(1-3) by simp
  moreover have "\<forall>e < length (tw_store a). e \<in> tw_pending c \<and> \<not> tw_canc c e \<longrightarrow> e \<in> tw_pending a"
    using A(4) B(3,4) by blast
  ultimately show ?thesis unfolding step_mono_def by (intro conjI)
qed

lemma drained_mono:
  assumes "drained now tw fs tw'" and "wheel_ok {} tw"
  shows "step_mono tw tw'"
proof -
  have sw: "same_wheel tw tw'" and f: "tw_fired tw' = tw_fired tw @ fs" and c: "tw_clock tw \<le> tw_clock tw'"
    using assms(1) by (simp_all add: drained_def)
  have "\<forall>e \<in> set fs. e \<in> tw_pending tw \<and> \<not> tw_canc tw e"
    using assms(1) unfolding drained_def by blast
  moreover have "e \<in> tw_pending tw" if "e \<in> tw_pending tw'" "\<not> tw_canc tw e" for e
    using assms(1) that unfolding drained_def by blast
  ultimately show ?thesis using sw f c unfolding step_mono_def same_wheel_def by auto
qed

lemma scheduled_mono:
  assumes "scheduled tid at tw tw'" and "wheel_ok {} tw"
  shows "step_mono tw tw'"
proof -
  let ?e = "length (tw_store tw)"
  have "tw_pending tw \<subseteq> {..<?e}" using assms(2) by (simp add: wheel_ok_def)
  have "\<exists>fs. tw_fired tw' = tw_fired tw @ fs \<and> set fs \<subseteq> {?e}"
    using assms(1) by (cases "at < tw_clock tw + tw_tickMs tw") (auto simp: scheduled_def Let_def)
  moreover have "tw_pending tw' \<subseteq> insert ?e (tw_pending tw)"
    using assms(1) by (cases "at < tw_clock tw + tw_tickMs tw") (auto simp: scheduled_def Let_def)
  ultimately show ?thesis
    using assms(1) unfolding scheduled_def step_mono_def Let_def by auto
qed


lemma Cancel_mono:
  assumes ok: "wheel_ok {} tw"
  shows "step_mono tw (TimingWheel_Cancel tid tw)" and "tw_fired (TimingWheel_Cancel tid tw) = tw_fired tw"
    and "tw_exp (TimingWheel_Cancel tid tw) = tw_exp tw"
    and "tw_tickMs (TimingWheel_Cancel tid tw) = tw_tickMs tw"
    and "tw_mem (TimingWheel_Cancel tid tw) = tw_mem tw"
    and "length (tw_store (TimingWheel_Cancel tid tw)) = length (tw_store tw)"
proof -
  have "e < length (tw_store tw)" if "tw_entries tw tid = Some e" for e
    using ok that by (auto simp: wheel_ok_def index_ok_def)
  then show "step_mono tw (TimingWheel_Cancel tid tw)"
    by (auto simp: TimingWheel_Cancel_def step_mono_def split: option.splits)
      (auto simp: tw_exp_def tw_tid_def tw_canc_def)
qed (auto simp: TimingWheel_Cancel_def tw_exp_def cancel_entry_def fun_eq_iff nth_update_field split: option.splits)

lemma Start_Stop_simps [simp]:
  "tw_exp (TimingWheel_Start tw) = tw_exp tw" "tw_exp (TimingWheel_Stop tw) = tw_exp tw"
  "tw_canc (TimingWheel_Start tw) = tw_canc tw" "tw_canc (TimingWheel_Stop tw) = tw_canc tw"
  "tw_tid (TimingWheel_Start tw) = tw_tid tw" "tw_tid (TimingWheel_Stop tw) = tw_tid tw"
  "tw_entries (TimingWheel_Start tw) = tw_entries tw" "tw_entries (TimingWheel_Stop tw) = tw_entries tw"
  "tw_mem (TimingWheel_Start tw) = tw_mem tw" "tw_mem (TimingWheel_Stop tw) = tw_mem tw"
  "tw_fired (TimingWheel_Start tw) = tw_fired tw" "tw_fired (TimingWheel_Stop tw) = tw_fired tw"
  "tw_store (TimingWheel_Start tw) = tw_store tw" "tw_store (TimingWheel_Stop tw) = tw_store tw"
  "tw_tickMs (TimingWheel_Start tw) = tw_tickMs tw" "tw_tickMs (TimingWheel_Stop tw) = tw_tickMs tw"
  "tw_size (TimingWheel_Start tw) = tw_size tw" "tw_size (TimingWheel_Stop tw) = tw_size tw"
  by (auto simp: TimingWheel_Start_def TimingWheel_Stop_def tw_exp_def tw_canc_def tw_tid_def fun_eq_iff)

lemma Start_Stop_ok [simp]:
  "wheel_ok F (TimingWheel_Start tw) = wheel_ok F tw" "wheel_ok F (TimingWheel_Stop tw) = wheel_ok F tw"
  by (simp_all add: wheel_ok_def index_ok_def)

lemma Start_Stop_mono: "step_mono tw (TimingWheel_Start tw)" "step_mono tw (TimingWheel_Stop tw)"
  by (simp_all add: step_mono_def)

lemma Schedule_cases:
  assumes "TimingWheel_Schedule tid at cb tw = Inr (er, tw')" and "wheel_ok {} tw" and "at * tw_size tw \<le> 2 ^ 62"
  shows "tw' = tw \<and> er \<noteq> None \<or> er = None \<and> scheduled tid at tw tw'"
proof (cases "tw_started tw \<and> \<not> tw_stopped tw \<and> cb \<noteq> None")
  case True
  then obtain f where f: "cb = Some f" "tw_started tw" "\<not> tw_stopped tw" by auto
  show ?thesis using Schedule_ok [OF assms(2,3) f(2,3), of tid f] assms(1) f(1) by auto
next
  case False
  then show ?thesis using assms(1) by (auto simp: TimingWheel_Schedule_def split: if_splits option.splits)
qed

lemma floor_to_tick:
  assumes "0 < q" and "q dvd c" and "x < c + q"
  shows "floor_to q x \<le> c"
  using assms floor_to_unique [of q c x] floor_to_le [of q x] by (cases "c \<le> x") auto

theorem run_ok_step:
  assumes ok: "run_ok (now, tw)" and st: "wheel_step (now, tw) (now', tw')"
  shows "run_ok (now', tw')" and "step_mono tw tw'" and "now \<le> now'"
proof -
  have w: "wheel_ok {} tw" "tw_clock tw \<le> now" "now < 2 ^ 62"
    and f: "\<And>e. e \<in> set (tw_fired tw) \<Longrightarrow> floor_to (tw_tickMs tw) (tw_exp tw e) \<le> now"
    using ok by (simp_all add: run_ok_def)
  have "run_ok (now', tw') \<and> step_mono tw tw' \<and> now \<le> now'"
    using st
  proof cases
    case (schedule at tid cb er)
    then consider "tw' = tw" | "scheduled tid at tw tw'" using Schedule_cases w(1) by blast
    then show ?thesis
    proof cases
      case 2
      have T: "0 < tw_tickMs tw" "tw_tickMs tw dvd tw_clock tw" using wheel_okD(3,10) [OF w(1)] by auto
      then have "floor_to (tw_tickMs tw) at \<le> now" if "at < tw_clock tw + tw_tickMs tw"
        using floor_to_tick [of "tw_tickMs tw" "tw_clock tw" at] that w(2) by simp
      moreover have "e < length (tw_store tw)" if "e \<in> set (tw_fired tw)" for e
        using w(1) that by (auto simp: wheel_ok_def)
      ultimately show ?thesis
        using 2 schedule w f ok scheduled_mono [OF 2 w(1)]
        by (auto simp: run_ok_def scheduled_def Let_def less_Suc_eq split: if_splits)
    qed (use schedule ok in simp)
  next
    case (tick fuel)
    from tick_drained [OF w tick(3)] obtain fs where d: "drained now tw fs tw'" .
    have s: "set fs = {e \<in> tw_pending tw. \<not> tw_canc tw e \<and> floor_to (tw_tickMs tw) (tw_exp tw e) \<le> now}"
      and p: "{e \<in> tw_pending tw'. \<not> tw_canc tw e} =
       {e \<in> tw_pending tw. \<not> tw_canc tw e \<and> now < floor_to (tw_tickMs tw) (tw_exp tw e)}"
      and q: "wheel_ok {} tw'" "same_wheel tw tw'" "tw_clock tw' \<le> now" "tw_fired tw' = tw_fired tw @ fs"
      using d unfolding drained_def by auto
    have "e \<in> tw_pending tw' \<or> e \<in> set fs" if "e \<in> tw_pending tw" "\<not> tw_canc tw e" for e
      using s p that by (cases "floor_to (tw_tickMs tw) (tw_exp tw e) \<le> now") auto
    moreover have "\<forall>e < length (tw_store tw). \<not> tw_canc tw e \<longrightarrow> e \<in> tw_pending tw \<or> e \<in> set (tw_fired tw)"
      using ok by (simp add: run_ok_def)
    ultimately have "\<forall>e < length (tw_store tw). \<not> tw_canc tw e \<longrightarrow> e \<in> tw_pending tw' \<or> e \<in> set (tw_fired tw')"
      using q(4) by auto
    moreover have "\<forall>e \<in> set (tw_fired tw'). floor_to (tw_tickMs tw) (tw_exp tw e) \<le> now"
      using f q(4) s by auto
    ultimately show ?thesis
      using tick w(3) q drained_mono [OF d w(1)] by (simp add: run_ok_def same_wheel_def)
  next
    case (cancel tid)
    have "tw_canc tw e \<Longrightarrow> tw_canc tw' e" if "e < length (tw_store tw)" for e
      using Cancel_mono(1) [OF w(1), of tid] that cancel by (simp add: step_mono_def)
    then show ?thesis
      using ok cancel Cancel_ok [OF w(1)] Cancel_mono [OF w(1)] by (auto simp: run_ok_def)
  qed (use ok f in \<open>auto simp: run_ok_def Start_Stop_mono tw_exp_def dest: order_trans\<close>)
  then show "run_ok (now', tw')" "step_mono tw tw'" "now \<le> now'" by simp_all
qed


lemma run_ok_new:
  assumes "max 1 (tick sdiv 1000000) * max 2 wsize \<le> 2 ^ 62" "0 \<le> now" "now < 2 ^ 62"
    and "NewTimingWheel tick wsize now = Inr tw"
  shows "run_ok (now, tw)"
  using wheel_ok_new [OF assms(4,1,2,3)] assms(3) by (simp add: run_ok_def)

lemma wheel_reach_run_ok: "wheel_reach s \<Longrightarrow> run_ok s"
proof (induction rule: wheel_reach.induct)
  case (step s s')
  then show ?case using run_ok_step(1) by (metis surj_pair)
qed (rule run_ok_new)

lemma reach_ok:
  assumes "wheel_reach (now, tw)"
  shows "run_ok (now, tw)" and "wheel_ok {} tw" and "tw_clock tw \<le> now" and "now < 2 ^ 62"
  using wheel_reach_run_ok [OF assms] by (simp_all add: run_ok_def)

lemma wheel_steps_mono:
  assumes "wheel_step\<^sup>*\<^sup>* s s'" and "run_ok s"
  shows "run_ok s' \<and> step_mono (snd s) (snd s') \<and> fst s \<le> fst s'"
  using assms
proof (induction rule: rtranclp_induct)
  case (step s1 s2)
  obtain n1 t1 n2 t2 where eq: "s1 = (n1, t1)" "s2 = (n2, t2)" by (cases s1, cases s2)
  have i: "run_ok (n1, t1)" "step_mono (snd s) t1" "fst s \<le> n1" using step eq by simp_all
  note r = run_ok_step [OF i(1) step.hyps(2) [unfolded eq]]
  show ?case using r(1,3) i(3) step_mono_trans [OF i(2) r(2)] by (simp add: eq)
qed simp

text \<open>An entry that is cancelled and not fired never fires.\<close>

lemma cancelled_never_fires:
  assumes "wheel_step\<^sup>*\<^sup>* (now, tw) (now', tw')" and "run_ok (now, tw)"
    and "e < length (tw_store tw)" "tw_canc tw e" "e \<notin> set (tw_fired tw)"
  shows "e \<notin> set (tw_fired tw')"
proof -
  have "step_mono tw tw'" using wheel_steps_mono [OF assms(1,2)] by simp
  then obtain fs where "tw_fired tw' = tw_fired tw @ fs"
      "\<forall>e \<in> set fs. e < length (tw_store tw) \<longrightarrow> e \<in> tw_pending tw \<and> \<not> tw_canc tw e"
    by (auto simp: step_mono_def)
  then show ?thesis using assms(3-5) by auto
qed

text \<open>An entry that is not cancelled is armed or has fired, and has fired once the loop ran late enough.\<close>

lemma live_fires:
  assumes "wheel_reach (now, tw)" and "e < length (tw_store tw)" and "\<not> tw_canc tw e"
    and "tickLoop fuel now tw = Inr tw'"
  shows "(e \<in> tw_pending tw \<or> e \<in> set (tw_fired tw)) \<and>
    (tw_exp tw e \<le> now \<longrightarrow> e \<in> set (tw_fired tw'))"
proof -
  note ok = reach_ok[OF assms(1)]
  have l: "e \<in> tw_pending tw \<or> e \<in> set (tw_fired tw)" using ok(1) assms(2,3) by (simp add: run_ok_def)
  obtain fs where d: "drained now tw fs tw'" using tick_drained [OF ok(2-4) assms(4)] .
  have "floor_to (tw_tickMs tw) (tw_exp tw e) \<le> now" if "tw_exp tw e \<le> now"
    using floor_to_le [OF wheel_okD(3) [OF ok(2)], of "tw_exp tw e"] that by simp
  moreover have "tw_fired tw' = tw_fired tw @ fs"
    "set fs = {e \<in> tw_pending tw. \<not> tw_canc tw e \<and> floor_to (tw_tickMs tw) (tw_exp tw e) \<le> now}"
    using d unfolding drained_def by blast+
  ultimately show ?thesis using l assms(3) by auto
qed

end
