(* ===== verification/Wheel_Props.thy ===== *)
theory Wheel_Props
  imports Wheel_Run
begin

text \<open>
  The properties of the timing wheel and its delay queue, over every state reachable from
  \<open>NewTimingWheel\<close>, with a concrete wheel (10 ms tick, 4 buckets) as their witness.
\<close>

section \<open>A concrete run\<close>

definition demo_new :: "string TimingWheel" where
  "demo_new = projr (NewTimingWheel 10000000 4 1000)"

definition demo_armed :: "string TimingWheel" where
  "demo_armed = snd (projr (TimingWheel_Schedule ''a'' 1055 (Some ''cb'') (TimingWheel_Start demo_new)))"

definition demo_two :: "string TimingWheel" where
  "demo_two = snd (projr (TimingWheel_Schedule ''b'' 1031 (Some ''cb'') demo_armed))"

lemma demo_new_reach: "wheel_reach (1000, demo_new)"
proof (rule wheel_reach.new)
  have "\<not> isl (NewTimingWheel 10000000 4 1000 :: string TimingWheel go)" by code_simp
  then show "NewTimingWheel 10000000 4 1000 = Inr demo_new" by (simp add: demo_new_def)
qed simp_all

lemma demo_size: "tw_size demo_new = 4" "tw_size demo_armed = 4" "tw_size demo_two = 4"
  by code_simp+

lemma demo_armed_step: "wheel_step (1000, TimingWheel_Start demo_new) (1000, demo_armed)"
proof (rule wheel_step.schedule)
  have "\<not> isl (TimingWheel_Schedule ''a'' 1055 (Some ''cb'') (TimingWheel_Start demo_new))" by code_simp
  then show "TimingWheel_Schedule ''a'' 1055 (Some ''cb'') (TimingWheel_Start demo_new) =
      Inr (fst (projr (TimingWheel_Schedule ''a'' 1055 (Some ''cb'') (TimingWheel_Start demo_new))), demo_armed)"
    by (simp add: demo_armed_def)
qed (simp add: demo_size)

lemma demo_two_step: "wheel_step (1000, demo_armed) (1000, demo_two)"
proof (rule wheel_step.schedule)
  have "\<not> isl (TimingWheel_Schedule ''b'' 1031 (Some ''cb'') demo_armed)" by code_simp
  then show "TimingWheel_Schedule ''b'' 1031 (Some ''cb'') demo_armed =
      Inr (fst (projr (TimingWheel_Schedule ''b'' 1031 (Some ''cb'') demo_armed)), demo_two)"
    by (simp add: demo_two_def)
qed (simp add: demo_size)

lemma demo_two_reach: "wheel_reach (1000, demo_two)"
  using wheel_reach.step [OF wheel_reach.step [OF wheel_reach.step [OF demo_new_reach wheel_step.start]
    demo_armed_step] demo_two_step] .

lemma demo_two_later: "wheel_reach (1060, demo_two)"
  using wheel_reach.step [OF demo_two_reach wheel_step.time, of 1060] by simp

section \<open>Properties\<close>

text \<open>
  C1. No operation on a reachable wheel panics or loops: \<open>Schedule\<close> returns for every ID, callback
  and fire time in range, and the tick loop terminates, within as many rounds as the weight of the
  armed entries.
\<close>

theorem wheel_never_faults:
  assumes "wheel_reach (now, tw)" and "at * tw_size tw \<le> 2 ^ 62"
  shows "(\<exists>er tw'. TimingWheel_Schedule tid at cb tw = Inr (er, tw')) \<and>
    (\<exists>tw'. tickLoop (Suc (weight (ents (tw_mem tw)))) now tw = Inr tw')"
proof
  note ok = reach_ok(2-4) [OF assms(1)]
  show "\<exists>tw'. tickLoop (Suc (weight (ents (tw_mem tw)))) now tw = Inr tw'"
    using tickLoop_drains [OF ok] by blast
  show "\<exists>er tw'. TimingWheel_Schedule tid at cb tw = Inr (er, tw')"
  proof (cases "tw_started tw \<and> \<not> tw_stopped tw \<and> cb \<noteq> None")
    case True
    then show ?thesis using Schedule_ok [OF ok(1) assms(2)] by fast
  qed (auto simp: TimingWheel_Schedule_def)
qed

theorem wheel_never_faults_witness:
  "(\<exists>er tw'. TimingWheel_Schedule ''c'' 5000 (Some ''f'') demo_two = Inr (er, tw')) \<and>
   (\<exists>tw'. tickLoop (Suc (weight (ents (tw_mem demo_two)))) 1060 demo_two = Inr tw')"
  using wheel_never_faults [OF demo_two_later, of 5000] by (simp add: demo_size)

text \<open>
  C2. The tick loop at time \<open>now\<close> dispatches exactly the armed, not cancelled entries whose tick
  has come, each once, in the order of their ticks, and arms every other one.
\<close>

theorem tick_fires_exactly_due:
  assumes "wheel_reach (now, tw)" and "tickLoop fuel now tw = Inr tw'"
  shows "\<exists>fs. tw_fired tw' = tw_fired tw @ fs \<and> distinct fs \<and>
    set fs = {e \<in> tw_pending tw. \<not> tw_canc tw e \<and> floor_to (tw_tickMs tw) (tw_exp tw e) \<le> now} \<and>
    sorted (map (\<lambda>e. floor_to (tw_tickMs tw) (tw_exp tw e)) fs) \<and>
    {e \<in> tw_pending tw'. \<not> tw_canc tw' e} =
      {e \<in> tw_pending tw. \<not> tw_canc tw e \<and> now < floor_to (tw_tickMs tw) (tw_exp tw e)}"
proof -
  obtain fs where d: "drained now tw fs tw'" using tick_drained [OF reach_ok(2-4) [OF assms(1)] assms(2)] .
  have "wheel_ok {} tw'" and f: "tw_fired tw' = tw_fired tw @ fs" using d by (simp_all add: drained_def)
  then have "distinct (tw_fired tw @ fs)" by (simp add: wheel_ok_def)
  moreover have "tw_canc tw' = tw_canc tw" using d by (simp add: drained_def same_wheel_def)
  ultimately show ?thesis using d by (intro exI [of _ fs]) (simp add: drained_def)
qed

theorem tick_fires_exactly_due_witness:
  "\<exists>tw' fs. tickLoop 9 1060 demo_two = Inr tw' \<and> tw_fired tw' = tw_fired demo_two @ fs \<and> fs = [1, 0]"
proof -
  let ?r = "tickLoop 9 1060 demo_two"
  have "\<not> isl ?r" by code_simp
  then have r: "?r = Inr (projr ?r)" by simp
  obtain fs where "tw_fired (projr ?r) = tw_fired demo_two @ fs"
    using tick_fires_exactly_due [OF demo_two_later r] by blast
  moreover have "tw_fired (projr ?r) = tw_fired demo_two @ [1, 0]" by code_simp
  ultimately show ?thesis using r by (metis same_append_eq)
qed

text \<open>
  C3. In every reachable state each entry has been dispatched at most once, and none before the
  tick its fire time falls in: less than one tick early at most.
\<close>

theorem fired_once_not_early:
  assumes "wheel_reach (now, tw)"
  shows "distinct (tw_fired tw) \<and> (\<forall>e. e \<in> set (tw_fired tw) \<longrightarrow> tw_exp tw e < now + tw_tickMs tw)"
proof -
  note ok = reach_ok(1,2) [OF assms]
  have "tw_exp tw e < now + tw_tickMs tw" if "e \<in> set (tw_fired tw)" for e
    using that ok(1) floor_to_gt [OF wheel_okD(3) [OF ok(2)], of "tw_exp tw e"] by (auto simp: run_ok_def)
  then show ?thesis using ok(2) by (simp add: wheel_ok_def)
qed

definition demo_done :: "string TimingWheel" where
  "demo_done = projr (tickLoop 9 1060 demo_two)"

lemma demo_done_step: "wheel_step (1060, demo_two) (1060, demo_done)"
proof (rule wheel_step.tick)
  have "\<not> isl (tickLoop 9 1060 demo_two)" by code_simp
  then show "tickLoop 9 1060 demo_two = Inr demo_done" by (simp add: demo_done_def)
  show "tw_started demo_two" by code_simp
qed

theorem fired_once_not_early_witness:
  "tw_fired demo_done = [1, 0] \<and> tw_exp demo_done 0 < 1060 + tw_tickMs demo_done"
proof -
  have f: "tw_fired demo_done = [1, 0]" by code_simp
  show ?thesis
    using fired_once_not_early [OF wheel_reach.step [OF demo_two_later demo_done_step]] f by simp
qed

text \<open>
  C4. After \<open>Cancel\<close> the entry that was indexed under the ID never fires, whatever steps follow,
  and the ID is free again.
\<close>

theorem cancel_prevents_firing:
  assumes "wheel_reach (now, tw)" and "tid \<noteq> ''''" and "tw_entries tw tid = Some e"
    and "wheel_step\<^sup>*\<^sup>* (now, TimingWheel_Cancel tid tw) (now', tw')"
  shows "e \<notin> set (tw_fired tw') \<and> tw_entries (TimingWheel_Cancel tid tw) tid = None"
proof -
  note ok = reach_ok(1,2) [OF assms(1)]
  have p: "e < length (tw_store tw)" "e \<notin> set (tw_fired tw)"
    using ok(2) assms(3) by (auto simp: wheel_ok_def index_ok_def)
  then have "tw_canc (TimingWheel_Cancel tid tw) e"
    using assms(2,3) by (simp add: TimingWheel_Cancel_def)
  then have "e \<notin> set (tw_fired tw')"
    using p Cancel_mono [OF ok(2)] run_ok_step(1) [OF ok(1) wheel_step.cancel]
    by (intro cancelled_never_fires [OF assms(4)]) simp_all
  then show ?thesis using assms(2,3) by (simp add: TimingWheel_Cancel_def)
qed

theorem cancel_prevents_firing_witness:
  "tw_entries demo_two ''a'' = Some 0 \<and> 0 \<notin> set (tw_fired (TimingWheel_Cancel ''a'' demo_two))"
proof -
  have e: "tw_entries demo_two ''a'' = Some 0" by code_simp
  show ?thesis
    using cancel_prevents_firing [OF demo_two_reach _ e rtranclp.rtrancl_refl] e by simp
qed

text \<open>
  C5. Scheduling an ID again replaces the pending entry: the old one never fires, and the ID
  names the new one, unless that one was due and fired at once.
\<close>

theorem schedule_replaces:
  assumes "wheel_reach (now, tw)" and "at * tw_size tw \<le> 2 ^ 62" and "tid \<noteq> ''''"
    and "tw_entries tw tid = Some e"
    and "TimingWheel_Schedule tid at cb tw = Inr (None, tw1)"
    and "wheel_step\<^sup>*\<^sup>* (now, tw1) (now', tw')"
  shows "e \<notin> set (tw_fired tw') \<and> tw_entries tw1 tid =
    (if at < tw_clock tw + tw_tickMs tw then None else Some (length (tw_store tw)))"
proof
  note ok = reach_ok(1,2) [OF assms(1)]
  have s: "scheduled tid at tw tw1" using Schedule_cases [OF assms(5) ok(2) assms(2)] by blast
  have p: "e < length (tw_store tw)" "e \<notin> set (tw_fired tw)"
    using ok(2) assms(4) by (auto simp: wheel_ok_def index_ok_def)
  have f: "e \<notin> set (tw_fired tw1)"
    using s p by (cases "at < tw_clock tw + tw_tickMs tw") (auto simp: scheduled_def Let_def)
  show "e \<notin> set (tw_fired tw')"
    using p f s assms(3,4) run_ok_step(1) [OF ok(1) wheel_step.schedule [OF assms(2,5)]]
    by (intro cancelled_never_fires [OF assms(6)]) (simp_all add: scheduled_def Let_def)
  let ?n = "length (tw_store tw)"
  have i: "index_ok (tw_pending tw1) tw1" and d: "tw_tid tw1 ?n = tid" "\<not> tw_canc tw1 ?n"
    and q: "x < ?n \<Longrightarrow> tw_tid tw1 x = tid \<Longrightarrow> x \<in> tw_pending tw \<Longrightarrow> tw_canc tw1 x" for x
    using s assms(3) ok(2) by (auto simp: scheduled_def Let_def wheel_ok_def index_ok_def)
  have lt: "tw_pending tw \<subseteq> {..<?n}" using ok(2) by (simp add: wheel_ok_def)
  show "tw_entries tw1 tid = (if at < tw_clock tw + tw_tickMs tw then None else Some ?n)"
  proof (cases "at < tw_clock tw + tw_tickMs tw")
    case True
    then have "tw_pending tw1 = tw_pending tw" using s by (simp add: scheduled_def Let_def)
    then show ?thesis using i q lt True by (cases "tw_entries tw1 tid") (auto simp: index_ok_def)
  next
    case False
    then have "?n \<in> tw_pending tw1" using s by (simp add: scheduled_def Let_def)
    then show ?thesis using i d assms(3) False by (simp add: index_ok_def)
  qed
qed

theorem schedule_replaces_witness:
  "\<exists>tw1. TimingWheel_Schedule ''a'' 1200 (Some ''cb'') demo_two = Inr (None, tw1) \<and> 0 \<notin> set (tw_fired tw1)"
proof -
  let ?r = "TimingWheel_Schedule ''a'' 1200 (Some ''cb'') demo_two"
  have "\<not> isl ?r" "fst (projr ?r) = None" by code_simp+
  then have r: "?r = Inr (None, snd (projr ?r))" by (cases ?r) auto
  have e: "tw_entries demo_two ''a'' = Some 0" by code_simp
  show ?thesis
    using schedule_replaces [OF demo_two_reach _ _ e r rtranclp.rtrancl_refl] r by (auto simp: demo_size)
qed


text \<open>
  C6. No entry is lost: a scheduled entry that is not cancelled is armed or has fired, and once the
  tick loop runs at a time not before its fire time, it has fired.
\<close>

theorem live_entry_fires:
  assumes "wheel_reach (now, tw)" and "e < length (tw_store tw)" and "\<not> tw_canc tw e"
    and "tickLoop fuel now tw = Inr tw'"
  shows "(e \<in> tw_pending tw \<or> e \<in> set (tw_fired tw)) \<and>
    (tw_exp tw e \<le> now \<longrightarrow> e \<in> set (tw_fired tw'))"
  by (rule live_fires [OF assms])

theorem live_entry_fires_witness:
  "tw_exp demo_two 0 = 1055 \<and> 0 \<in> set (tw_fired demo_done)"
proof -
  have "\<not> isl (tickLoop 9 1060 demo_two)" by code_simp
  then have r: "tickLoop 9 1060 demo_two = Inr demo_done" by (simp add: demo_done_def)
  have "0 < length (tw_store demo_two)" "\<not> tw_canc demo_two 0" "tw_exp demo_two 0 = 1055" by code_simp+
  then show ?thesis using live_entry_fires [OF demo_two_later _ _ r, of 0] by simp
qed

text \<open>
  C7. The index of pending entries is exact: in every reachable state an ID is mapped to an entry
  if and only if that entry is armed, not cancelled and carries this (non-empty) ID, so at most one
  live entry per ID exists and a fired or cancelled entry leaves no mapping behind.
\<close>

theorem index_exact:
  assumes "wheel_reach (now, tw)"
  shows "tw_entries tw tid = Some e \<longleftrightarrow>
    tid \<noteq> '''' \<and> e \<in> tw_pending tw \<and> \<not> tw_canc tw e \<and> tw_tid tw e = tid"
  using reach_ok(2) [OF assms] by (simp add: wheel_ok_def index_ok_def)

theorem index_exact_witness: "1 \<in> tw_pending demo_two \<and> tw_tid demo_two 1 = ''b''"
proof -
  have "tw_entries demo_two ''b'' = Some 1" by code_simp
  then show ?thesis using index_exact [OF demo_two_reach] by simp
qed

text \<open>
  \<open>Schedule\<close> on every branch: a wheel that is not started, stopped, or given no callback
  reports so and is unchanged; otherwise the new entry is dispatched at once when its fire time is
  within the current tick, else armed, and no other entry is armed, fired or cancelled than the one
  indexed under the same ID.
\<close>

theorem schedule_branches:
  assumes "wheel_reach (now, tw)" and "at * tw_size tw \<le> 2 ^ 62"
  shows "\<exists>er tw'. TimingWheel_Schedule tid at cb tw = Inr (er, tw') \<and>
    er = (if \<not> tw_started tw then Some ErrWheelNotStarted else if tw_stopped tw then Some ErrWheelStopped
          else if cb = None then Some ErrNilCallback else None) \<and>
    (if er = None then scheduled tid at tw tw' else tw' = tw)"
proof (cases "tw_started tw \<and> \<not> tw_stopped tw \<and> cb \<noteq> None")
  case True
  then obtain f where f: "cb = Some f" "tw_started tw" "\<not> tw_stopped tw" by auto
  show ?thesis using Schedule_ok [OF reach_ok(2) [OF assms(1)] assms(2) f(2,3), of tid f] f by auto
qed (auto simp: TimingWheel_Schedule_def)

theorem schedule_branches_witness:
  "\<exists>tw'. TimingWheel_Schedule ''c'' 1005 (Some ''cb'') demo_two = Inr (None, tw') \<and> scheduled ''c'' 1005 demo_two tw'"
proof -
  have "tw_started demo_two" "\<not> tw_stopped demo_two" by code_simp+
  then show ?thesis
    using schedule_branches [OF demo_two_reach, of 1005 "''c''" "Some ''cb''"] by (auto simp: demo_size)
qed

text \<open>
  The delay queue of a reachable wheel: \<open>poll\<close> answers with nothing exactly when no live bucket
  has expired, and otherwise with a bucket of least expiration, which leaves the heap with the index
  of every other bucket still right.
\<close>

theorem poll_least_expired:
  assumes "wheel_reach (now, tw)"
  shows "case delayQueue_poll at (tw_mem tw) of
      (None, _, m) \<Rightarrow> m = tw_mem tw \<and> (\<forall>r. exp_of (tw_mem tw) r \<noteq> -1 \<longrightarrow> at < exp_of (tw_mem tw) r)
    | (Some r, _, m) \<Rightarrow> exp_of (tw_mem tw) r \<noteq> -1 \<and> exp_of (tw_mem tw) r \<le> at \<and> heap_idx_inv m \<and>
        bq.ordered m \<and> set (m_h m) = set (m_h (tw_mem tw)) - {r} \<and>
        (\<forall>r'. exp_of (tw_mem tw) r' \<noteq> -1 \<longrightarrow> exp_of (tw_mem tw) r \<le> exp_of (tw_mem tw) r')"
proof -
  let ?m = "tw_mem tw"
  note D = mem_okD [OF wheel_okD(1) [OF reach_ok(2) [OF assms]]]
  obtain g wt m' where p: "delayQueue_poll at ?m = (g, wt, m')" by (cases "delayQueue_poll at ?m")
  show ?thesis
  proof (cases g)
    case None
    then show ?thesis using poll_none_iff [OF D(2,3), of at] poll_none_mem [of at ?m] p D(4) by simp
  next
    case (Some r)
    note q = poll_some [OF D(2,3) p [unfolded Some]]
    show ?thesis using p Some q(1-5,7) D(4) by simp
  qed
qed

theorem poll_least_expired_witness:
  "fst (delayQueue_poll 1060 (tw_mem demo_two)) = Some (BRef 0 3) \<and> exp_of (tw_mem demo_two) (BRef 0 3) \<le> 1060"
proof -
  have "fst (delayQueue_poll 1060 (tw_mem demo_two)) = Some (BRef 0 3)" by code_simp
  then show ?thesis using poll_least_expired [OF demo_two_reach, of 1060] by (auto split: prod.splits option.splits)
qed

text \<open>
  The bound on fire times is needed: with the default wheel (10 ms, 256 buckets) the span of the
  seventh overflow level overflows 64 bits, the next level gets tick 0, and scheduling a fire time of
  \<open>2 ^ 60\<close> ms divides by zero.
\<close>

theorem default_wheel_overflow:
  "go_bind (NewTimingWheel 10000000 256 1700000000000)
     (\<lambda>tw. go_bind (TimingWheel_Schedule ''far'' (2 ^ 60) (Some ''cb'') (TimingWheel_Start tw))
        (\<lambda>(er, tw'). Inr er)) = Inl DivideByZero"
  by code_simp

text \<open>
  An entry can fire before its fire time: with a 10 ms tick an entry for 1055 ms is dispatched by
  the tick loop at 1050 ms.
\<close>

theorem fires_early_within_tick:
  "go_bind (tickLoop 9 1050 demo_two) (\<lambda>tw. Inr (tw_fired tw, map (tw_exp tw) (tw_fired tw))) =
     Inr ([1, 0], [1031, 1055])"
  by code_simp

end
