(* ===== verification/Go_Map.thy ===== *)
theory Go_Map
  imports Skedulr_Prelude "HOL-Library.AList"
begin

text \<open>
  Go maps as association lists with distinct keys: lookup (\<open>v, ok := m[k]\<close>), assignment,
  \<open>delete\<close> and \<open>len\<close>. The iteration order of a Go map is unspecified; the list fixes one.
\<close>

type_synonym 'v gomap = "(string \<times> 'v) list"

abbreviation gm_get :: "'v gomap \<Rightarrow> string \<Rightarrow> 'v option" where
  "gm_get m k \<equiv> map_of m k"

abbreviation gm_put :: "string \<Rightarrow> 'v \<Rightarrow> 'v gomap \<Rightarrow> 'v gomap" where
  "gm_put k v m \<equiv> AList.update k v m"

abbreviation gm_del :: "string \<Rightarrow> 'v gomap \<Rightarrow> 'v gomap" where
  "gm_del k m \<equiv> AList.delete k m"

abbreviation gm_len :: "'v gomap \<Rightarrow> int" where
  "gm_len m \<equiv> int (length m)"

definition gm_ok :: "'v gomap \<Rightarrow> bool" where
  "gm_ok m \<longleftrightarrow> distinct (map fst m)"

lemma gm_ok_Nil [simp]: "gm_ok []"
  by (simp add: gm_ok_def)

lemma gm_ok_put [simp]: "gm_ok m \<Longrightarrow> gm_ok (gm_put k v m)"
  by (simp add: gm_ok_def distinct_update)

lemma gm_ok_del [simp]: "gm_ok m \<Longrightarrow> gm_ok (gm_del k m)"
  by (simp add: gm_ok_def distinct_delete)

lemma gm_get_put [simp]: "gm_get (gm_put k v m) k' = (if k' = k then Some v else gm_get m k')"
  by (simp add: update_conv')

lemma gm_get_del [simp]: "gm_get (gm_del k m) k' = (if k' = k then None else gm_get m k')"
  by (simp add: delete_conv')

lemma gm_len_put: "length (gm_put k v m) = (if gm_get m k = None then Suc (length m) else length m)"
  by (induction m) auto

lemma gm_len_put_le: "length (gm_put k v m) \<le> Suc (length m)"
  by (simp add: gm_len_put)

lemma gm_len_del_le: "length (gm_del k m) \<le> length m"
  by (rule length_delete_le)

lemma gm_len_del_less: "gm_get m k = Some v \<Longrightarrow> length (gm_del k m) < length m"
  by (induction m) (auto simp: less_Suc_eq_le gm_len_del_le split: if_splits)

end
