(* ===== verification/Task.thy ===== *)
theory Task
  imports Go_Map Go_Heap
begin

text \<open>
  Tasks of \<open>scheduler.go\<close>: the statuses, the \<open>task\<close> object, its constructors and builders, and
  the priority queue \<open>taskQueue\<close> with its \<open>container/heap\<close> methods.

  A \<open>Job\<close> is a value of type \<open>'job\<close>, a \<open>RetryStrategy\<close> a value of type \<open>'rs\<close>, a
  \<open>context.CancelFunc\<close> the number of the context it cancels. Payload bytes are characters.
  IDs made by \<open>generateId\<close> (the uuid package) are arguments.
\<close>

section \<open>Statuses\<close>

datatype TaskStatus =
  StatusUnknown | StatusQueued | StatusRunning | StatusSucceeded | StatusFailed |
  StatusCancelled | StatusDead | StatusRetrying

fun TaskStatus_String :: "TaskStatus \<Rightarrow> string" where
  "TaskStatus_String StatusUnknown = ''Unknown''"
| "TaskStatus_String StatusQueued = ''Queued''"
| "TaskStatus_String StatusRunning = ''Running''"
| "TaskStatus_String StatusSucceeded = ''Succeeded''"
| "TaskStatus_String StatusFailed = ''Failed''"
| "TaskStatus_String StatusCancelled = ''Cancelled''"
| "TaskStatus_String StatusDead = ''Dead''"
| "TaskStatus_String StatusRetrying = ''Retrying''"

text \<open>The constant's value: the \<open>iota\<close> of its declaration.\<close>

fun TaskStatus_int :: "TaskStatus \<Rightarrow> nat" where
  "TaskStatus_int StatusUnknown = 0"
| "TaskStatus_int StatusQueued = 1"
| "TaskStatus_int StatusRunning = 2"
| "TaskStatus_int StatusSucceeded = 3"
| "TaskStatus_int StatusFailed = 4"
| "TaskStatus_int StatusCancelled = 5"
| "TaskStatus_int StatusDead = 6"
| "TaskStatus_int StatusRetrying = 7"

lemma TaskStatus_String_inj: "TaskStatus_String a = TaskStatus_String b \<longleftrightarrow> a = b"
  by (cases a; cases b) simp_all

lemma TaskStatus_int_inj: "TaskStatus_int a = TaskStatus_int b \<longleftrightarrow> a = b"
  by (cases a; cases b) simp_all

section \<open>Tasks\<close>

type_synonym task_ref = nat
type_synonym ctx_ref = nat

record TaskDependency =
  ParentID :: string
  Trigger :: TaskStatus

record ('job, 'rs) task =
  t_id :: string
  t_key :: string
  t_job :: "'job option"
  t_timeout :: int
  t_priority :: int
  t_cancel :: "ctx_ref option"
  t_retryStrategy :: "'rs option"
  t_attempts :: int
  t_maxRetries :: int
  t_status :: TaskStatus
  t_progress :: int
  t_pool :: string
  t_typeName :: string
  t_payload :: string
  t_dependsOn :: "string list"
  t_dependencies :: "TaskDependency list"

text \<open>The zero value of the struct: what \<open>&task{...}\<close> leaves unset.\<close>

definition zero_task :: "('job, 'rs) task" where
  "zero_task = \<lparr>t_id = '''', t_key = '''', t_job = None, t_timeout = 0, t_priority = 0,
     t_cancel = None, t_retryStrategy = None, t_attempts = 0, t_maxRetries = 0,
     t_status = StatusUnknown, t_progress = 0, t_pool = '''', t_typeName = '''', t_payload = '''',
     t_dependsOn = [], t_dependencies = []\<rparr>"

definition NewTask :: "string \<Rightarrow> 'job option \<Rightarrow> int \<Rightarrow> int \<Rightarrow> ('job, 'rs) task" where
  "NewTask newid job priority timeout = zero_task\<lparr>t_id := newid, t_job := job,
     t_priority := priority, t_timeout := timeout, t_status := StatusQueued\<rparr>"

definition NewPersistentTask :: "string \<Rightarrow> string \<Rightarrow> string \<Rightarrow> int \<Rightarrow> int \<Rightarrow> ('job, 'rs) task" where
  "NewPersistentTask newid typeName payload priority timeout = zero_task\<lparr>t_id := newid,
     t_typeName := typeName, t_payload := payload, t_priority := priority,
     t_timeout := timeout, t_status := StatusQueued\<rparr>"

definition WithKey :: "string \<Rightarrow> ('job, 'rs) task \<Rightarrow> ('job, 'rs) task" where
  "WithKey key t = t\<lparr>t_key := key\<rparr>"

definition WithPool :: "string \<Rightarrow> ('job, 'rs) task \<Rightarrow> ('job, 'rs) task" where
  "WithPool pool t = t\<lparr>t_pool := pool\<rparr>"

definition WithID :: "string \<Rightarrow> ('job, 'rs) task \<Rightarrow> ('job, 'rs) task" where
  "WithID newid t = t\<lparr>t_id := newid\<rparr>"

definition WithTypeName :: "string \<Rightarrow> ('job, 'rs) task \<Rightarrow> ('job, 'rs) task" where
  "WithTypeName name t = t\<lparr>t_typeName := name\<rparr>"

definition WithPayload :: "string \<Rightarrow> ('job, 'rs) task \<Rightarrow> ('job, 'rs) task" where
  "WithPayload payload t = t\<lparr>t_payload := payload\<rparr>"

definition DependsOn :: "string list \<Rightarrow> ('job, 'rs) task \<Rightarrow> ('job, 'rs) task" where
  "DependsOn ids t = t\<lparr>t_dependsOn := t_dependsOn t @ ids\<rparr>"

definition OnSuccess :: "string \<Rightarrow> ('job, 'rs) task \<Rightarrow> ('job, 'rs) task" where
  "OnSuccess parentID t = t\<lparr>t_dependencies := t_dependencies t @ [\<lparr>ParentID = parentID, Trigger = StatusSucceeded\<rparr>]\<rparr>"

definition OnFailure :: "string \<Rightarrow> ('job, 'rs) task \<Rightarrow> ('job, 'rs) task" where
  "OnFailure parentID t = t\<lparr>t_dependencies := t_dependencies t @ [\<lparr>ParentID = parentID, Trigger = StatusFailed\<rparr>]\<rparr>"

definition WithMaxRetries :: "int \<Rightarrow> ('job, 'rs) task \<Rightarrow> ('job, 'rs) task" where
  "WithMaxRetries n t = t\<lparr>t_maxRetries := n\<rparr>"

definition task_WithRetryStrategy :: "'rs option \<Rightarrow> ('job, 'rs) task \<Rightarrow> ('job, 'rs) task" where
  "task_WithRetryStrategy rs t = t\<lparr>t_retryStrategy := rs\<rparr>"

text \<open>The tasks a user of the package can build: its fields are not exported.\<close>

inductive user_task :: "('job, 'rs) task \<Rightarrow> bool" where
  "user_task (NewTask newid job priority timeout)"
| "user_task (NewPersistentTask newid typeName payload priority timeout)"
| "user_task t \<Longrightarrow> user_task (WithKey k t)"
| "user_task t \<Longrightarrow> user_task (WithPool k t)"
| "user_task t \<Longrightarrow> user_task (WithID k t)"
| "user_task t \<Longrightarrow> user_task (WithTypeName k t)"
| "user_task t \<Longrightarrow> user_task (WithPayload k t)"
| "user_task t \<Longrightarrow> user_task (DependsOn ks t)"
| "user_task t \<Longrightarrow> user_task (OnSuccess k t)"
| "user_task t \<Longrightarrow> user_task (OnFailure k t)"
| "user_task t \<Longrightarrow> user_task (WithMaxRetries n t)"
| "user_task t \<Longrightarrow> user_task (task_WithRetryStrategy rs t)"

lemma user_task_fresh: "user_task t \<Longrightarrow> t_attempts t = 0 \<and> t_status t = StatusQueued \<and> t_cancel t = None \<and> t_progress t = 0"
  by (induction rule: user_task.induct)
    (simp_all add: NewTask_def NewPersistentTask_def zero_task_def WithKey_def WithPool_def WithID_def
      WithTypeName_def WithPayload_def DependsOn_def OnSuccess_def OnFailure_def WithMaxRetries_def
      task_WithRetryStrategy_def)

section \<open>The priority queue\<close>

text \<open>\<open>prio\<close> reads the priority of a task object; the queue holds references.\<close>

type_synonym taskQueue = "task_ref list"

definition taskQueue_Len :: "taskQueue \<Rightarrow> nat" where
  "taskQueue_Len q = length q"

definition taskQueue_Less :: "(task_ref \<Rightarrow> int) \<Rightarrow> taskQueue \<Rightarrow> nat \<Rightarrow> nat \<Rightarrow> bool" where
  "taskQueue_Less prio q i j \<longleftrightarrow> prio (q ! i) > prio (q ! j)"

definition taskQueue_Swap :: "taskQueue \<Rightarrow> nat \<Rightarrow> nat \<Rightarrow> taskQueue" where
  "taskQueue_Swap q i j = list_swap q i j"

definition taskQueue_Push :: "taskQueue \<Rightarrow> task_ref \<Rightarrow> taskQueue" where
  "taskQueue_Push q t = q @ [t]"

definition taskQueue_Pop :: "taskQueue \<Rightarrow> task_ref option \<times> taskQueue" where
  "taskQueue_Pop q = (if taskQueue_Len q = 0 then (None, q)
     else (Some (q ! (taskQueue_Len q - 1)), take (taskQueue_Len q - 1) q))"

definition taskHeap :: "(task_ref \<Rightarrow> int) \<Rightarrow> (taskQueue, task_ref) heap_interface" where
  "taskHeap prio = \<lparr>iLen = taskQueue_Len, iLess = taskQueue_Less prio, iSwap = taskQueue_Swap,
     iPush = taskQueue_Push, iPop = taskQueue_Pop\<rparr>"

text \<open>The heap orders by falling priority, so the interface's key is the negated priority.\<close>

interpretation tq: heap_impl "taskHeap prio" "\<lambda>q. q" "\<lambda>q. ()" "\<lambda>_ r. - prio r" "\<lambda>q. True" "\<lambda>q r. True"
  for prio
  by unfold_locales (auto simp: taskHeap_def taskQueue_Len_def taskQueue_Less_def taskQueue_Swap_def
    taskQueue_Push_def taskQueue_Pop_def last_conv_nth butlast_conv_take)

text \<open>The queue as the scheduler uses it.\<close>

lemma taskHeap_Push:
  assumes "tq.ordered prio q"
  shows "tq.ordered prio (heap_Push (taskHeap prio) q r)"
    and "mset (heap_Push (taskHeap prio) q r) = add_mset r (mset q)"
    and "length (heap_Push (taskHeap prio) q r) = Suc (length q)"
    and "set (heap_Push (taskHeap prio) q r) = insert r (set q)"
proof -
  show "tq.ordered prio (heap_Push (taskHeap prio) q r)" using tq.Push_correct(2) assms by blast
  show m: "mset (heap_Push (taskHeap prio) q r) = add_mset r (mset q)"
    using tq.Push_correct(4) assms by blast
  show "length (heap_Push (taskHeap prio) q r) = Suc (length q)"
    using m by (metis size_add_mset size_mset)
  show "set (heap_Push (taskHeap prio) q r) = insert r (set q)"
    using m by (metis set_mset_add_mset_insert set_mset_mset)
qed

lemma taskHeap_Pop:
  assumes "tq.ordered prio q" and "heap_Pop (taskHeap prio) q = Some (r, q')"
  shows "tq.ordered prio q'" and "mset q = add_mset r (mset q')" and "length q = Suc (length q')"
    and "set q' \<subseteq> set q" and "r \<in> set q" and "\<And>x. x \<in> set q \<Longrightarrow> prio x \<le> prio r"
proof -
  have ne: "q \<noteq> []" using assms(2) tq.Pop_empty [of "[]" prio] by auto
  from tq.Pop_correct [OF TrueI assms(1) ne] obtain q2 where p:
    "heap_Pop (taskHeap prio) q = Some (q ! 0, q2)" "tq.ordered prio q2"
    "mset q = add_mset (q ! 0) (mset q2)" by metis
  then have e: "r = q ! 0" "q' = q2" using assms(2) by simp_all
  show "tq.ordered prio q'" using p e by simp
  show m: "mset q = add_mset r (mset q')" using p e by simp
  show "length q = Suc (length q')" using m by (metis size_add_mset size_mset)
  have s: "set q = insert r (set q')" using m by (metis set_mset_add_mset_insert set_mset_mset)
  show "set q' \<subseteq> set q" "r \<in> set q" using s by auto
  show "\<And>x. x \<in> set q \<Longrightarrow> prio x \<le> prio r" using tq.ordered_min [OF assms(1)] by (simp add: e)
qed

lemma taskHeap_Pop_None: "heap_Pop (taskHeap prio) q = None \<longleftrightarrow> q = []" if "tq.ordered prio q"
proof
  assume n: "heap_Pop (taskHeap prio) q = None"
  show "q = []"
  proof (rule ccontr)
    assume "q \<noteq> []"
    then show False using tq.Pop_correct [OF TrueI that] n by force
  qed
qed (simp add: tq.Pop_empty)

lemma ordered_cong:
  assumes "tq.ordered prio q" and "\<And>r. r \<in> set q \<Longrightarrow> prio' r = prio r"
  shows "tq.ordered prio' q"
proof -
  have "map (\<lambda>r. - prio' r) q = map (\<lambda>r. - prio r) q" using assms(2) by simp
  then show ?thesis using assms(1) unfolding tq.ordered_def tq.keys_def by metis
qed

lemma ordered_Nil [simp]: "tq.ordered prio []"
  by (simp add: tq.ordered_def is_heap_def)

end
