(* ===== verification/Storage.thy ===== *)
theory Storage
  imports Task Timing_Wheel
begin

text \<open>
  The \<open>Storage\<close> interface of \<open>storage.go\<close> and its in-memory implementation. The interface is a
  record of operations on a state \<open>'st\<close>, what a Go interface value carries; the scheduler calls
  through it, so its theorems hold for every implementation. Errors are values of \<open>error\<close>.
\<close>

section \<open>Errors\<close>

datatype error =
    ErrSchedulerStopped | ErrQueueFull | ErrJobAlreadyRunning
  | ErrJobType string \<comment> \<open>job type not found in registry\<close>
  | ErrSaveWaiting error | ErrPersist error | ErrEnqueue error
  | ErrWheel wheel_error
  | ErrCronSpec string
  | ErrTaskNotFound string | ErrTaskNotFailed string
  | ErrWrap string error \<comment> \<open>\<open>fmt.Errorf\<close> with \<open>%w\<close>\<close>
  | ErrEmptyTaskID | ErrLeaseLost string
  | ErrBackend string \<comment> \<open>an error of the Redis client or of \<open>encoding/json\<close>\<close>

section \<open>Persisted data\<close>

record PersistentTask =
  p_ID :: string
  p_Key :: string
  p_Pool :: string
  p_TypeName :: string
  p_Payload :: string
  p_Priority :: int
  p_Timeout :: int
  p_Attempts :: int
  p_MaxRetries :: int
  p_RetryStrategy :: string
  p_DependsOn :: "string list"
  p_Dependencies :: "TaskDependency list"

record TaskInfo =
  i_ID :: string
  i_Key :: string
  i_Pool :: string
  i_Type :: string
  i_Status :: string
  i_Priority :: int
  i_Progress :: int

record HistoryFilter =
  f_ID :: string
  f_Type :: string
  f_Status :: string
  f_Query :: string
  f_Limit :: int

section \<open>The interface\<close>

text \<open>
  \<open>SubscribeCancel\<close> has no entry: a message that arrives on the subscription is a step of the
  scheduler (\<open>onCancel\<close>).
\<close>

record 'st Storage =
  st_Save :: "PersistentTask \<Rightarrow> 'st \<Rightarrow> error option \<times> 'st"
  st_Delete :: "string \<Rightarrow> 'st \<Rightarrow> error option \<times> 'st"
  st_LoadAll :: "'st \<Rightarrow> (error + PersistentTask list) \<times> 'st"
  st_Claim :: "string \<Rightarrow> string \<Rightarrow> int \<Rightarrow> 'st \<Rightarrow> (error + bool) \<times> 'st"
  st_Heartbeat :: "string \<Rightarrow> string \<Rightarrow> int \<Rightarrow> 'st \<Rightarrow> error option \<times> 'st"
  st_PublishCancel :: "string \<Rightarrow> 'st \<Rightarrow> error option \<times> 'st"
  st_SaveWaiting :: "PersistentTask \<Rightarrow> 'st \<Rightarrow> error option \<times> 'st"
  st_ResolveDependencies :: "string \<Rightarrow> TaskStatus \<Rightarrow> 'st \<Rightarrow> (error + PersistentTask list) \<times> 'st"
  st_Enqueue :: "PersistentTask \<Rightarrow> 'st \<Rightarrow> error option \<times> 'st"
  st_Dequeue :: "string \<Rightarrow> int \<Rightarrow> 'st \<Rightarrow> (error + PersistentTask option) \<times> 'st"
  st_AddToHistory :: "TaskInfo \<Rightarrow> int \<Rightarrow> 'st \<Rightarrow> error option \<times> 'st"
  st_GetHistory :: "HistoryFilter \<Rightarrow> 'st \<Rightarrow> (error + TaskInfo list) \<times> 'st"
  st_MarkCancelled :: "string \<Rightarrow> 'st \<Rightarrow> error option \<times> 'st"
  st_IsCancelled :: "string \<Rightarrow> 'st \<Rightarrow> (error + bool) \<times> 'st"
  st_CompleteTask :: "string \<Rightarrow> 'st \<Rightarrow> error option \<times> 'st"
  st_RecoverOrphaned :: "'st \<Rightarrow> (error + int) \<times> 'st"
  st_ScheduleDelayed :: "string \<Rightarrow> int \<Rightarrow> PersistentTask option \<Rightarrow> 'st \<Rightarrow> error option \<times> 'st"
  st_UnscheduleDelayed :: "string \<Rightarrow> 'st \<Rightarrow> error option \<times> 'st"
  st_PopDueDelayed :: "int \<Rightarrow> int \<Rightarrow> 'st \<Rightarrow> (error + PersistentTask list) \<times> 'st"

section \<open>In-memory storage\<close>

record InMemoryStorage =
  im_history :: "TaskInfo list"

definition im_AddToHistory :: "TaskInfo \<Rightarrow> int \<Rightarrow> InMemoryStorage \<Rightarrow> error option \<times> InMemoryStorage" where
  "im_AddToHistory t retention s =
     (let h = t # im_history s
      in (None, s\<lparr>im_history := (if length h > 100 then take 100 h else h)\<rparr>))"

text \<open>The \<open>continue\<close> conditions of \<open>GetHistory\<close>; this backend ignores \<open>Query\<close>.\<close>

definition im_skip :: "HistoryFilter \<Rightarrow> TaskInfo \<Rightarrow> bool" where
  "im_skip f t \<longleftrightarrow> f_ID f \<noteq> '''' \<and> i_ID t \<noteq> f_ID f \<or> f_Type f \<noteq> '''' \<and> i_Type t \<noteq> f_Type f \<or>
     f_Status f \<noteq> '''' \<and> i_Status t \<noteq> f_Status f"

text \<open>The loop with its early exit; \<open>res\<close> is the slice built so far.\<close>

fun history_loop :: "('a \<Rightarrow> bool) \<Rightarrow> int \<Rightarrow> 'a list \<Rightarrow> 'a list \<Rightarrow> 'a list" where
  "history_loop skip limit res [] = res"
| "history_loop skip limit res (t # ts) =
     (if skip t then history_loop skip limit res ts
      else let res1 = res @ [t]
           in if limit > 0 \<and> int (length res1) \<ge> limit then res1 else history_loop skip limit res1 ts)"

definition im_GetHistory ::
  "HistoryFilter \<Rightarrow> InMemoryStorage \<Rightarrow> (error + TaskInfo list) \<times> InMemoryStorage" where
  "im_GetHistory f s = (Inr (history_loop (im_skip f) (f_Limit f) [] (im_history s)), s)"

definition im_Storage :: "InMemoryStorage Storage" where
  "im_Storage = \<lparr>st_Save = (\<lambda>t s. (None, s)), st_Delete = (\<lambda>i s. (None, s)),
     st_LoadAll = (\<lambda>s. (Inr [], s)), st_Claim = (\<lambda>i inst d s. (Inr True, s)),
     st_Heartbeat = (\<lambda>i inst d s. (None, s)), st_PublishCancel = (\<lambda>i s. (None, s)),
     st_SaveWaiting = (\<lambda>t s. (None, s)), st_ResolveDependencies = (\<lambda>p st s. (Inr [], s)),
     st_Enqueue = (\<lambda>t s. (None, s)), st_Dequeue = (\<lambda>inst d s. (Inr None, s)),
     st_AddToHistory = im_AddToHistory, st_GetHistory = im_GetHistory,
     st_MarkCancelled = (\<lambda>i s. (None, s)), st_IsCancelled = (\<lambda>i s. (Inr False, s)),
     st_CompleteTask = (\<lambda>i s. (None, s)), st_RecoverOrphaned = (\<lambda>s. (Inr 0, s)),
     st_ScheduleDelayed = (\<lambda>i at t s. (None, s)), st_UnscheduleDelayed = (\<lambda>i s. (None, s)),
     st_PopDueDelayed = (\<lambda>now n s. (Inr [], s))\<rparr>"

section \<open>The history loop\<close>

lemma history_loop_unlimited:
  "limit \<le> 0 \<Longrightarrow> history_loop skip limit res ts = res @ filter (\<lambda>t. \<not> skip t) ts"
  by (induction ts arbitrary: res) (auto simp: Let_def)

lemma history_loop_limited:
  "0 < limit \<Longrightarrow> int (length res) < limit \<Longrightarrow>
   history_loop skip limit res ts = res @ take (nat limit - length res) (filter (\<lambda>t. \<not> skip t) ts)"
proof (induction ts arbitrary: res)
  case (Cons t ts)
  then show ?case
    by (cases "int (length (res @ [t])) \<ge> limit")
      (auto simp: Let_def take_Cons' Suc_diff_le nat_less_iff not_le
        split: nat_diff_split)
qed simp


section \<open>A contract on the backends\<close>

text \<open>
  What comes out of a storage was put in: when every task saved satisfies \<open>P\<close>, so does every task the
  storage hands out. \<open>inv\<close> is the backend's own invariant.
\<close>

locale storage_contract =
  fixes S :: "'st Storage" and P :: "PersistentTask \<Rightarrow> bool" and inv :: "'st \<Rightarrow> bool"
  assumes Save: "inv st \<Longrightarrow> P t \<Longrightarrow> inv (snd (st_Save S t st))"
    and Delete: "inv st \<Longrightarrow> inv (snd (st_Delete S i st))"
    and LoadAll: "inv st \<Longrightarrow> inv (snd (st_LoadAll S st))"
    and LoadAll_P: "inv st \<Longrightarrow> fst (st_LoadAll S st) = Inr ts \<Longrightarrow> t \<in> set ts \<Longrightarrow> P t"
    and Claim: "inv st \<Longrightarrow> inv (snd (st_Claim S i inst d st))"
    and Heartbeat: "inv st \<Longrightarrow> inv (snd (st_Heartbeat S i inst d st))"
    and PublishCancel: "inv st \<Longrightarrow> inv (snd (st_PublishCancel S i st))"
    and SaveWaiting: "inv st \<Longrightarrow> P t \<Longrightarrow> inv (snd (st_SaveWaiting S t st))"
    and ResolveDependencies: "inv st \<Longrightarrow> inv (snd (st_ResolveDependencies S i status st))"
    and ResolveDependencies_P:
      "inv st \<Longrightarrow> fst (st_ResolveDependencies S i status st) = Inr ts \<Longrightarrow> t \<in> set ts \<Longrightarrow> P t"
    and Enqueue: "inv st \<Longrightarrow> P t \<Longrightarrow> inv (snd (st_Enqueue S t st))"
    and Dequeue: "inv st \<Longrightarrow> inv (snd (st_Dequeue S inst d st))"
    and Dequeue_P: "inv st \<Longrightarrow> fst (st_Dequeue S inst d st) = Inr (Some t) \<Longrightarrow> P t"
    and AddToHistory: "inv st \<Longrightarrow> inv (snd (st_AddToHistory S info retention st))"
    and MarkCancelled: "inv st \<Longrightarrow> inv (snd (st_MarkCancelled S i st))"
    and IsCancelled: "inv st \<Longrightarrow> inv (snd (st_IsCancelled S i st))"
    and CompleteTask: "inv st \<Longrightarrow> inv (snd (st_CompleteTask S i st))"
    and RecoverOrphaned: "inv st \<Longrightarrow> inv (snd (st_RecoverOrphaned S st))"
    and UnscheduleDelayed: "inv st \<Longrightarrow> inv (snd (st_UnscheduleDelayed S i st))"

interpretation ims: storage_contract im_Storage P "\<lambda>_. True" for P
  by unfold_locales (auto simp: im_Storage_def)

end
