(* ===== verification/Cron.thy ===== *)
theory Cron
  imports Skedulr_Prelude
begin

text \<open>
  The cron matcher of \<open>cron.go\<close>: \<open>matchField\<close>, \<open>match\<close> and \<open>nextExecution\<close>, with the parts of
  Go's \<open>strings\<close>, \<open>strconv\<close> and \<open>time\<close> they use. A time is the number of nanoseconds since the
  Unix epoch. The local time zone is an argument \<open>zone\<close>: the offset east of UTC, in seconds, in
  force at a Unix second.
\<close>

section \<open>Strings\<close>

text \<open>\<open>unicode.IsSpace\<close> on ASCII characters.\<close>

definition isSpace :: "char \<Rightarrow> bool" where
  "isSpace c \<longleftrightarrow> c \<in> {CHR 0x09, CHR 0x0A, CHR 0x0B, CHR 0x0C, CHR 0x0D, CHR '' ''}"

text \<open>\<open>strings.Fields\<close>; \<open>cur\<close> is the field being read, reversed.\<close>

fun fields_loop :: "string \<Rightarrow> string \<Rightarrow> string list" where
  "fields_loop cur [] = (if cur = [] then [] else [rev cur])"
| "fields_loop cur (c # cs) =
     (if isSpace c then (if cur = [] then fields_loop [] cs else rev cur # fields_loop [] cs)
      else fields_loop (c # cur) cs)"

definition Fields :: "string \<Rightarrow> string list" where
  "Fields s = fields_loop [] s"

text \<open>\<open>strings.Split\<close> with a separator of one character.\<close>

fun Split :: "char \<Rightarrow> string \<Rightarrow> string list" where
  "Split sep [] = [[]]"
| "Split sep (c # cs) =
     (if c = sep then [] # Split sep cs
      else case Split sep cs of [] \<Rightarrow> [[c]] | p # ps \<Rightarrow> (c # p) # ps)"

fun Join :: "char \<Rightarrow> string list \<Rightarrow> string" where
  "Join sep [] = []"
| "Join sep [p] = p"
| "Join sep (p # q # ps) = p @ sep # Join sep (q # ps)"

text \<open>\<open>strconv.Itoa\<close> of a value that is not negative.\<close>

definition digit :: "nat \<Rightarrow> char" where
  "digit d = char_of (48 + d)"

fun digits :: "nat \<Rightarrow> string" where
  "digits n = (if n < 10 then [digit n] else digits (n div 10) @ [digit (n mod 10)])"

declare digits.simps [simp del]

definition Itoa :: "int \<Rightarrow> string" where
  "Itoa x = digits (nat x)"

section \<open>Calendar\<close>

text \<open>
  The proleptic Gregorian calendar of package \<open>time\<close>. \<open>yday_start\<close> is the day number of the
  first of March of year \<open>y\<close> (years begin in March, so the leap day is the last one), counted from
  0000-03-01.
\<close>

definition yday_start :: "int \<Rightarrow> int" where
  "yday_start y = 365 * y + y div 4 - y div 100 + y div 400"

definition epoch_day :: int where
  "epoch_day = 719468"

text \<open>Days from the first of March to the first day of month \<open>mp\<close>, \<open>0\<close> for March.\<close>

definition month_start :: "int \<Rightarrow> int" where
  "month_start mp = (153 * mp + 2) div 5"

text \<open>The day number (since 1970-01-01) of a date: the reference definition.\<close>

definition civil_day :: "int \<Rightarrow> int \<Rightarrow> int \<Rightarrow> int" where
  "civil_day y m d = (let y' = (if m \<le> 2 then y - 1 else y); mp = (m + 9) mod 12
     in yday_start y' + month_start mp + (d - 1) - epoch_day)"

text \<open>The date of a day number.\<close>

definition civil_of_day :: "int \<Rightarrow> int \<times> int \<times> int" where
  "civil_of_day day =
     (let z = day + epoch_day;
          era = z div 146097;
          doe = z mod 146097;
          yoe = (doe - doe div 1460 + doe div 36524 - doe div 146096) div 365;
          doy = doe - (365 * yoe + yoe div 4 - yoe div 100);
          mp = (5 * doy + 2) div 153;
          d = doy - month_start mp + 1;
          m = (if mp < 10 then mp + 3 else mp - 9)
      in (yoe + era * 400 + (if m \<le> 2 then 1 else 0), m, d))"

definition nanos :: int where
  "nanos = 1000000000"

definition minute_ns :: int where
  "minute_ns = 60000000000"

text \<open>Seconds since the epoch on the local clock.\<close>

definition local_sec :: "(int \<Rightarrow> int) \<Rightarrow> int \<Rightarrow> int" where
  "local_sec zone t = t div nanos + zone (t div nanos)"

definition Minute :: "(int \<Rightarrow> int) \<Rightarrow> int \<Rightarrow> int" where
  "Minute zone t = local_sec zone t div 60 mod 60"

definition Hour :: "(int \<Rightarrow> int) \<Rightarrow> int \<Rightarrow> int" where
  "Hour zone t = local_sec zone t div 3600 mod 24"

definition Day :: "(int \<Rightarrow> int) \<Rightarrow> int \<Rightarrow> int" where
  "Day zone t = (case civil_of_day (local_sec zone t div 86400) of (y, m, d) \<Rightarrow> d)"

definition Month :: "(int \<Rightarrow> int) \<Rightarrow> int \<Rightarrow> int" where
  "Month zone t = (case civil_of_day (local_sec zone t div 86400) of (y, m, d) \<Rightarrow> m)"

text \<open>\<open>0\<close> is Sunday; 1970-01-01 was a Thursday.\<close>

definition Weekday :: "(int \<Rightarrow> int) \<Rightarrow> int \<Rightarrow> int" where
  "Weekday zone t = (local_sec zone t div 86400 + 4) mod 7"

text \<open>\<open>t.Truncate(time.Minute)\<close>: Go's zero time is a whole minute before the epoch.\<close>

definition TruncateMinute :: "int \<Rightarrow> int" where
  "TruncateMinute t = floor_to minute_ns t"

section \<open>Matching\<close>

text \<open>The loop of \<open>matchField\<close> over the parts.\<close>

fun matchParts :: "string \<Rightarrow> string list \<Rightarrow> bool" where
  "matchParts val [] = False"
| "matchParts val (p # ps) = (if p = val then True else matchParts val ps)"

definition matchField :: "string \<Rightarrow> string \<Rightarrow> bool" where
  "matchField val pattern = (if pattern = ''*'' then True else matchParts val (Split CHR '','' pattern))"

text \<open>The fields are read by index; the callers pass five of them.\<close>

definition cron_match :: "(int \<Rightarrow> int) \<Rightarrow> int \<Rightarrow> string list \<Rightarrow> bool" where
  "cron_match zone t fs \<longleftrightarrow>
     matchField (Itoa (Minute zone t)) (fs ! 0) \<and> matchField (Itoa (Hour zone t)) (fs ! 1) \<and>
     matchField (Itoa (Day zone t)) (fs ! 2) \<and> matchField (Itoa (Month zone t)) (fs ! 3) \<and>
     matchField (Itoa (Weekday zone t)) (fs ! 4)"

text \<open>The loop of \<open>nextExecution\<close>: \<open>i\<close> is its counter, \<open>None\<close> that the bound was reached.\<close>

function nextExecution_loop :: "(int \<Rightarrow> int) \<Rightarrow> string list \<Rightarrow> int \<Rightarrow> int \<Rightarrow> int option" where
  "nextExecution_loop zone fs i cur =
     (if i < 525600 then
        if cron_match zone cur fs then Some cur
        else nextExecution_loop zone fs (i + 1) (cur + minute_ns)
      else None)"
  by pat_completeness auto
termination by (relation "measure (\<lambda>(zone, fs, i, cur). nat (525600 - i))") auto

declare nextExecution_loop.simps [simp del]

definition nextExecution :: "(int \<Rightarrow> int) \<Rightarrow> int \<Rightarrow> string list \<Rightarrow> int" where
  "nextExecution zone start fs =
     (case nextExecution_loop zone fs 0 (start + minute_ns) of
        Some t \<Rightarrow> t
      | None \<Rightarrow> start + 365 * 24 * 60 * minute_ns)"


section \<open>Facts about strings\<close>

lemma Split_not_Nil [simp]: "Split sep s \<noteq> []"
  by (induction s) (auto split: list.splits)

lemma Join_Cons: "ps \<noteq> [] \<Longrightarrow> Join sep (p # ps) = p @ sep # Join sep ps"
  by (cases ps) auto

text \<open>\<open>Split\<close> and \<open>Join\<close> are inverse on parts without the separator.\<close>

lemma Join_Split: "Join sep (Split sep s) = s"
proof (induction s)
  case (Cons c cs)
  obtain p ps where "Split sep cs = p # ps" by (cases "Split sep cs") auto
  then show ?case using Cons by (cases ps) auto
qed simp

lemma Split_no_sep: "sep \<notin> set p \<Longrightarrow> Split sep p = [p]"
  by (induction p) auto

lemma Split_append: "sep \<notin> set p \<Longrightarrow> Split sep (p @ sep # s) = p # Split sep s"
  by (induction p) auto

lemma Split_Join:
  assumes "ps \<noteq> []" and "\<And>p. p \<in> set ps \<Longrightarrow> sep \<notin> set p"
  shows "Split sep (Join sep ps) = ps"
  using assms
proof (induction sep ps rule: Join.induct)
  case (2 sep p)
  then show ?case by (simp add: Split_no_sep)
next
  case (3 sep p q ps)
  then show ?case by (simp add: Split_append)
qed simp

lemma matchParts_iff: "matchParts val ps \<longleftrightarrow> val \<in> set ps"
  by (induction ps) auto

lemma matchField_iff: "matchField val pat \<longleftrightarrow> pat = ''*'' \<or> val \<in> set (Split CHR '','' pat)"
  by (simp add: matchField_def matchParts_iff)

section \<open>Decimal numerals\<close>

definition digit_val :: "char \<Rightarrow> nat" where
  "digit_val c = of_char c - 48"

definition digits_val :: "string \<Rightarrow> nat" where
  "digits_val ds = foldl (\<lambda>v c. 10 * v + digit_val c) 0 ds"

lemma digit_val_digit [simp]: "d < 10 \<Longrightarrow> digit_val (digit d) = d"
  by (simp add: digit_val_def digit_def)

lemma digits_val_digits [simp]: "digits_val (digits n) = n"
proof (induction n rule: digits.induct)
  case (1 n)
  then show ?case by (cases "n < 10") (simp_all add: digits.simps [of n] digits_val_def)
qed

lemma Itoa_inj: "0 \<le> x \<Longrightarrow> 0 \<le> y \<Longrightarrow> Itoa x = Itoa y \<longleftrightarrow> x = y"
  unfolding Itoa_def by (metis digits_val_digits eq_nat_nat_iff)

lemma of_char_digit: "d < 10 \<Longrightarrow> (of_char (digit d) :: nat) = 48 + d"
  by (simp add: digit_def)

lemma digit_neq: "d < 10 \<Longrightarrow> digit d \<noteq> CHR '',''" "d < 10 \<Longrightarrow> digit d \<noteq> CHR ''*''"
  using of_char_digit [of d] by (auto dest: arg_cong [where f = "of_char :: char \<Rightarrow> nat"])

lemma digits_no_comma: "CHR '','' \<notin> set (digits n)"
proof (induction n rule: digits.induct)
  case (1 n)
  then show ?case using digit_neq(1) [of n] digit_neq(1) [of "n mod 10"]
    by (cases "n < 10") (simp_all add: digits.simps [of n])
qed

lemma digits_not_star: "digits n \<noteq> ''*''"
proof
  assume "digits n = ''*''"
  then have "n = digits_val ''*''" by (metis digits_val_digits)
  then have "n = 0" by (simp add: digits_val_def digit_val_def)
  with \<open>digits n = ''*''\<close> show False using digit_neq(2) [of 0] by (simp add: digits.simps)
qed

text \<open>A field written as a list of numbers matches exactly these numbers.\<close>

lemma matchField_numbers:
  assumes "ns \<noteq> []" and "\<And>n. n \<in> set ns \<Longrightarrow> 0 \<le> n" and "0 \<le> v"
  shows "matchField (Itoa v) (Join CHR '','' (map Itoa ns)) \<longleftrightarrow> v \<in> set ns"
proof -
  have s: "Split CHR '','' (Join CHR '','' (map Itoa ns)) = map Itoa ns"
    using assms(1) by (intro Split_Join) (auto simp: Itoa_def digits_no_comma)
  have "Join CHR '','' (map Itoa ns) \<noteq> ''*''"
  proof
    assume j: "Join CHR '','' (map Itoa ns) = ''*''"
    then have "map Itoa ns = [''*'']" using s by (simp add: Split_no_sep)
    then show False using digits_not_star by (auto simp: Itoa_def)
  qed
  then show ?thesis using s assms(2,3) by (auto simp: matchField_iff Itoa_inj)
qed

section \<open>The next execution\<close>

lemma nextExecution_loop_Some:
  assumes "nextExecution_loop zone fs i t0 = Some t" and "0 \<le> i"
  shows "\<exists>k. 0 \<le> k \<and> k < 525600 - i \<and> t = t0 + k * minute_ns \<and> cron_match zone t fs \<and>
    (\<forall>j. 0 \<le> j \<and> j < k \<longrightarrow> \<not> cron_match zone (t0 + j * minute_ns) fs)"
  using assms
proof (induction zone fs i t0 rule: nextExecution_loop.induct)
  case (1 zone fs i t0)
  show ?case
  proof (cases "cron_match zone t0 fs")
    case True
    then show ?thesis using 1(2)
      by (intro exI [of _ 0]) (auto simp: nextExecution_loop.simps [of zone fs i t0] split: if_splits)
  next
    case False
    then have i: "i < 525600" and r: "nextExecution_loop zone fs (i + 1) (t0 + minute_ns) = Some t"
      using 1(2) by (simp_all add: nextExecution_loop.simps [of zone fs i t0] split: if_splits)
    from 1(1) [OF i False r] 1(3) obtain k where k: "0 \<le> k" "k < 525600 - (i + 1)"
      "t = t0 + minute_ns + k * minute_ns" "cron_match zone t fs"
      "\<forall>j. 0 \<le> j \<and> j < k \<longrightarrow> \<not> cron_match zone (t0 + minute_ns + j * minute_ns) fs" by auto
    have "\<not> cron_match zone (t0 + j * minute_ns) fs" if "0 \<le> j" "j < k + 1" for j
    proof (cases "j = 0")
      case False
      then have "\<not> cron_match zone (t0 + minute_ns + (j - 1) * minute_ns) fs" using k(5) that by auto
      then show ?thesis by (simp add: algebra_simps)
    qed (use False in simp)
    then show ?thesis using k by (intro exI [of _ "k + 1"]) (auto simp: algebra_simps)
  qed
qed

lemma nextExecution_loop_None:
  assumes "nextExecution_loop zone fs i t0 = None" and "0 \<le> j" and "j < 525600 - i"
  shows "\<not> cron_match zone (t0 + j * minute_ns) fs"
  using assms
proof (induction zone fs i t0 arbitrary: j rule: nextExecution_loop.induct)
  case (1 zone fs i t0)
  then have i: "i < 525600" by simp
  then have f: "\<not> cron_match zone t0 fs" and r: "nextExecution_loop zone fs (i + 1) (t0 + minute_ns) = None"
    using 1(2) by (simp_all add: nextExecution_loop.simps [of zone fs i t0] split: if_splits)
  show ?case
  proof (cases "j = 0")
    case False
    then have "\<not> cron_match zone (t0 + minute_ns + (j - 1) * minute_ns) fs"
      using 1(1) [OF i f r, of "j - 1"] 1(3,4) by simp
    then show ?thesis by (simp add: algebra_simps)
  qed (use f in simp)
qed

end
