(* ===== verification/Scheduler.thy ===== *)
theory Scheduler
  imports Storage Cron
begin

text \<open>
  The scheduler of \<open>scheduler.go\<close> and the scheduling half of \<open>cron.go\<close>: its state and one
  definition per operation.

  Go objects shared through pointers are explicit: \<open>s_objs\<close> holds every \<open>task\<close> object, and the
  queue, the \<open>tasks\<close> map and the wheel's callbacks hold references into it, so that two references
  to one object see each other's writes and two objects with one ID stay apart. \<open>s_ctxs\<close> holds one
  flag per \<open>context.Context\<close>: whether it was cancelled. A callback parked in the wheel is a value of
  \<open>wheel_cb\<close>. Every operation is one atomic step, but \<open>runTask\<close> is cut where it waits for the job.

  The storage backend, the retry strategies, the local time zone, the states the storage may start in
  and what other users of the shared storage may do to it come in through \<open>env\<close>; times are
  in nanoseconds since the epoch, durations in nanoseconds; IDs made by \<open>generateId\<close> are arguments.
  Log lines are left out: of the logger the state keeps only whether one is set.
\<close>

section \<open>State\<close>

datatype wheel_cb =
    CbRetry task_ref
  | CbOnce task_ref
  | CbRecurring task_ref int
  | CbCron task_ref "string list"

record chan =
  ch_cap :: nat
  ch_buf :: "task_ref list"
  ch_closed :: bool

record run =
  r_task :: task_ref
  r_ctx :: ctx_ref
  r_delay :: int

text \<open>A worker goroutine: before it read its channel, waiting (with or without a channel), in \<open>runTask\<close>, gone.\<close>

datatype worker_state = WStarting | WIdle bool | WRunning bool run | WExited

record worker =
  w_pool :: string
  w_state :: worker_state

record ('job, 'rs, 'st) Scheduler =
  s_objs :: "('job, 'rs) task list"
  s_ctxs :: "bool list"
  s_workers :: "worker list"
  s_dispatch :: "(task_ref \<times> string) option"
  s_queue :: taskQueue
  s_tasks :: "task_ref gomap"
  s_poolQueues :: "chan gomap"
  s_poolWorkers :: "int gomap"
  s_stop :: bool
  s_stopped :: bool
  s_maxWorkers :: int
  s_currentWorkers :: int
  s_queueSize :: int
  s_successCount :: int
  s_failureCount :: int
  s_deadCount :: int
  s_panicCount :: int
  s_defaultTimeout :: int
  s_retryStrategy :: "'rs option"
  s_middlewares :: "('job \<Rightarrow> 'job) list"
  s_logger :: bool
  s_storage :: 'st
  s_registry :: "'job gomap"
  s_maxQueueSize :: int
  s_activeKeys :: "unit gomap"
  s_instanceID :: string
  s_leaseDuration :: int
  s_historyRetention :: int
  s_paused :: bool
  s_recoveryInterval :: int
  s_poolControl :: "nat gomap"
  s_wheel :: "wheel_cb TimingWheel"
  s_wheelTick :: int
  s_wheelSize :: int

record ('rs, 'st) env =
  env_storage :: "'st Storage"
  env_NextDelay :: "'rs \<Rightarrow> int \<Rightarrow> int \<times> bool"
  env_zone :: "int \<Rightarrow> int"
  env_init :: "'st \<Rightarrow> bool"
  env_other :: "'st \<Rightarrow> 'st \<Rightarrow> bool"

section \<open>Objects, contexts, storage calls\<close>

definition task_at :: "('job, 'rs, 'st) Scheduler \<Rightarrow> task_ref \<Rightarrow> ('job, 'rs) task" where
  "task_at s r = s_objs s ! r"

definition upd_task ::
  "task_ref \<Rightarrow> (('job, 'rs) task \<Rightarrow> ('job, 'rs) task) \<Rightarrow> ('job, 'rs, 'st) Scheduler \<Rightarrow> ('job, 'rs, 'st) Scheduler" where
  "upd_task r f s = s\<lparr>s_objs := (s_objs s)[r := f (s_objs s ! r)]\<rparr>"

definition alloc_task ::
  "('job, 'rs) task \<Rightarrow> ('job, 'rs, 'st) Scheduler \<Rightarrow> task_ref \<times> ('job, 'rs, 'st) Scheduler" where
  "alloc_task t s = (length (s_objs s), s\<lparr>s_objs := s_objs s @ [t]\<rparr>)"

text \<open>\<open>if trackTask, ok := s.tasks[id]; ok { ... }\<close>\<close>

definition upd_tracked ::
  "string \<Rightarrow> (('job, 'rs) task \<Rightarrow> ('job, 'rs) task) \<Rightarrow> ('job, 'rs, 'st) Scheduler \<Rightarrow> ('job, 'rs, 'st) Scheduler" where
  "upd_tracked tid f s = (case gm_get (s_tasks s) tid of None \<Rightarrow> s | Some r \<Rightarrow> upd_task r f s)"

text \<open>\<open>context.WithCancel\<close> and \<open>WithTimeout\<close>: a new context, not cancelled.\<close>

definition new_ctx :: "('job, 'rs, 'st) Scheduler \<Rightarrow> ctx_ref \<times> ('job, 'rs, 'st) Scheduler" where
  "new_ctx s = (length (s_ctxs s), s\<lparr>s_ctxs := s_ctxs s @ [False]\<rparr>)"

text \<open>Calling a \<open>context.CancelFunc\<close>, when there is one.\<close>

definition call_cancel :: "ctx_ref option \<Rightarrow> ('job, 'rs, 'st) Scheduler \<Rightarrow> ('job, 'rs, 'st) Scheduler" where
  "call_cancel c s = (case c of None \<Rightarrow> s | Some i \<Rightarrow> s\<lparr>s_ctxs := (s_ctxs s)[i := True]\<rparr>)"

definition store_call ::
  "('st \<Rightarrow> 'a \<times> 'st) \<Rightarrow> ('job, 'rs, 'st) Scheduler \<Rightarrow> 'a \<times> ('job, 'rs, 'st) Scheduler" where
  "store_call f s = (case f (s_storage s) of (a, st) \<Rightarrow> (a, s\<lparr>s_storage := st\<rparr>))"

text \<open>A storage call whose result is ignored.\<close>

definition store_do ::
  "('st \<Rightarrow> 'a \<times> 'st) \<Rightarrow> ('job, 'rs, 'st) Scheduler \<Rightarrow> ('job, 'rs, 'st) Scheduler" where
  "store_do f s = snd (store_call f s)"

definition prio :: "('job, 'rs, 'st) Scheduler \<Rightarrow> task_ref \<Rightarrow> int" where
  "prio s r = t_priority (task_at s r)"

text \<open>\<open>heap.Push(&s.queue, t); atomic.AddInt64(&s.queueSize, 1)\<close>\<close>

definition push_queue :: "task_ref \<Rightarrow> ('job, 'rs, 'st) Scheduler \<Rightarrow> ('job, 'rs, 'st) Scheduler" where
  "push_queue r s = s\<lparr>s_queue := heap_Push (taskHeap (prio s)) (s_queue s) r, s_queueSize := s_queueSize s + 1\<rparr>"

definition track :: "task_ref \<Rightarrow> ('job, 'rs, 'st) Scheduler \<Rightarrow> ('job, 'rs, 'st) Scheduler" where
  "track r s = s\<lparr>s_tasks := gm_put (t_id (task_at s r)) r (s_tasks s)\<rparr>"

definition untrack :: "string \<Rightarrow> ('job, 'rs, 'st) Scheduler \<Rightarrow> ('job, 'rs, 'st) Scheduler" where
  "untrack tid s = s\<lparr>s_tasks := gm_del tid (s_tasks s)\<rparr>"

text \<open>\<open>if t.key != "" { delete(s.activeKeys, t.key) }\<close>\<close>

definition release_key :: "string \<Rightarrow> ('job, 'rs, 'st) Scheduler \<Rightarrow> ('job, 'rs, 'st) Scheduler" where
  "release_key key s = (if key = '''' then s else s\<lparr>s_activeKeys := gm_del key (s_activeKeys s)\<rparr>)"

text \<open>\<open>t.UnixMilli()\<close> of a time in nanoseconds.\<close>

definition UnixMilli :: "int \<Rightarrow> int" where
  "UnixMilli t = t div 1000000"

definition wheel_Schedule ::
  "string \<Rightarrow> int \<Rightarrow> wheel_cb \<Rightarrow> ('job, 'rs, 'st) Scheduler \<Rightarrow>
   (wheel_error option \<times> ('job, 'rs, 'st) Scheduler) go" where
  "wheel_Schedule tid at cb s =
     go_bind (TimingWheel_Schedule tid (UnixMilli at) (Some cb) (s_wheel s))
       (\<lambda>(er, w). Inr (er, s\<lparr>s_wheel := w\<rparr>))"

section \<open>History, registry\<close>

definition task_info :: "('job, 'rs) task \<Rightarrow> TaskInfo" where
  "task_info t = \<lparr>i_ID = t_id t, i_Key = t_key t, i_Pool = t_pool t, i_Type = t_typeName t,
     i_Status = TaskStatus_String (t_status t), i_Priority = t_priority t, i_Progress = t_progress t\<rparr>"

definition recordHistory ::
  "('rs, 'st) env \<Rightarrow> task_ref \<Rightarrow> ('job, 'rs, 'st) Scheduler \<Rightarrow> ('job, 'rs, 'st) Scheduler" where
  "recordHistory E r s =
     store_do (st_AddToHistory (env_storage E) (task_info (task_at s r)) (s_historyRetention s)) s"

definition RegisterJob :: "string \<Rightarrow> 'job \<Rightarrow> ('job, 'rs, 'st) Scheduler \<Rightarrow> ('job, 'rs, 'st) Scheduler" where
  "RegisterJob name job s = s\<lparr>s_registry := gm_put name job (s_registry s)\<rparr>"

definition getJob :: "string \<Rightarrow> ('job, 'rs, 'st) Scheduler \<Rightarrow> 'job option" where
  "getJob typeName s = gm_get (s_registry s) typeName"

definition Use :: "('job \<Rightarrow> 'job) list \<Rightarrow> ('job, 'rs, 'st) Scheduler \<Rightarrow> ('job, 'rs, 'st) Scheduler" where
  "Use mw s = s\<lparr>s_middlewares := s_middlewares s @ mw\<rparr>"

text \<open>The loop in \<open>runTask\<close> that applies the middlewares, the last one first.\<close>

definition apply_middlewares :: "('job \<Rightarrow> 'job) list \<Rightarrow> 'job \<Rightarrow> 'job" where
  "apply_middlewares mws job = foldl (\<lambda>j mw. mw j) job (rev mws)"

definition Status :: "string \<Rightarrow> ('job, 'rs, 'st) Scheduler \<Rightarrow> TaskStatus" where
  "Status tid s = (case gm_get (s_tasks s) tid of Some r \<Rightarrow> t_status (task_at s r) | None \<Rightarrow> StatusUnknown)"

section \<open>Submit\<close>

definition to_persistent :: "('job, 'rs) task \<Rightarrow> PersistentTask" where
  "to_persistent t = \<lparr>p_ID = t_id t, p_Key = t_key t, p_Pool = t_pool t, p_TypeName = t_typeName t,
     p_Payload = t_payload t, p_Priority = t_priority t, p_Timeout = t_timeout t,
     p_Attempts = t_attempts t, p_MaxRetries = t_maxRetries t, p_RetryStrategy = '''',
     p_DependsOn = t_dependsOn t, p_Dependencies = t_dependencies t\<rparr>"

text \<open>The backpressure and overlap checks; they come before any change of state.\<close>

definition submit_refuse :: "('job, 'rs) task \<Rightarrow> ('job, 'rs, 'st) Scheduler \<Rightarrow> error option" where
  "submit_refuse t s =
     (if s_stopped s then Some ErrSchedulerStopped
      else if gm_len (s_tasks s) \<ge> s_maxQueueSize s then Some ErrQueueFull
      else if t_key t \<noteq> '''' \<and> gm_get (s_activeKeys s) (t_key t) \<noteq> None then Some ErrJobAlreadyRunning
      else None)"

text \<open>Take the key, set the default retry strategy and the status.\<close>

definition submit_admit :: "task_ref \<Rightarrow> ('job, 'rs, 'st) Scheduler \<Rightarrow> ('job, 'rs, 'st) Scheduler" where
  "submit_admit r s =
     (let key = t_key (task_at s r);
          s1 = (if key = '''' then s else s\<lparr>s_activeKeys := gm_put key () (s_activeKeys s)\<rparr>)
      in upd_task r (\<lambda>t. t\<lparr>t_retryStrategy := (case t_retryStrategy t of None \<Rightarrow> s_retryStrategy s | rs \<Rightarrow> rs),
           t_status := StatusQueued\<rparr>) s1)"

text \<open>Link the job from the registry when the task has none.\<close>

definition submit_link :: "task_ref \<Rightarrow> ('job, 'rs, 'st) Scheduler \<Rightarrow> error option \<times> ('job, 'rs, 'st) Scheduler" where
  "submit_link r s =
     (let t = task_at s r
      in if t_job t = None \<and> t_typeName t \<noteq> '''' then
           (case gm_get (s_registry s) (t_typeName t) of
              None \<Rightarrow> (Some (ErrJobType (t_typeName t)), s)
            | Some job \<Rightarrow> (None, upd_task r (\<lambda>t. t\<lparr>t_job := Some job\<rparr>) s))
         else (None, s))"

text \<open>The end of \<open>Submit\<close>: track the task and push it.\<close>

definition submit_enqueue :: "task_ref \<Rightarrow> ('job, 'rs, 'st) Scheduler \<Rightarrow> (error + string) \<times> ('job, 'rs, 'st) Scheduler" where
  "submit_enqueue r s = (Inr (t_id (task_at s r)), push_queue r (track r s))"

text \<open>Persist a named job: park it when it has dependencies, else save and enqueue it.\<close>

definition submit_persist ::
  "('rs, 'st) env \<Rightarrow> task_ref \<Rightarrow> ('job, 'rs, 'st) Scheduler \<Rightarrow> (error + string) \<times> ('job, 'rs, 'st) Scheduler" where
  "submit_persist E r s =
     (let t = task_at s r; pt = to_persistent t
      in if t_typeName t = '''' then submit_enqueue r s
         else if t_dependsOn t \<noteq> [] \<or> t_dependencies t \<noteq> [] then
           (case store_call (st_SaveWaiting (env_storage E) pt) s of
              (Some err, s1) \<Rightarrow> (Inl (ErrSaveWaiting err), s1)
            | (None, s1) \<Rightarrow> (Inr (t_id t), track r s1))
         else
           (case store_call (st_Save (env_storage E) pt) s of
              (Some err, s1) \<Rightarrow> (Inl (ErrPersist err), s1)
            | (None, s1) \<Rightarrow>
                (case store_call (st_Enqueue (env_storage E) pt) s1 of
                   (Some err, s2) \<Rightarrow> (Inl (ErrEnqueue err), s2)
                 | (None, s2) \<Rightarrow> submit_enqueue r s2)))"

definition Submit ::
  "('rs, 'st) env \<Rightarrow> task_ref \<Rightarrow> ('job, 'rs, 'st) Scheduler \<Rightarrow> (error + string) \<times> ('job, 'rs, 'st) Scheduler" where
  "Submit E r s =
     (case submit_refuse (task_at s r) s of
        Some err \<Rightarrow> (Inl err, s)
      | None \<Rightarrow> (case submit_link r (submit_admit r s) of
                  (Some err, s1) \<Rightarrow> (Inl err, s1)
                | (None, s1) \<Rightarrow> submit_persist E r s1))"

section \<open>Workflows\<close>

definition ready_task :: "PersistentTask \<Rightarrow> 'job \<Rightarrow> ('job, 'rs) task" where
  "ready_task rt job = zero_task\<lparr>t_id := p_ID rt, t_key := p_Key rt, t_typeName := p_TypeName rt,
     t_payload := p_Payload rt, t_priority := p_Priority rt, t_timeout := p_Timeout rt,
     t_attempts := p_Attempts rt, t_maxRetries := p_MaxRetries rt, t_job := Some job,
     t_status := StatusQueued\<rparr>"

definition submit_ready ::
  "('rs, 'st) env \<Rightarrow> PersistentTask \<Rightarrow> ('job, 'rs, 'st) Scheduler \<Rightarrow> ('job, 'rs, 'st) Scheduler" where
  "submit_ready E rt s =
     (case getJob (p_TypeName rt) s of
        None \<Rightarrow> s
      | Some job \<Rightarrow> (case alloc_task (ready_task rt job) s of (r, s1) \<Rightarrow> snd (Submit E r s1)))"

definition resolveWorkflow ::
  "('rs, 'st) env \<Rightarrow> string \<Rightarrow> TaskStatus \<Rightarrow> ('job, 'rs, 'st) Scheduler \<Rightarrow> ('job, 'rs, 'st) Scheduler" where
  "resolveWorkflow E tid status s =
     (case store_call (st_ResolveDependencies (env_storage E) tid status) s of
        (Inl err, s1) \<Rightarrow> s1
      | (Inr ready, s1) \<Rightarrow> fold (submit_ready E) ready s1)"

section \<open>Failures\<close>

text \<open>The three outcomes of \<open>handleFailure\<close>, after the failure was counted.\<close>

definition fail_dead ::
  "('rs, 'st) env \<Rightarrow> task_ref \<Rightarrow> ('job, 'rs, 'st) Scheduler \<Rightarrow> ('job, 'rs, 'st) Scheduler" where
  "fail_dead E r s =
     (let t = task_at s r;
          s1 = upd_tracked (t_id t) (\<lambda>x. x\<lparr>t_status := StatusDead\<rparr>) (s\<lparr>s_deadCount := s_deadCount s + 1\<rparr>);
          s2 = (if t_typeName t = '''' then s1
                else resolveWorkflow E (t_id t) StatusDead (resolveWorkflow E (t_id t) StatusFailed
                  (store_do (st_CompleteTask (env_storage E) (t_id t))
                    (store_do (st_Save (env_storage E)
                       ((to_persistent t)\<lparr>p_DependsOn := [], p_Dependencies := []\<rparr>)) s1))))
      in recordHistory E r s2)"

definition retry_task :: "string \<Rightarrow> ('job, 'rs) task \<Rightarrow> ('job, 'rs) task" where
  "retry_task newid t = (NewTask newid (t_job t) (t_priority t) (t_timeout t))\<lparr>t_id := t_id t,
     t_attempts := t_attempts t + 1, t_maxRetries := t_maxRetries t,
     t_retryStrategy := t_retryStrategy t, t_pool := t_pool t, t_typeName := t_typeName t,
     t_payload := t_payload t\<rparr>"

definition fail_retry ::
  "string \<Rightarrow> int \<Rightarrow> task_ref \<Rightarrow> ('job, 'rs, 'st) Scheduler \<Rightarrow> ('job, 'rs, 'st) Scheduler go" where
  "fail_retry newid at r s =
     (let t = task_at s r;
          s1 = upd_tracked (t_id t) (\<lambda>x. x\<lparr>t_status := StatusRetrying\<rparr>) s
      in case alloc_task (retry_task newid t) s1 of
           (r', s2) \<Rightarrow> go_bind (wheel_Schedule (t_id t) at (CbRetry r') s2) (\<lambda>(er, s3). Inr s3))"

definition fail_final ::
  "('rs, 'st) env \<Rightarrow> task_ref \<Rightarrow> ('job, 'rs, 'st) Scheduler \<Rightarrow> ('job, 'rs, 'st) Scheduler" where
  "fail_final E r s =
     (let t = task_at s r;
          s1 = upd_tracked (t_id t) (\<lambda>x. x\<lparr>t_status := StatusFailed\<rparr>) s;
          s2 = (if t_typeName t = '''' then s1 else resolveWorkflow E (t_id t) StatusFailed s1)
      in recordHistory E r s2)"

text \<open>The delay and the decision of the task's strategy, when there is one.\<close>

definition retry_decision :: "('rs, 'st) env \<Rightarrow> ('job, 'rs) task \<Rightarrow> int option" where
  "retry_decision E t = (case t_retryStrategy t of
     None \<Rightarrow> None
   | Some rs \<Rightarrow> (case env_NextDelay E rs (t_attempts t) of (delay, retry) \<Rightarrow> if retry then Some delay else None))"

definition handleFailure ::
  "('rs, 'st) env \<Rightarrow> int \<Rightarrow> string \<Rightarrow> task_ref \<Rightarrow> ('job, 'rs, 'st) Scheduler \<Rightarrow> ('job, 'rs, 'st) Scheduler go" where
  "handleFailure E now newid r s =
     (let s1 = s\<lparr>s_failureCount := s_failureCount s + 1\<rparr>; t = task_at s1 r
      in if t_maxRetries t > 0 \<and> t_attempts t \<ge> t_maxRetries t then Inr (fail_dead E r s1)
         else case retry_decision E t of
                Some delay \<Rightarrow> fail_retry newid (now + delay) r s1
              | None \<Rightarrow> Inr (fail_final E r s1))"

section \<open>Running a task\<close>

text \<open>
  \<open>runTask\<close> up to the start of the job: \<open>None\<close> when the task is gone or cancelled. \<open>cancel()\<close> on
  the early return cancels a context nobody holds.
\<close>

definition runTask_start ::
  "('rs, 'st) env \<Rightarrow> task_ref \<Rightarrow> ('job, 'rs, 'st) Scheduler \<Rightarrow> run option \<times> ('job, 'rs, 'st) Scheduler" where
  "runTask_start E r s =
     (let t = task_at s r;
          delay = (if t_timeout t = 0 then s_defaultTimeout s else t_timeout t)
      in case gm_get (s_tasks s) (t_id t) of
           None \<Rightarrow> (None, s)
         | Some r' \<Rightarrow>
             if t_status (task_at s r') = StatusCancelled
             then (None, untrack (t_id t) (recordHistory E r' s))
             else (case new_ctx s of
                     (c, s1) \<Rightarrow> (Some \<lparr>r_task = r, r_ctx = c, r_delay = delay\<rparr>,
                        upd_task r' (\<lambda>x. x\<lparr>t_cancel := Some c, t_status := StatusRunning\<rparr>) s1)))"

text \<open>\<open>ReportProgress\<close> with the callback \<open>updateProgress\<close> of the running task.\<close>

definition ReportProgress :: "run \<Rightarrow> int \<Rightarrow> ('job, 'rs, 'st) Scheduler \<Rightarrow> ('job, 'rs, 'st) Scheduler" where
  "ReportProgress rn percent s =
     (let percent = (if percent < 0 then 0 else percent);
          percent = (if percent > 100 then 100 else percent)
      in upd_tracked (t_id (task_at s (r_task rn))) (\<lambda>x. x\<lparr>t_progress := percent\<rparr>) s)"

definition finish_success ::
  "('rs, 'st) env \<Rightarrow> task_ref \<Rightarrow> ('job, 'rs, 'st) Scheduler \<Rightarrow> ('job, 'rs, 'st) Scheduler" where
  "finish_success E r s =
     (let t = task_at s r;
          s1 = upd_tracked (t_id t) (\<lambda>x. x\<lparr>t_status := StatusSucceeded, t_progress := 100\<rparr>) s;
          s2 = recordHistory E r (upd_task r (\<lambda>x. x\<lparr>t_status := StatusSucceeded\<rparr>) s1);
          s3 = (if t_typeName t = '''' then s2
                else resolveWorkflow E (t_id t) StatusSucceeded
                  (store_do (st_CompleteTask (env_storage E) (t_id t)) s2))
      in s3\<lparr>s_successCount := s_successCount s3 + 1\<rparr>)"

definition finish_cancelled ::
  "('rs, 'st) env \<Rightarrow> task_ref \<Rightarrow> ('job, 'rs, 'st) Scheduler \<Rightarrow> ('job, 'rs, 'st) Scheduler" where
  "finish_cancelled E r s =
     (let t = task_at s r;
          s1 = recordHistory E r (upd_tracked (t_id t) (\<lambda>x. x\<lparr>t_status := StatusCancelled\<rparr>) s)
      in if t_typeName t = '''' then s1
         else resolveWorkflow E (t_id t) StatusCancelled
           (store_do (st_CompleteTask (env_storage E) (t_id t)) s1))"

text \<open>The eviction at the end of \<open>runTask\<close>, and the deferred \<open>cancel()\<close>.\<close>

definition runTask_evict :: "run \<Rightarrow> ('job, 'rs, 'st) Scheduler \<Rightarrow> ('job, 'rs, 'st) Scheduler" where
  "runTask_evict rn s =
     (let t = task_at s (r_task rn);
          s1 = (if t_status t \<in> {StatusDead, StatusFailed, StatusRetrying} then s else untrack (t_id t) s)
      in call_cancel (Some (r_ctx rn)) s1)"

text \<open>The branch of the \<open>select\<close> taken when the job returned; \<open>failed\<close> is \<open>err != nil\<close>.\<close>

definition runTask_done ::
  "('rs, 'st) env \<Rightarrow> int \<Rightarrow> string \<Rightarrow> run \<Rightarrow> bool \<Rightarrow> ('job, 'rs, 'st) Scheduler \<Rightarrow> ('job, 'rs, 'st) Scheduler go" where
  "runTask_done E now newid rn failed s =
     (let r = r_task rn; s1 = release_key (t_key (task_at s r)) s
      in go_bind (if failed then handleFailure E now newid r s1 else Inr (finish_success E r s1))
           (\<lambda>s2. Inr (runTask_evict rn s2)))"

text \<open>
  The branch taken when the context is done; \<open>canceled\<close> is \<open>ctx.Err() == context.Canceled\<close>.
\<close>

definition runTask_ctxDone ::
  "('rs, 'st) env \<Rightarrow> int \<Rightarrow> string \<Rightarrow> run \<Rightarrow> bool \<Rightarrow> ('job, 'rs, 'st) Scheduler \<Rightarrow> ('job, 'rs, 'st) Scheduler go" where
  "runTask_ctxDone E now newid rn canceled s =
     (let r = r_task rn; t = task_at s r;
          tracked_cancelled = (case gm_get (s_tasks s) (t_id t) of
             None \<Rightarrow> False | Some r' \<Rightarrow> t_status (task_at s r') = StatusCancelled);
          final = (if canceled \<or> tracked_cancelled then StatusCancelled else StatusFailed);
          s1 = upd_task r (\<lambda>x. x\<lparr>t_status := final\<rparr>) (release_key (t_key t) s)
      in go_bind (if final = StatusCancelled then Inr (finish_cancelled E r s1)
                  else handleFailure E now newid r s1)
           (\<lambda>s2. Inr (runTask_evict rn s2)))"

text \<open>One tick of the heartbeat goroutine: \<open>False\<close> when it ends.\<close>

definition heartbeat ::
  "('rs, 'st) env \<Rightarrow> string \<Rightarrow> ('job, 'rs, 'st) Scheduler \<Rightarrow> bool \<times> ('job, 'rs, 'st) Scheduler" where
  "heartbeat E tid s =
     (case store_call (st_Heartbeat (env_storage E) tid (s_instanceID s) (s_leaseDuration s)) s of
        (err, s1) \<Rightarrow> (err = None, s1))"

section \<open>Scheduled tasks\<close>

text \<open>
  The start of the three \<open>Schedule\<close> functions: the task gets the cancel function of a fresh
  context and is tracked.
\<close>

definition schedule_track :: "task_ref \<Rightarrow> ('job, 'rs, 'st) Scheduler \<Rightarrow> ('job, 'rs, 'st) Scheduler" where
  "schedule_track r s =
     (case new_ctx s of (c, s1) \<Rightarrow> track r (upd_task r (\<lambda>t. t\<lparr>t_cancel := Some c\<rparr>) s1))"

definition schedule_wheel ::
  "task_ref \<Rightarrow> int \<Rightarrow> wheel_cb \<Rightarrow> ('job, 'rs, 'st) Scheduler \<Rightarrow>
   ((error + string) \<times> ('job, 'rs, 'st) Scheduler) go" where
  "schedule_wheel r at cb s =
     go_bind (wheel_Schedule (t_id (task_at s r)) at cb s)
       (\<lambda>(er, s1). Inr (case er of Some e \<Rightarrow> Inl (ErrWheel e) | None \<Rightarrow> Inr (t_id (task_at s r)), s1))"

definition ScheduleOnceTask ::
  "task_ref \<Rightarrow> int \<Rightarrow> ('job, 'rs, 'st) Scheduler \<Rightarrow> ((error + string) \<times> ('job, 'rs, 'st) Scheduler) go" where
  "ScheduleOnceTask r at s =
     (if s_stopped s then Inr (Inl ErrSchedulerStopped, s)
      else schedule_wheel r at (CbOnce r) (schedule_track r s))"

definition ScheduleOnce ::
  "string \<Rightarrow> 'job \<Rightarrow> int \<Rightarrow> int \<Rightarrow> ('job, 'rs, 'st) Scheduler \<Rightarrow>
   ((error + string) \<times> ('job, 'rs, 'st) Scheduler) go" where
  "ScheduleOnce newid job at priority s =
     (case alloc_task (NewTask newid (Some job) priority 0) s of (r, s1) \<Rightarrow> ScheduleOnceTask r at s1)"

definition ScheduleRecurringTask ::
  "int \<Rightarrow> task_ref \<Rightarrow> int \<Rightarrow> ('job, 'rs, 'st) Scheduler \<Rightarrow> ((error + string) \<times> ('job, 'rs, 'st) Scheduler) go" where
  "ScheduleRecurringTask now r interval s =
     (if s_stopped s then Inr (Inl ErrSchedulerStopped, s)
      else schedule_wheel r (now + interval) (CbRecurring r interval) (schedule_track r s))"

definition ScheduleRecurring ::
  "int \<Rightarrow> string \<Rightarrow> 'job \<Rightarrow> int \<Rightarrow> int \<Rightarrow> ('job, 'rs, 'st) Scheduler \<Rightarrow>
   ((error + string) \<times> ('job, 'rs, 'st) Scheduler) go" where
  "ScheduleRecurring now newid job interval priority s =
     (case alloc_task (NewTask newid (Some job) priority interval) s of
        (r, s1) \<Rightarrow> ScheduleRecurringTask now r interval s1)"

definition ScheduleCronTask ::
  "('rs, 'st) env \<Rightarrow> int \<Rightarrow> task_ref \<Rightarrow> string \<Rightarrow> ('job, 'rs, 'st) Scheduler \<Rightarrow>
   ((error + string) \<times> ('job, 'rs, 'st) Scheduler) go" where
  "ScheduleCronTask E now r spec s =
     (let fs = Fields spec
      in if length fs \<noteq> 5 then Inr (Inl (ErrCronSpec spec), s)
         else schedule_wheel r (nextExecution (env_zone E) (TruncateMinute now) fs) (CbCron r fs)
           (schedule_track r s))"

definition ScheduleCron ::
  "('rs, 'st) env \<Rightarrow> int \<Rightarrow> string \<Rightarrow> string \<Rightarrow> 'job \<Rightarrow> int \<Rightarrow> ('job, 'rs, 'st) Scheduler \<Rightarrow>
   ((error + string) \<times> ('job, 'rs, 'st) Scheduler) go" where
  "ScheduleCron E now newid spec job priority s =
     (case alloc_task (NewTask newid (Some job) priority 0) s of (r, s1) \<Rightarrow> ScheduleCronTask E now r spec s1)"

text \<open>The execution task a recurring or cron schedule submits at each fire.\<close>

definition child_task :: "string \<Rightarrow> ('job, 'rs) task \<Rightarrow> ('job, 'rs) task" where
  "child_task newid t = zero_task\<lparr>t_id := newid, t_job := t_job t, t_typeName := t_typeName t,
     t_payload := t_payload t, t_priority := t_priority t, t_timeout := t_timeout t,
     t_retryStrategy := t_retryStrategy t\<rparr>"

definition submit_child ::
  "('rs, 'st) env \<Rightarrow> string \<Rightarrow> task_ref \<Rightarrow> ('job, 'rs, 'st) Scheduler \<Rightarrow> ('job, 'rs, 'st) Scheduler" where
  "submit_child E newid r s =
     (case alloc_task (child_task newid (task_at s r)) s of (c, s1) \<Rightarrow> snd (Submit E c s1))"

text \<open>A callback that the wheel dispatched, run at time \<open>now\<close>.\<close>

fun run_callback ::
  "('rs, 'st) env \<Rightarrow> int \<Rightarrow> string \<Rightarrow> wheel_cb \<Rightarrow> ('job, 'rs, 'st) Scheduler \<Rightarrow> ('job, 'rs, 'st) Scheduler go" where
  "run_callback E now newid (CbRetry r) s = Inr (snd (Submit E r s))"
| "run_callback E now newid (CbOnce r) s = Inr (snd (Submit E r s))"
| "run_callback E now newid (CbRecurring r interval) s =
     (if s_stopped s then Inr s
      else let s1 = submit_child E newid r s
           in go_bind (wheel_Schedule (t_id (task_at s1 r)) (now + interval) (CbRecurring r interval) s1)
                (\<lambda>(er, s2). Inr s2))"
| "run_callback E now newid (CbCron r fs) s =
     (if s_stopped s then Inr s
      else let s1 = submit_child E newid r s;
               at = nextExecution (env_zone E) (TruncateMinute now) fs
           in go_bind (wheel_Schedule (t_id (task_at s1 r)) at (CbCron r fs) s1) (\<lambda>(er, s2). Inr s2))"

section \<open>Cancel, Resubmit\<close>

text \<open>The first critical section of \<open>Cancel\<close>: \<open>None\<close> when the task is already terminal, else whether it was inactive.\<close>

definition cancel_mark ::
  "string \<Rightarrow> ('job, 'rs, 'st) Scheduler \<Rightarrow> bool option \<times> ('job, 'rs, 'st) Scheduler" where
  "cancel_mark tid s =
     (case gm_get (s_tasks s) tid of
        None \<Rightarrow> (Some False, s)
      | Some r \<Rightarrow>
          (let t = task_at s r
           in if t_status t \<in> {StatusSucceeded, StatusFailed, StatusDead, StatusCancelled} then (None, s)
              else (Some (t_status t \<noteq> StatusRunning),
                    call_cancel (t_cancel t) (upd_task r (\<lambda>t. t\<lparr>t_status := StatusCancelled\<rparr>) s))))"

definition wheel_Cancel :: "string \<Rightarrow> ('job, 'rs, 'st) Scheduler \<Rightarrow> ('job, 'rs, 'st) Scheduler" where
  "wheel_Cancel tid s = s\<lparr>s_wheel := TimingWheel_Cancel tid (s_wheel s)\<rparr>"

text \<open>The local finalization of a task that was not running.\<close>

definition cancel_finalize ::
  "('rs, 'st) env \<Rightarrow> string \<Rightarrow> task_ref \<Rightarrow> ('job, 'rs, 'st) Scheduler \<Rightarrow> ('job, 'rs, 'st) Scheduler" where
  "cancel_finalize E tid r s =
     (let t = task_at s r;
          s1 = untrack tid (recordHistory E r (release_key (t_key t) s))
      in if t_typeName t = '''' then s1
         else resolveWorkflow E (t_id t) StatusCancelled (store_do (st_CompleteTask (env_storage E) tid) s1))"

definition Cancel ::
  "('rs, 'st) env \<Rightarrow> string \<Rightarrow> ('job, 'rs, 'st) Scheduler \<Rightarrow> error option \<times> ('job, 'rs, 'st) Scheduler" where
  "Cancel E tid s =
     (case cancel_mark tid s of
        (None, s1) \<Rightarrow> (None, wheel_Cancel tid s1)
      | (Some inactive, s1) \<Rightarrow>
          (let s2 = store_do (st_MarkCancelled (env_storage E) tid)
                      (store_do (st_UnscheduleDelayed (env_storage E) tid) (wheel_Cancel tid s1));
               s3 = (case gm_get (s_tasks s) tid of
                       Some r \<Rightarrow> if inactive then cancel_finalize E tid r s2 else s2
                     | None \<Rightarrow> s2)
           in store_call (st_PublishCancel (env_storage E) tid) s3))"

text \<open>The callback given to \<open>SubscribeCancel\<close>.\<close>

definition onCancel :: "string \<Rightarrow> ('job, 'rs, 'st) Scheduler \<Rightarrow> ('job, 'rs, 'st) Scheduler" where
  "onCancel tid s =
     (case gm_get (s_tasks s) tid of
        None \<Rightarrow> s
      | Some r \<Rightarrow> call_cancel (t_cancel (task_at s r)) (upd_task r (\<lambda>t. t\<lparr>t_status := StatusCancelled\<rparr>) s))"

definition Resubmit :: "string \<Rightarrow> ('job, 'rs, 'st) Scheduler \<Rightarrow> error option \<times> ('job, 'rs, 'st) Scheduler" where
  "Resubmit tid s =
     (case gm_get (s_tasks s) tid of
        None \<Rightarrow> (Some (ErrTaskNotFound tid), s)
      | Some r \<Rightarrow>
          (let st = t_status (task_at s r)
           in if st \<noteq> StatusDead \<and> st \<noteq> StatusFailed then (Some (ErrTaskNotFailed tid), s)
              else let s1 = (if st = StatusDead then s\<lparr>s_deadCount := s_deadCount s - 1\<rparr> else s);
                       s2 = upd_task r (\<lambda>t. t\<lparr>t_attempts := 0, t_status := StatusQueued\<rparr>) s1
                   in (None, push_queue r s2)))"

end
