(* ===== verification/Scheduler_Loops.thy ===== *)
theory Scheduler_Loops
  imports Scheduler
begin

text \<open>
  The background half of \<open>scheduler.go\<close>: worker pools, the dequeue loop and its hand-over to a
  worker, recovery from storage, scaling, pause and shutdown, and the construction with the options of
  \<open>options.go\<close>. A loop is the definition of one round; a blocking channel operation is a partial
  operation, \<open>None\<close> while it would block.
\<close>

section \<open>Worker pools\<close>

text \<open>Every \<open>go s.worker(pool)\<close> adds a worker that has not read its channel yet.\<close>

definition spawnWorkersForPoolLocked ::
  "string \<Rightarrow> int \<Rightarrow> ('job, 'rs, 'st) Scheduler \<Rightarrow> ('job, 'rs, 'st) Scheduler" where
  "spawnWorkersForPoolLocked pool n s =
     (let s1 = (case gm_get (s_poolControl s) pool of
                  Some _ \<Rightarrow> s | None \<Rightarrow> s\<lparr>s_poolControl := gm_put pool 0 (s_poolControl s)\<rparr>)
      in s1\<lparr>s_currentWorkers := s_currentWorkers s1 + int (nat n),
            s_workers := s_workers s1 @ replicate (nat n) \<lparr>w_pool = pool, w_state = WStarting\<rparr>\<rparr>)"

definition poolWorkers_get :: "('job, 'rs, 'st) Scheduler \<Rightarrow> string \<Rightarrow> int" where
  "poolWorkers_get s pool = (case gm_get (s_poolWorkers s) pool of Some n \<Rightarrow> n | None \<Rightarrow> 0)"

definition make_chan :: "nat \<Rightarrow> chan" where
  "make_chan n = \<lparr>ch_cap = n, ch_buf = [], ch_closed = False\<rparr>"

text \<open>A control channel holds 1000 tokens; a send to a full one is dropped.\<close>

definition ScalePool :: "string \<Rightarrow> int \<Rightarrow> ('job, 'rs, 'st) Scheduler \<Rightarrow> ('job, 'rs, 'st) Scheduler" where
  "ScalePool pool n s =
     (let n = (if n < 0 then 0 else n);
          n = (if n > 100 then 100 else n);
          current = poolWorkers_get s pool;
          s1 = s\<lparr>s_poolWorkers := gm_put pool n (s_poolWorkers s)\<rparr>;
          s2 = (case gm_get (s_poolQueues s1) pool of
                  Some _ \<Rightarrow> s1 | None \<Rightarrow> s1\<lparr>s_poolQueues := gm_put pool (make_chan 0) (s_poolQueues s1)\<rparr>)
      in if n > current then spawnWorkersForPoolLocked pool (n - current) s2
         else if n < current then
           (case gm_get (s_poolControl s2) pool of
              None \<Rightarrow> s2
            | Some k \<Rightarrow> s2\<lparr>s_poolControl := gm_put pool (min 1000 (k + nat (current - n))) (s_poolControl s2)\<rparr>)
         else s2)"

section \<open>Workers\<close>

definition set_worker :: "nat \<Rightarrow> worker_state \<Rightarrow> ('job, 'rs, 'st) Scheduler \<Rightarrow> ('job, 'rs, 'st) Scheduler" where
  "set_worker i st s = s\<lparr>s_workers := (s_workers s)[i := (s_workers s ! i)\<lparr>w_state := st\<rparr>]\<rparr>"

text \<open>The start of \<open>worker\<close>: read the pool's channel; a missing one is a nil channel for ever.\<close>

definition worker_start :: "nat \<Rightarrow> ('job, 'rs, 'st) Scheduler \<Rightarrow> ('job, 'rs, 'st) Scheduler" where
  "worker_start i s =
     set_worker i (WIdle (gm_get (s_poolQueues s) (w_pool (s_workers s ! i)) \<noteq> None)) s"

text \<open>
  Receive from the pool's channel: the oldest buffered task, or the one the dequeue loop is blocked
  on; when a buffered task is taken, the blocked one moves into the buffer.
\<close>

definition chan_recv ::
  "string \<Rightarrow> ('job, 'rs, 'st) Scheduler \<Rightarrow> (task_ref \<times> ('job, 'rs, 'st) Scheduler) option" where
  "chan_recv pool s =
     (case gm_get (s_poolQueues s) pool of
        None \<Rightarrow> None
      | Some ch \<Rightarrow>
          (case (ch_buf ch, s_dispatch s) of
             (r # rest, Some (r', pool')) \<Rightarrow>
               if pool' = pool
               then Some (r, s\<lparr>s_poolQueues := gm_put pool (ch\<lparr>ch_buf := rest @ [r']\<rparr>) (s_poolQueues s), s_dispatch := None\<rparr>)
               else Some (r, s\<lparr>s_poolQueues := gm_put pool (ch\<lparr>ch_buf := rest\<rparr>) (s_poolQueues s)\<rparr>)
           | (r # rest, None) \<Rightarrow> Some (r, s\<lparr>s_poolQueues := gm_put pool (ch\<lparr>ch_buf := rest\<rparr>) (s_poolQueues s)\<rparr>)
           | ([], Some (r', pool')) \<Rightarrow> if pool' = pool then Some (r', s\<lparr>s_dispatch := None\<rparr>) else None
           | ([], None) \<Rightarrow> None))"

text \<open>A worker takes a task: the tracked task is Running, then \<open>runTask\<close> begins.\<close>

definition worker_take ::
  "('rs, 'st) env \<Rightarrow> nat \<Rightarrow> ('job, 'rs, 'st) Scheduler \<Rightarrow> ('job, 'rs, 'st) Scheduler option" where
  "worker_take E i s =
     (case chan_recv (w_pool (s_workers s ! i)) s of
        None \<Rightarrow> None
      | Some (r, s1) \<Rightarrow>
          (let s2 = upd_tracked (t_id (task_at s1 r)) (\<lambda>t. t\<lparr>t_status := StatusRunning\<rparr>) s1
           in case runTask_start E r s2 of
                (None, s3) \<Rightarrow> Some (set_worker i (WIdle True) s3)
              | (Some rn, s3) \<Rightarrow> Some (set_worker i (WRunning True rn) s3)))"

text \<open>The \<open>case <-control\<close> branch: graceful scale down.\<close>

definition worker_control :: "nat \<Rightarrow> ('job, 'rs, 'st) Scheduler \<Rightarrow> ('job, 'rs, 'st) Scheduler option" where
  "worker_control i s =
     (let pool = w_pool (s_workers s ! i)
      in case gm_get (s_poolControl s) pool of
           Some (Suc k) \<Rightarrow> Some (set_worker i WExited (s\<lparr>s_poolControl := gm_put pool k (s_poolControl s),
              s_currentWorkers := s_currentWorkers s - 1\<rparr>))
         | _ \<Rightarrow> None)"

section \<open>Recovery from storage\<close>

text \<open>The task object built from a persisted one, in \<open>loadTasks\<close> and in \<open>dequeueLoop\<close>.\<close>

definition recovered_task :: "PersistentTask \<Rightarrow> 'job \<Rightarrow> ('job, 'rs) task" where
  "recovered_task pt job = zero_task\<lparr>t_id := p_ID pt, t_key := p_Key pt, t_pool := p_Pool pt,
     t_job := Some job, t_typeName := p_TypeName pt, t_payload := p_Payload pt,
     t_priority := p_Priority pt, t_timeout := p_Timeout pt, t_attempts := p_Attempts pt,
     t_status := StatusQueued\<rparr>"

definition load_one ::
  "('rs, 'st) env \<Rightarrow> PersistentTask \<Rightarrow> ('job, 'rs, 'st) Scheduler \<Rightarrow> ('job, 'rs, 'st) Scheduler" where
  "load_one E pt s =
     (case store_call (st_Claim (env_storage E) (p_ID pt) (s_instanceID s) (s_leaseDuration s)) s of
        (Inr True, s1) \<Rightarrow>
          (case gm_get (s_registry s1) (p_TypeName pt) of
             None \<Rightarrow> s1
           | Some job \<Rightarrow> (case alloc_task (recovered_task pt job) s1 of (r, s2) \<Rightarrow> push_queue r (track r s2)))
      | (_, s1) \<Rightarrow> s1)"

definition loadTasks :: "('rs, 'st) env \<Rightarrow> ('job, 'rs, 'st) Scheduler \<Rightarrow> ('job, 'rs, 'st) Scheduler" where
  "loadTasks E s =
     (case store_call (st_LoadAll (env_storage E)) s of
        (Inl err, s1) \<Rightarrow> s1
      | (Inr pts, s1) \<Rightarrow> fold (load_one E) pts s1)"

text \<open>One tick of \<open>recoveryLoop\<close>; its result is only logged.\<close>

definition recovery_tick :: "('rs, 'st) env \<Rightarrow> ('job, 'rs, 'st) Scheduler \<Rightarrow> ('job, 'rs, 'st) Scheduler" where
  "recovery_tick E s = store_do (st_RecoverOrphaned (env_storage E)) s"

text \<open>One tick of \<open>cleanupLoop\<close>.\<close>

definition cleanup_tick :: "('rs, 'st) env \<Rightarrow> ('job, 'rs, 'st) Scheduler \<Rightarrow> ('job, 'rs, 'st) Scheduler" where
  "cleanup_tick E s = (if s_stop s then s else loadTasks E s)"

section \<open>The dequeue loop\<close>

text \<open>The local queue first.\<close>

definition pop_queue :: "('job, 'rs, 'st) Scheduler \<Rightarrow> task_ref option \<times> ('job, 'rs, 'st) Scheduler" where
  "pop_queue s =
     (case heap_Pop (taskHeap (prio s)) (s_queue s) of
        None \<Rightarrow> (None, s)
      | Some (r, q) \<Rightarrow> (Some r, s\<lparr>s_queue := q, s_queueSize := s_queueSize s - 1\<rparr>))"

text \<open>Then the storage's queue.\<close>

definition dequeue_storage ::
  "('rs, 'st) env \<Rightarrow> ('job, 'rs, 'st) Scheduler \<Rightarrow> task_ref option \<times> ('job, 'rs, 'st) Scheduler" where
  "dequeue_storage E s =
     (case store_call (st_Dequeue (env_storage E) (s_instanceID s) (s_leaseDuration s)) s of
        (Inl err, s1) \<Rightarrow> (None, s1)
      | (Inr None, s1) \<Rightarrow> (None, s1)
      | (Inr (Some pt), s1) \<Rightarrow>
          (case store_call (st_IsCancelled (env_storage E) (p_ID pt)) s1 of
             (Inr True, s2) \<Rightarrow> (None, store_do (st_Delete (env_storage E) (p_ID pt)) s2)
           | (_, s2) \<Rightarrow>
               (case gm_get (s_registry s2) (p_TypeName pt) of
                  None \<Rightarrow> (None, s2)
                | Some job \<Rightarrow> (case alloc_task (recovered_task pt job) s2 of (r, s3) \<Rightarrow> (Some r, track r s3)))))"

text \<open>
  \<open>dispatchTask\<close> up to its \<open>select\<close>: a pool that has no channel gets one with one worker.
\<close>

definition dispatchTask :: "task_ref \<Rightarrow> ('job, 'rs, 'st) Scheduler \<Rightarrow> ('job, 'rs, 'st) Scheduler" where
  "dispatchTask r s =
     (let pool = (if t_pool (task_at s r) = '''' then ''default'' else t_pool (task_at s r));
          s1 = (case gm_get (s_poolQueues s) pool of
                  Some _ \<Rightarrow> s
                | None \<Rightarrow> spawnWorkersForPoolLocked pool 1
                    (s\<lparr>s_poolQueues := gm_put pool (make_chan 0) (s_poolQueues s),
                       s_poolWorkers := gm_put pool 1 (s_poolWorkers s)\<rparr>))
      in s1\<lparr>s_dispatch := Some (r, pool)\<rparr>)"

text \<open>The send of the \<open>select\<close> into a channel with room.\<close>

definition dispatch_send :: "('job, 'rs, 'st) Scheduler \<Rightarrow> ('job, 'rs, 'st) Scheduler option" where
  "dispatch_send s =
     (case s_dispatch s of
        None \<Rightarrow> None
      | Some (r, pool) \<Rightarrow>
          (case gm_get (s_poolQueues s) pool of
             Some ch \<Rightarrow> if length (ch_buf ch) < ch_cap ch
               then Some (s\<lparr>s_poolQueues := gm_put pool (ch\<lparr>ch_buf := ch_buf ch @ [r]\<rparr>) (s_poolQueues s), s_dispatch := None\<rparr>)
               else None
           | None \<Rightarrow> None))"

text \<open>One round of \<open>dequeueLoop\<close>, when it is not blocked on a send.\<close>

definition dequeue_round :: "('rs, 'st) env \<Rightarrow> ('job, 'rs, 'st) Scheduler \<Rightarrow> ('job, 'rs, 'st) Scheduler" where
  "dequeue_round E s =
     (if s_paused s then s
      else case pop_queue s of
             (Some r, s1) \<Rightarrow> dispatchTask r s1
           | (None, s1) \<Rightarrow> (case dequeue_storage E s1 of
                              (Some r, s2) \<Rightarrow> dispatchTask r s2
                            | (None, s2) \<Rightarrow> s2))"

section \<open>Pause, shutdown\<close>

definition Pause :: "('job, 'rs, 'st) Scheduler \<Rightarrow> ('job, 'rs, 'st) Scheduler" where
  "Pause s = s\<lparr>s_paused := True\<rparr>"

definition Resume :: "('job, 'rs, 'st) Scheduler \<Rightarrow> ('job, 'rs, 'st) Scheduler" where
  "Resume s = s\<lparr>s_paused := False\<rparr>"

definition IsPaused :: "('job, 'rs, 'st) Scheduler \<Rightarrow> bool" where
  "IsPaused s \<longleftrightarrow> s_paused s"

text \<open>
  \<open>ShutDown\<close>: stop and close, then cancel the context of every task that is still tracked. The waits
  in between (for the loops, for the workers or the deadline) change nothing themselves; a task the
  dequeue loop was blocked on is dropped.
\<close>

definition ShutDown :: "('job, 'rs, 'st) Scheduler \<Rightarrow> ('job, 'rs, 'st) Scheduler" where
  "ShutDown s =
     (if s_stopped s then s
      else let s1 = s\<lparr>s_stopped := True, s_stop := True, s_wheel := TimingWheel_Stop (s_wheel s), s_dispatch := None\<rparr>;
               s2 = s1\<lparr>s_poolQueues := map (\<lambda>(k, ch). (k, ch\<lparr>ch_closed := True\<rparr>)) (s_poolQueues s1)\<rparr>
           in fold (\<lambda>(tid, r) s. call_cancel (t_cancel (task_at s r)) s) (s_tasks s2) s2)"

section \<open>Options and construction\<close>

type_synonym ('job, 'rs, 'st) Option = "('job, 'rs, 'st) Scheduler \<Rightarrow> ('job, 'rs, 'st) Scheduler"

definition WithMaxWorkers :: "int \<Rightarrow> ('job, 'rs, 'st) Option" where
  "WithMaxWorkers n s = (if n > 0 then s\<lparr>s_maxWorkers := n\<rparr> else s)"

definition WithQueueSize :: "int \<Rightarrow> ('job, 'rs, 'st) Option" where
  "WithQueueSize n s =
     (if n \<ge> 0 then s\<lparr>s_poolQueues := gm_put ''default'' (make_chan (nat n)) (s_poolQueues s)\<rparr> else s)"

definition WithTaskTimeout :: "int \<Rightarrow> ('job, 'rs, 'st) Option" where
  "WithTaskTimeout d s = s\<lparr>s_defaultTimeout := d\<rparr>"

definition WithInitialWorkers :: "int \<Rightarrow> ('job, 'rs, 'st) Option" where
  "WithInitialWorkers n s = s\<lparr>s_poolWorkers := gm_put ''default'' n (s_poolWorkers s)\<rparr>"

definition WithWorkersForPool :: "string \<Rightarrow> int \<Rightarrow> ('job, 'rs, 'st) Option" where
  "WithWorkersForPool name cnt s =
     (if cnt > 0 then s\<lparr>s_poolWorkers := gm_put name cnt (s_poolWorkers s)\<rparr> else s)"

definition WithRetryStrategy :: "'rs option \<Rightarrow> ('job, 'rs, 'st) Option" where
  "WithRetryStrategy rs s = s\<lparr>s_retryStrategy := rs\<rparr>"

text \<open>\<open>None\<close> is the nil logger.\<close>

definition WithLogger :: "'l option \<Rightarrow> ('job, 'rs, 'st) Option" where
  "WithLogger l s = s\<lparr>s_logger := l \<noteq> None\<rparr>"

definition WithStorage :: "'st \<Rightarrow> ('job, 'rs, 'st) Option" where
  "WithStorage st s = s\<lparr>s_storage := st\<rparr>"

definition WithJob :: "string \<Rightarrow> 'job \<Rightarrow> ('job, 'rs, 'st) Option" where
  "WithJob name job s = RegisterJob name job s"

definition WithMaxCapacity :: "int \<Rightarrow> ('job, 'rs, 'st) Option" where
  "WithMaxCapacity n s = (if n > 0 then s\<lparr>s_maxQueueSize := n\<rparr> else s)"

definition WithInstanceID :: "string \<Rightarrow> ('job, 'rs, 'st) Option" where
  "WithInstanceID newid s = (if newid \<noteq> '''' then s\<lparr>s_instanceID := newid\<rparr> else s)"

definition WithLeaseDuration :: "int \<Rightarrow> ('job, 'rs, 'st) Option" where
  "WithLeaseDuration d s = (if d > 0 then s\<lparr>s_leaseDuration := d\<rparr> else s)"

definition WithHistoryRetention :: "int \<Rightarrow> ('job, 'rs, 'st) Option" where
  "WithHistoryRetention d s = s\<lparr>s_historyRetention := d\<rparr>"

definition WithRecoveryInterval :: "int \<Rightarrow> ('job, 'rs, 'st) Option" where
  "WithRecoveryInterval d s = (if d > 0 then s\<lparr>s_recoveryInterval := d\<rparr> else s)"

definition second :: int where
  "second = 1000000000"

text \<open>The nil pointer that \<open>s.wheel\<close> is until \<open>New\<close> sets it; nothing reads it before.\<close>

definition nil_wheel :: "'cb TimingWheel" where
  "nil_wheel = \<lparr>tw_mem = \<lparr>m_levels = [], m_h = [], m_wake = False\<rparr>, tw_tickMs = 0, tw_size = 0,
     tw_started = False, tw_stopped = False, tw_entries = Map.empty, tw_store = [], tw_fired = []\<rparr>"

text \<open>The struct literal of \<open>New\<close>.\<close>

definition new_scheduler :: "string \<Rightarrow> 'st \<Rightarrow> ('job, 'rs, 'st) Scheduler" where
  "new_scheduler newid st = \<lparr>s_objs = [], s_ctxs = [], s_workers = [], s_dispatch = None,
     s_queue = [], s_tasks = [], s_poolQueues = [], s_poolWorkers = [], s_stop = False,
     s_stopped = False, s_maxWorkers = 5, s_currentWorkers = 0, s_queueSize = 0,
     s_successCount = 0, s_failureCount = 0, s_deadCount = 0, s_panicCount = 0,
     s_defaultTimeout = 0, s_retryStrategy = None, s_middlewares = [], s_logger = False, s_storage = st,
     s_registry = [], s_maxQueueSize = 1000, s_activeKeys = [], s_instanceID = newid,
     s_leaseDuration = 30 * second, s_historyRetention = 7 * 24 * 3600 * second, s_paused = False,
     s_recoveryInterval = 60 * second, s_poolControl = [], s_wheel = nil_wheel,
     s_wheelTick = 10 * 1000000, s_wheelSize = 256\<rparr>"

text \<open>The default pool, unless a channel was set for it.\<close>

definition default_pool :: "('job, 'rs, 'st) Scheduler \<Rightarrow> ('job, 'rs, 'st) Scheduler" where
  "default_pool s =
     (case gm_get (s_poolQueues s) ''default'' of
        Some _ \<Rightarrow> s
      | None \<Rightarrow> s\<lparr>s_poolQueues := gm_put ''default'' (make_chan 0) (s_poolQueues s),
                   s_poolWorkers := gm_put ''default'' (s_maxWorkers s) (s_poolWorkers s)\<rparr>)"

definition spawn_all :: "('job, 'rs, 'st) Scheduler \<Rightarrow> ('job, 'rs, 'st) Scheduler" where
  "spawn_all s = fold (\<lambda>(pool, cnt). spawnWorkersForPoolLocked pool cnt) (s_poolWorkers s) s"

definition New ::
  "('rs, 'st) env \<Rightarrow> int \<Rightarrow> string \<Rightarrow> 'st \<Rightarrow> ('job, 'rs, 'st) Option list \<Rightarrow> ('job, 'rs, 'st) Scheduler go" where
  "New E now newid st opts =
     (let s = fold (\<lambda>opt. opt) opts (new_scheduler newid st)
      in go_bind (NewTimingWheel (s_wheelTick s) (s_wheelSize s) (UnixMilli now))
           (\<lambda>w. Inr (spawn_all (default_pool (loadTasks E (s\<lparr>s_wheel := TimingWheel_Start w\<rparr>))))))"

end
