(* ===== verification/Scheduler_Invariant.thy ===== *)
theory Scheduler_Invariant
  imports Scheduler_Loops Wheel_Run
begin

text \<open>
  The invariant of the scheduler's own data and that every operation keeps it: the priority queue is a
  heap and \<open>queueSize\<close> its length, the \<open>tasks\<close> map has one entry per ID and each names a task with this
  ID, and every reference held anywhere is valid.
\<close>

section \<open>The invariant\<close>

fun cb_ref :: "wheel_cb \<Rightarrow> task_ref" where
  "cb_ref (CbRetry r) = r"
| "cb_ref (CbOnce r) = r"
| "cb_ref (CbRecurring r i) = r"
| "cb_ref (CbCron r fs) = r"

definition tw_cbs :: "'cb TimingWheel \<Rightarrow> 'cb list" where
  "tw_cbs tw = map e_callback (tw_store tw)"

definition core_ok :: "('job, 'rs, 'st) Scheduler \<Rightarrow> bool" where
  "core_ok s \<longleftrightarrow> tq.ordered (prio s) (s_queue s) \<and> s_queueSize s = int (length (s_queue s)) \<and>
     set (s_queue s) \<subseteq> {..<length (s_objs s)} \<and> gm_ok (s_tasks s) \<and>
     (\<forall>tid r. gm_get (s_tasks s) tid = Some r \<longrightarrow> r < length (s_objs s) \<and> t_id (task_at s r) = tid) \<and>
     (\<forall>cb \<in> set (tw_cbs (s_wheel s)). cb_ref cb < length (s_objs s))"

text \<open>What no operation does to a task object: change its ID or its priority.\<close>

definition keeps :: "(('job, 'rs) task \<Rightarrow> ('job, 'rs) task) \<Rightarrow> bool" where
  "keeps f \<longleftrightarrow> (\<forall>t. t_id (f t) = t_id t \<and> t_priority (f t) = t_priority t)"

section \<open>Fields an update does not touch\<close>

lemma core_ok_fields [simp]:
  "core_ok (s\<lparr>s_ctxs := a\<rparr>) = core_ok s" "core_ok (s\<lparr>s_workers := b\<rparr>) = core_ok s"
  "core_ok (s\<lparr>s_dispatch := c\<rparr>) = core_ok s" "core_ok (s\<lparr>s_poolQueues := d\<rparr>) = core_ok s"
  "core_ok (s\<lparr>s_poolWorkers := e\<rparr>) = core_ok s" "core_ok (s\<lparr>s_stop := f\<rparr>) = core_ok s"
  "core_ok (s\<lparr>s_stopped := f\<rparr>) = core_ok s" "core_ok (s\<lparr>s_maxWorkers := i\<rparr>) = core_ok s"
  "core_ok (s\<lparr>s_currentWorkers := i\<rparr>) = core_ok s" "core_ok (s\<lparr>s_successCount := i\<rparr>) = core_ok s"
  "core_ok (s\<lparr>s_failureCount := i\<rparr>) = core_ok s" "core_ok (s\<lparr>s_deadCount := i\<rparr>) = core_ok s"
  "core_ok (s\<lparr>s_panicCount := i\<rparr>) = core_ok s" "core_ok (s\<lparr>s_defaultTimeout := i\<rparr>) = core_ok s"
  "core_ok (s\<lparr>s_retryStrategy := j\<rparr>) = core_ok s" "core_ok (s\<lparr>s_middlewares := k\<rparr>) = core_ok s"
  "core_ok (s\<lparr>s_storage := l\<rparr>) = core_ok s" "core_ok (s\<lparr>s_registry := m\<rparr>) = core_ok s"
  "core_ok (s\<lparr>s_maxQueueSize := i\<rparr>) = core_ok s" "core_ok (s\<lparr>s_activeKeys := n\<rparr>) = core_ok s"
  "core_ok (s\<lparr>s_instanceID := p\<rparr>) = core_ok s" "core_ok (s\<lparr>s_leaseDuration := i\<rparr>) = core_ok s"
  "core_ok (s\<lparr>s_historyRetention := i\<rparr>) = core_ok s" "core_ok (s\<lparr>s_paused := f\<rparr>) = core_ok s"
  "core_ok (s\<lparr>s_logger := lg\<rparr>) = core_ok s"
  "core_ok (s\<lparr>s_recoveryInterval := i\<rparr>) = core_ok s" "core_ok (s\<lparr>s_poolControl := q\<rparr>) = core_ok s"
  by (simp_all add: core_ok_def task_at_def prio_def)

section \<open>Primitive updates\<close>

lemma task_at_upd:
  "r < length (s_objs s) \<Longrightarrow> task_at (upd_task r f s) r' = (if r' = r then f (task_at s r) else task_at s r')"
  by (simp add: task_at_def upd_task_def nth_list_update)

lemma upd_task_out: "\<not> r < length (s_objs s) \<Longrightarrow> upd_task r f s = s"
  by (simp add: upd_task_def list_update_beyond)

lemma upd_task_objs [simp]: "length (s_objs (upd_task r f s)) = length (s_objs s)"
  by (simp add: upd_task_def)

lemma upd_task_keeps:
  assumes "keeps f"
  shows "t_id (task_at (upd_task r f s) x) = t_id (task_at s x)"
    and "t_priority (task_at (upd_task r f s) x) = t_priority (task_at s x)"
  using assms by (cases "r < length (s_objs s)"; simp add: task_at_upd keeps_def upd_task_out)+

lemma core_ok_upd [intro!]:
  assumes "core_ok s" and "keeps f"
  shows "core_ok (upd_task r f s)"
proof -
  have "prio (upd_task r f s) = prio s"
    by (simp add: prio_def fun_eq_iff upd_task_keeps(2) [OF assms(2)])
  then show ?thesis
    using assms(1) unfolding core_ok_def upd_task_keeps(1) [OF assms(2)] by (simp add: upd_task_def)
qed

lemma core_ok_upd_tracked [intro!]: "core_ok s \<Longrightarrow> keeps f \<Longrightarrow> core_ok (upd_tracked tid f s)"
  by (auto simp: upd_tracked_def split: option.splits)

lemma core_ok_alloc:
  assumes "core_ok s" and "alloc_task t s = (r, s1)"
  shows "core_ok s1" and "r < length (s_objs s1)" and "task_at s1 r = t" and "s_tasks s1 = s_tasks s"
proof -
  have s1: "s1 = s\<lparr>s_objs := s_objs s @ [t]\<rparr>" "r = length (s_objs s)"
    using assms(2) by (auto simp: alloc_task_def)
  have old: "task_at s1 x = task_at s x" if "x < length (s_objs s)" for x
    using that by (simp add: s1 task_at_def nth_append)
  have q: "set (s_queue s) \<subseteq> {..<length (s_objs s)}" "tq.ordered (prio s) (s_queue s)"
    using assms(1) by (simp_all add: core_ok_def)
  then have e: "prio s1 x = prio s x" if "x \<in> set (s_queue s)" for x
    using old [of x] that by (auto simp: prio_def)
  have "tq.ordered (prio s1) (s_queue s)" using ordered_cong [OF q(2) e] .
  moreover have "gm_get (s_tasks s) tid = Some x \<Longrightarrow> x < length (s_objs s1) \<and> t_id (task_at s1 x) = tid" for tid x
    using assms(1) old [of x] by (auto simp: core_ok_def s1(1) intro: less_SucI)
  moreover have "cb \<in> set (tw_cbs (s_wheel s)) \<Longrightarrow> cb_ref cb < length (s_objs s1)" for cb
    using assms(1) by (auto simp: core_ok_def s1(1) intro: less_SucI)
  moreover have "set (s_queue s) \<subseteq> {..<length (s_objs s1)}"
    using assms(1) by (auto simp: core_ok_def s1(1) intro: less_SucI)
  ultimately show "core_ok s1"
    using assms(1) unfolding core_ok_def by (simp add: s1(1))
  show "r < length (s_objs s1)" "task_at s1 r = t" "s_tasks s1 = s_tasks s"
    by (simp_all add: s1 task_at_def)
qed

lemma core_ok_store [intro!]: "core_ok s \<Longrightarrow> core_ok (store_do f s)"
  by (auto simp: store_do_def store_call_def split: prod.splits)

lemma core_ok_store_call [dest]: "store_call g s = (a, s1) \<Longrightarrow> core_ok s \<Longrightarrow> core_ok s1"
  by (auto simp: store_call_def split: prod.splits)

lemma store_call_objs:
  "store_call g s = (a, s1) \<Longrightarrow> s_objs s1 = s_objs s" "store_call g s = (a, s1) \<Longrightarrow> s_registry s1 = s_registry s"
  by (auto simp: store_call_def split: prod.splits)

lemma core_ok_push [intro]:
  assumes "core_ok s" and "r < length (s_objs s)"
  shows "core_ok (push_queue r s)"
proof -
  let ?q = "heap_Push (taskHeap (prio s)) (s_queue s) r"
  have o: "tq.ordered (prio s) (s_queue s)" using assms(1) by (simp add: core_ok_def)
  note p = taskHeap_Push [OF o, of r]
  have "prio (push_queue r s) = prio s" by (simp add: push_queue_def prio_def task_at_def fun_eq_iff)
  then show ?thesis
    using assms p unfolding core_ok_def by (simp add: push_queue_def task_at_def)
qed

lemma core_ok_track [intro]: "core_ok s \<Longrightarrow> r < length (s_objs s) \<Longrightarrow> core_ok (track r s)"
  by (auto simp: core_ok_def track_def task_at_def prio_def)

lemma core_ok_untrack [intro!]: "core_ok s \<Longrightarrow> core_ok (untrack tid s)"
  by (auto simp: core_ok_def untrack_def task_at_def prio_def)

lemma core_ok_release [intro!]: "core_ok s \<Longrightarrow> core_ok (release_key k s)"
  by (simp add: release_key_def)

lemma core_ok_call_cancel [intro!]: "core_ok s \<Longrightarrow> core_ok (call_cancel c s)"
  by (simp add: call_cancel_def split: option.splits)

lemma core_ok_history [intro!]: "core_ok s \<Longrightarrow> core_ok (recordHistory E r s)"
  by (auto simp: recordHistory_def)

lemma core_ok_new_ctx [dest]: "new_ctx s = (c, s1) \<Longrightarrow> core_ok s \<Longrightarrow> core_ok s1"
  by (auto simp: new_ctx_def)

text \<open>How many objects there are after each primitive.\<close>

lemma objs_len [simp]:
  "length (s_objs (track r s)) = length (s_objs s)" "length (s_objs (untrack k s)) = length (s_objs s)"
  "length (s_objs (push_queue r s)) = length (s_objs s)" "length (s_objs (release_key k s)) = length (s_objs s)"
  "length (s_objs (store_do f s)) = length (s_objs s)" "length (s_objs (call_cancel c s)) = length (s_objs s)"
  "length (s_objs (recordHistory E r s)) = length (s_objs s)"
  "length (s_objs (upd_tracked k g s)) = length (s_objs s)"
  by (auto simp: track_def untrack_def push_queue_def release_key_def store_do_def store_call_def
    call_cancel_def recordHistory_def upd_tracked_def upd_task_def split: option.splits prod.splits)

section \<open>Submit and the workflows\<close>

lemma keeps_simps [simp, intro!]:
  "keeps (\<lambda>t. t\<lparr>t_status := a\<rparr>)" "keeps (\<lambda>t. t\<lparr>t_status := a, t_progress := b\<rparr>)"
  "keeps (\<lambda>t. t\<lparr>t_progress := b\<rparr>)" "keeps (\<lambda>t. t\<lparr>t_job := c\<rparr>)" "keeps (\<lambda>t. t\<lparr>t_cancel := d\<rparr>)"
  "keeps (\<lambda>t. t\<lparr>t_cancel := d, t_status := a\<rparr>)" "keeps (\<lambda>t. t\<lparr>t_attempts := b, t_status := a\<rparr>)"
  "keeps (\<lambda>t. t\<lparr>t_retryStrategy := g t, t_status := a\<rparr>)"
  by (auto simp: keeps_def)

lemma core_ok_admit: "core_ok s \<Longrightarrow> core_ok (submit_admit r s)"
  by (auto simp: submit_admit_def Let_def)

lemma submit_admit_objs [simp]: "length (s_objs (submit_admit r s)) = length (s_objs s)"
  by (simp add: submit_admit_def Let_def)

lemma core_ok_link:
  "core_ok s \<Longrightarrow> submit_link r s = (er, s1) \<Longrightarrow> core_ok s1 \<and> length (s_objs s1) = length (s_objs s)"
  by (auto simp: submit_link_def Let_def split: if_splits option.splits)

lemma core_ok_enqueue: "core_ok s \<Longrightarrow> r < length (s_objs s) \<Longrightarrow> core_ok (snd (submit_enqueue r s))"
  by (auto simp: submit_enqueue_def)

lemma core_ok_persist:
  assumes "core_ok s" and "r < length (s_objs s)"
  shows "core_ok (snd (submit_persist E r s))"
  using assms
  by (auto simp: submit_persist_def Let_def store_call_objs intro!: core_ok_enqueue core_ok_track
    split: option.splits prod.splits)

lemma core_ok_Submit:
  assumes "core_ok s" and "r < length (s_objs s)"
  shows "core_ok (snd (Submit E r s))"
proof (cases "submit_refuse (task_at s r) s")
  case None
  obtain er s1 where l: "submit_link r (submit_admit r s) = (er, s1)" by (cases "submit_link r (submit_admit r s)")
  note k = core_ok_link [OF core_ok_admit [OF assms(1)] l]
  then show ?thesis
    using None l assms(2) core_ok_persist [of s1 r E] by (simp add: Submit_def split: option.splits)
qed (use assms in \<open>simp add: Submit_def\<close>)

lemma submit_persist_objs: "length (s_objs (snd (submit_persist E r s))) = length (s_objs s)"
  by (auto simp: submit_persist_def submit_enqueue_def Let_def dest!: store_call_objs(1)
    split: option.split prod.split)

lemma submit_link_objs: "length (s_objs (snd (submit_link r s))) = length (s_objs s)"
  by (simp add: submit_link_def Let_def split: option.split)

lemma Submit_objs: "length (s_objs (snd (Submit E r s))) = length (s_objs s)"
proof -
  obtain er s1 where l: "submit_link r (submit_admit r s) = (er, s1)" by (cases "submit_link r (submit_admit r s)")
  then have "length (s_objs s1) = length (s_objs s)" using submit_link_objs [of r "submit_admit r s"] by simp
  then show ?thesis using l submit_persist_objs [of E r s1] by (simp add: Submit_def split: option.split)
qed

lemma core_ok_submit_ready: "core_ok s \<Longrightarrow> core_ok (submit_ready E rt s)"
  by (auto simp: submit_ready_def split: option.splits prod.splits
    intro!: core_ok_Submit intro: core_ok_alloc(1,2))

lemma core_ok_fold: "core_ok s \<Longrightarrow> (\<And>x s. core_ok s \<Longrightarrow> core_ok (f x s)) \<Longrightarrow> core_ok (fold f xs s)"
  by (induction xs arbitrary: s) auto

lemma core_ok_resolve [intro!]: "core_ok s \<Longrightarrow> core_ok (resolveWorkflow E tid st s)"
  by (auto simp: resolveWorkflow_def split: prod.splits sum.splits intro!: core_ok_fold core_ok_submit_ready)

section \<open>The callbacks in the wheel\<close>

text \<open>No operation of the wheel changes a callback; only \<open>Schedule\<close> adds one.\<close>

lemma map_update_same: "f (g (xs ! i)) = f (xs ! i) \<Longrightarrow> map f (xs[i := g (xs ! i)]) = map f xs"
  by (cases "i < length xs") (simp_all add: map_update list_update_same_conv list_update_beyond)

lemma tw_cbs_mem [simp]: "tw_cbs (tw\<lparr>tw_mem := m\<rparr>) = tw_cbs tw" "tw_cbs (tw\<lparr>tw_entries := i\<rparr>) = tw_cbs tw"
  "tw_cbs (tw\<lparr>tw_fired := f\<rparr>) = tw_cbs tw" "tw_cbs (tw\<lparr>tw_stopped := b\<rparr>) = tw_cbs tw"
  "tw_cbs (tw\<lparr>tw_started := b\<rparr>) = tw_cbs tw"
  by (simp_all add: tw_cbs_def)

lemma wheelBucket_add_cbs: "wheelBucket_add e r x tw = (b, tw') \<Longrightarrow> tw_cbs tw' = tw_cbs tw"
  by (auto simp: wheelBucket_add_def Let_def tw_cbs_def
    map_update_same [where g = "\<lambda>x. x\<lparr>e_bucket := Some r\<rparr>"])

lemma timingWheel_add_cbs: "timingWheel_add fuel e k tw = Inr (b, tw') \<Longrightarrow> tw_cbs tw' = tw_cbs tw"
proof (induction fuel e k tw rule: timingWheel_add.induct)
  case (2 fuel e k tw)
  then show ?case
    by (auto simp: Let_def go_bind_def wheelBucket_add_cbs split: if_splits prod.splits sum.splits)
qed simp

lemma insert_cbs: "TimingWheel_insert e tw = Inr tw' \<Longrightarrow> tw_cbs tw' = tw_cbs tw"
  by (auto simp: TimingWheel_insert_def go_bind_def removeFromIndex_def Let_def timingWheel_add_cbs
    split: sum.splits if_splits)

lemma cancel_entry_cbs [simp]: "tw_cbs (cancel_entry e tw) = tw_cbs tw"
  by (simp add: cancel_entry_def tw_cbs_def map_update_same [where g = "\<lambda>x. x\<lparr>e_cancelled := True\<rparr>"])

lemma Cancel_cbs [simp]: "tw_cbs (TimingWheel_Cancel tid tw) = tw_cbs tw"
  by (simp add: TimingWheel_Cancel_def split: option.split)

lemma Stop_cbs [simp]: "tw_cbs (TimingWheel_Stop tw) = tw_cbs tw" "tw_cbs (TimingWheel_Start tw) = tw_cbs tw"
  by (simp_all add: TimingWheel_Stop_def TimingWheel_Start_def)

lemma schedule_index_cbs: "tw_cbs (schedule_index tid at cb tw) = tw_cbs tw @ [cb]"
  by (simp add: schedule_index_def Let_def split: option.split) (simp add: tw_cbs_def new_entry_def)

lemma Schedule_cbs:
  "TimingWheel_Schedule tid at (Some cb) tw = Inr (er, tw') \<Longrightarrow> set (tw_cbs tw') \<subseteq> insert cb (set (tw_cbs tw))"
  by (auto simp: TimingWheel_Schedule_def go_bind_def schedule_index_cbs dest!: insert_cbs
    split: if_splits sum.splits)

lemma go_fold_insert_cbs: "go_fold TimingWheel_insert es tw = Inr tw' \<Longrightarrow> tw_cbs tw' = tw_cbs tw"
  by (induction es arbitrary: tw) (auto simp: go_bind_def insert_cbs split: sum.splits)

lemma clear_bucket_ptr_cbs: "map e_callback (clear_bucket_ptr e st) = map e_callback st"
  by (simp add: clear_bucket_ptr_def map_update_same [where g = "\<lambda>x. x\<lparr>e_bucket := None\<rparr>"])

lemma fold_clear_cbs: "map e_callback (fold clear_bucket_ptr es st) = map e_callback st"
  by (induction es arbitrary: st) (simp_all add: clear_bucket_ptr_cbs)

lemma tick_bucket_cbs: "tick_bucket r tw = Inr tw' \<Longrightarrow> tw_cbs tw' = tw_cbs tw"
  by (auto simp: tick_bucket_def Let_def wheelBucket_flush_def dest!: go_fold_insert_cbs)
    (auto simp: tw_cbs_def fold_clear_cbs)

lemma tickLoop_cbs: "tickLoop fuel now tw = Inr tw' \<Longrightarrow> tw_cbs tw' = tw_cbs tw"
proof (induction fuel arbitrary: tw)
  case (Suc fuel)
  then show ?case
    by (auto simp: go_bind_def dest!: tick_bucket_cbs split: prod.splits option.splits sum.splits)
qed simp

lemma core_ok_wheel:
  assumes "core_ok s" and "\<And>cb. cb \<in> set (tw_cbs w) \<Longrightarrow> cb_ref cb < length (s_objs s)"
  shows "core_ok (s\<lparr>s_wheel := w\<rparr>)"
proof -
  have "prio (s\<lparr>s_wheel := w\<rparr>) = prio s" by (simp add: prio_def task_at_def fun_eq_iff)
  then show ?thesis using assms by (simp add: core_ok_def task_at_def)
qed

lemma core_ok_cbs: "core_ok s \<Longrightarrow> cb \<in> set (tw_cbs (s_wheel s)) \<Longrightarrow> cb_ref cb < length (s_objs s)"
  by (simp add: core_ok_def)

lemma core_ok_wheel_Cancel [intro!]: "core_ok s \<Longrightarrow> core_ok (wheel_Cancel tid s)"
  unfolding wheel_Cancel_def by (rule core_ok_wheel) (auto intro: core_ok_cbs)

lemma core_ok_wheel_Schedule:
  assumes "core_ok s" and "wheel_Schedule tid at cb s = Inr (er, s1)" and "cb_ref cb < length (s_objs s)"
  shows "core_ok s1 \<and> length (s_objs s1) = length (s_objs s)"
proof -
  obtain w where w: "TimingWheel_Schedule tid (UnixMilli at) (Some cb) (s_wheel s) = Inr (er, w)"
      "s1 = s\<lparr>s_wheel := w\<rparr>"
    using assms(2) by (auto simp: wheel_Schedule_def go_bind_def split: sum.splits prod.splits)
  have "c \<in> set (tw_cbs w) \<Longrightarrow> cb_ref c < length (s_objs s)" for c
    using Schedule_cbs [OF w(1)] assms(3) core_ok_cbs [OF assms(1), of c] by auto
  then show ?thesis using assms(1) by (simp add: w(2) core_ok_wheel)
qed

section \<open>The other operations\<close>

lemma core_ok_fail_dead: "core_ok s \<Longrightarrow> core_ok (fail_dead E r s)"
  by (auto simp: fail_dead_def Let_def)

lemma core_ok_fail_final: "core_ok s \<Longrightarrow> core_ok (fail_final E r s)"
  by (auto simp: fail_final_def Let_def)

lemma core_ok_fail_retry:
  assumes "core_ok s" and "fail_retry newid at r s = Inr s1"
  shows "core_ok s1"
proof -
  let ?s = "upd_tracked (t_id (task_at s r)) (\<lambda>x. x\<lparr>t_status := StatusRetrying\<rparr>) s"
  obtain r' s2 where a: "alloc_task (retry_task newid (task_at s r)) ?s = (r', s2)"
    by (cases "alloc_task (retry_task newid (task_at s r)) ?s")
  have "core_ok ?s" using assms(1) by auto
  note k = core_ok_alloc [OF this a]
  show ?thesis
    using assms(2) a k core_ok_wheel_Schedule [OF k(1), of "t_id (task_at s r)" at "CbRetry r'"]
    by (auto simp: fail_retry_def Let_def go_bind_def split: sum.splits)
qed

lemma core_ok_handleFailure: "core_ok s \<Longrightarrow> handleFailure E now newid r s = Inr s1 \<Longrightarrow> core_ok s1"
  by (auto simp: handleFailure_def Let_def dest!: core_ok_fail_retry [rotated]
    intro!: core_ok_fail_dead core_ok_fail_final split: if_splits option.splits)

lemma core_ok_evict: "core_ok s \<Longrightarrow> core_ok (runTask_evict rn s)"
  by (auto simp: runTask_evict_def Let_def)

lemma core_ok_success: "core_ok s \<Longrightarrow> core_ok (finish_success E r s)"
  by (auto simp: finish_success_def Let_def)

lemma core_ok_cancelled: "core_ok s \<Longrightarrow> core_ok (finish_cancelled E r s)"
  by (auto simp: finish_cancelled_def Let_def)

lemma core_ok_done: "core_ok s \<Longrightarrow> runTask_done E now newid rn failed s = Inr s1 \<Longrightarrow> core_ok s1"
  by (auto simp: runTask_done_def Let_def go_bind_def split: if_splits sum.splits
    intro!: core_ok_evict core_ok_success dest!: core_ok_handleFailure [rotated])

lemma core_ok_ctxDone: "core_ok s \<Longrightarrow> runTask_ctxDone E now newid rn canceled s = Inr s1 \<Longrightarrow> core_ok s1"
  by (auto simp: runTask_ctxDone_def Let_def go_bind_def split: if_splits sum.splits
    intro!: core_ok_evict core_ok_cancelled dest!: core_ok_handleFailure [rotated])

lemma core_ok_start: "core_ok s \<Longrightarrow> runTask_start E r s = (rn, s1) \<Longrightarrow> core_ok s1"
  by (auto simp: runTask_start_def Let_def split: option.splits if_splits prod.splits)

lemma schedule_track_ok:
  assumes "core_ok s" and "r < length (s_objs s)"
  shows "core_ok (schedule_track r s)" and "length (s_objs (schedule_track r s)) = length (s_objs s)"
  using assms by (auto simp: schedule_track_def new_ctx_def split: prod.splits)

lemma core_ok_schedule_wheel:
  assumes "core_ok s" and "schedule_wheel r at cb s = Inr (res, s1)" and "cb_ref cb < length (s_objs s)"
  shows "core_ok s1"
  using assms core_ok_wheel_Schedule [OF assms(1) _ assms(3), of "t_id (task_at s r)" at]
  by (auto simp: schedule_wheel_def go_bind_def split: sum.splits)

lemma core_ok_ScheduleOnceTask:
  assumes "core_ok s" and "r < length (s_objs s)" and "ScheduleOnceTask r at s = Inr (res, s1)"
  shows "core_ok s1"
  using assms core_ok_schedule_wheel [of "schedule_track r s" r at "CbOnce r"] schedule_track_ok [OF assms(1,2)]
  by (auto simp: ScheduleOnceTask_def split: if_splits)

lemma core_ok_ScheduleRecurringTask:
  assumes "core_ok s" and "r < length (s_objs s)" and "ScheduleRecurringTask now r iv s = Inr (res, s1)"
  shows "core_ok s1"
  using assms core_ok_schedule_wheel [of "schedule_track r s" r _ "CbRecurring r iv"] schedule_track_ok [OF assms(1,2)]
  by (auto simp: ScheduleRecurringTask_def split: if_splits)

lemma core_ok_ScheduleCronTask:
  assumes "core_ok s" and "r < length (s_objs s)" and "ScheduleCronTask E now r spec s = Inr (res, s1)"
  shows "core_ok s1"
  using assms core_ok_schedule_wheel [of "schedule_track r s" r _ "CbCron r (Fields spec)"] schedule_track_ok [OF assms(1,2)]
  by (auto simp: ScheduleCronTask_def Let_def split: if_splits)

lemma submit_child_ok:
  assumes "core_ok s"
  shows "core_ok (submit_child E newid r s)" and "length (s_objs (submit_child E newid r s)) = Suc (length (s_objs s))"
proof -
  obtain c s1 where a: "alloc_task (child_task newid (task_at s r)) s = (c, s1)"
    by (cases "alloc_task (child_task newid (task_at s r)) s")
  note k = core_ok_alloc [OF assms a]
  show "core_ok (submit_child E newid r s)" using a k core_ok_Submit by (simp add: submit_child_def)
  show "length (s_objs (submit_child E newid r s)) = Suc (length (s_objs s))"
    using a by (auto simp: submit_child_def Submit_objs alloc_task_def)
qed

lemma core_ok_callback:
  assumes "core_ok s" and "cb_ref cb < length (s_objs s)" and "run_callback E now newid cb s = Inr s1"
  shows "core_ok s1"
  using assms(2,3)
proof (cases cb)
  case (CbRecurring r iv)
  note k = submit_child_ok [OF assms(1), of E newid r]
  show ?thesis
    using CbRecurring assms k core_ok_wheel_Schedule [OF k(1), of _ _ "CbRecurring r iv"]
    by (auto simp: Let_def go_bind_def split: if_splits sum.splits)
next
  case (CbCron r fs)
  note k = submit_child_ok [OF assms(1), of E newid r]
  show ?thesis
    using CbCron assms k core_ok_wheel_Schedule [OF k(1), of _ _ "CbCron r fs"]
    by (auto simp: Let_def go_bind_def split: if_splits sum.splits)
qed (use assms(1) in \<open>auto intro: core_ok_Submit\<close>)

lemma cancel_mark_ok: "cancel_mark tid s = (b, s1) \<Longrightarrow> core_ok s \<Longrightarrow> core_ok s1"
  by (auto simp: cancel_mark_def Let_def split: option.splits if_splits)

lemma core_ok_finalize: "core_ok s \<Longrightarrow> core_ok (cancel_finalize E tid r s)"
  by (auto simp: cancel_finalize_def Let_def)

lemma core_ok_Cancel: "core_ok s \<Longrightarrow> core_ok (snd (Cancel E tid s))"
  by (auto simp: Cancel_def Let_def store_call_def split: prod.splits option.splits
    dest!: cancel_mark_ok intro!: core_ok_finalize)

lemma core_ok_onCancel: "core_ok s \<Longrightarrow> core_ok (onCancel tid s)"
  by (auto simp: onCancel_def split: option.splits)

lemma core_ok_Resubmit: "core_ok s \<Longrightarrow> core_ok (snd (Resubmit tid s))"
  by (auto simp: Resubmit_def Let_def split: option.splits intro!: core_ok_push) (auto simp: core_ok_def)

section \<open>The loops\<close>

lemma core_ok_load_one: "core_ok s \<Longrightarrow> core_ok (load_one E pt s)"
  by (auto simp: load_one_def split: prod.splits sum.splits bool.splits option.splits
    intro!: core_ok_push core_ok_track dest!: core_ok_store_call dest: core_ok_alloc(1,2))

lemma core_ok_loadTasks: "core_ok s \<Longrightarrow> core_ok (loadTasks E s)"
  by (auto simp: loadTasks_def split: prod.splits sum.splits intro!: core_ok_fold core_ok_load_one)

lemma core_ok_spawn [simp]: "core_ok (spawnWorkersForPoolLocked pool n s) = core_ok s"
  by (simp add: spawnWorkersForPoolLocked_def Let_def split: option.splits)

lemma core_ok_ScalePool [simp]: "core_ok (ScalePool pool n s) = core_ok s"
  by (simp add: ScalePool_def Let_def split: option.splits)

lemma core_ok_dispatch [simp]: "core_ok (dispatchTask r s) = core_ok s"
  by (simp add: dispatchTask_def Let_def split: option.splits)

lemma core_ok_send: "dispatch_send s = Some s1 \<Longrightarrow> core_ok s \<Longrightarrow> core_ok s1"
  by (auto simp: dispatch_send_def split: option.splits if_splits)

lemma core_ok_set_worker [simp]: "core_ok (set_worker i st s) = core_ok s"
  by (simp add: set_worker_def)

lemma core_ok_pop:
  assumes "pop_queue s = (r, s1)" and "core_ok s"
  shows "core_ok s1"
proof (cases "heap_Pop (taskHeap (prio s)) (s_queue s)")
  case (Some p)
  obtain x q where p: "p = (x, q)" by (cases p)
  have o: "tq.ordered (prio s) (s_queue s)" using assms(2) by (simp add: core_ok_def)
  note k = taskHeap_Pop [OF o Some [unfolded p]]
  have s1: "s1 = s\<lparr>s_queue := q, s_queueSize := s_queueSize s - 1\<rparr>"
    using assms(1) Some p by (simp add: pop_queue_def)
  have "prio s1 = prio s" by (simp add: s1 prio_def task_at_def fun_eq_iff)
  then show ?thesis using assms(2) k unfolding core_ok_def by (auto simp: s1 task_at_def)
qed (use assms in \<open>simp add: pop_queue_def\<close>)

lemma core_ok_dequeue_storage: "dequeue_storage E s = (r, s1) \<Longrightarrow> core_ok s \<Longrightarrow> core_ok s1"
  by (auto simp: dequeue_storage_def split: prod.splits sum.splits bool.splits option.splits
    intro!: core_ok_track dest!: core_ok_store_call dest: core_ok_alloc(1,2))

lemma core_ok_dequeue: "core_ok s \<Longrightarrow> core_ok (dequeue_round E s)"
  by (auto simp: dequeue_round_def split: prod.splits option.splits dest!: core_ok_pop core_ok_dequeue_storage)

lemma core_ok_recv: "chan_recv pool s = Some (r, s1) \<Longrightarrow> core_ok s \<Longrightarrow> core_ok s1"
  by (auto simp: chan_recv_def split: option.splits list.splits if_splits)

lemma core_ok_take: "worker_take E i s = Some s1 \<Longrightarrow> core_ok s \<Longrightarrow> core_ok s1"
  by (auto simp: worker_take_def Let_def split: option.splits prod.splits
    dest!: core_ok_recv core_ok_start [rotated])

lemma core_ok_control: "worker_control i s = Some s1 \<Longrightarrow> core_ok s \<Longrightarrow> core_ok s1"
  by (auto simp: worker_control_def Let_def split: option.splits nat.splits)

lemma core_ok_ShutDown: "core_ok s \<Longrightarrow> core_ok (ShutDown s)"
  by (auto simp: ShutDown_def Let_def core_ok_cbs intro!: core_ok_fold core_ok_wheel split: prod.splits)

end
