(* ===== verification/Scheduler_Frame.thy ===== *)
theory Scheduler_Frame
  imports Scheduler_Invariant
begin

text \<open>
  Frame facts: which operations leave the wheel, the workers, the dispatch slot and the pools alone,
  and that no operation drops a task object.
\<close>

section \<open>The part most operations leave alone\<close>

definition aux :: "('job, 'rs, 'st) Scheduler \<Rightarrow>
    wheel_cb TimingWheel \<times> worker list \<times> (task_ref \<times> string) option \<times> chan gomap \<times> int \<times> bool" where
  "aux s = (s_wheel s, s_workers s, s_dispatch s, s_poolQueues s, s_currentWorkers s, s_stop s)"

lemma auxD:
  assumes "aux s' = aux s"
  shows "s_wheel s' = s_wheel s" "s_workers s' = s_workers s" "s_dispatch s' = s_dispatch s"
    "s_poolQueues s' = s_poolQueues s" "s_currentWorkers s' = s_currentWorkers s" "s_stop s' = s_stop s"
  using assms by (simp_all add: aux_def)

lemma aux_basic [simp]:
  "aux (upd_task r f s) = aux s" "aux (track r s) = aux s" "aux (untrack k s) = aux s"
  "aux (push_queue r s) = aux s" "aux (release_key k s) = aux s" "aux (call_cancel c s) = aux s"
  "aux (upd_tracked k f s) = aux s" "aux (snd (alloc_task t s)) = aux s" "aux (snd (new_ctx s)) = aux s"
  "aux (snd (store_call g s)) = aux s" "aux (store_do g s) = aux s" "aux (recordHistory E r s) = aux s"
  by (auto simp: aux_def upd_task_def track_def untrack_def push_queue_def release_key_def call_cancel_def
    upd_tracked_def alloc_task_def new_ctx_def store_call_def store_do_def recordHistory_def
    split: option.splits prod.splits)

lemma aux_fields [simp]:
  "aux (s\<lparr>s_activeKeys := a\<rparr>) = aux s" "aux (s\<lparr>s_failureCount := i\<rparr>) = aux s" "aux (s\<lparr>s_deadCount := i\<rparr>) = aux s"
  "aux (s\<lparr>s_successCount := i\<rparr>) = aux s" "aux (s\<lparr>s_ctxs := c\<rparr>) = aux s" "aux (s\<lparr>s_storage := st\<rparr>) = aux s"
  "aux (s\<lparr>s_registry := m\<rparr>) = aux s" "aux (s\<lparr>s_middlewares := k\<rparr>) = aux s" "aux (s\<lparr>s_paused := p\<rparr>) = aux s"
  "aux (s\<lparr>s_queue := q, s_queueSize := i\<rparr>) = aux s" "aux (s\<lparr>s_objs := t\<rparr>) = aux s"
  by (simp_all add: aux_def)

lemma aux_submit_link [simp]: "aux (snd (submit_link r s)) = aux s"
  by (simp add: submit_link_def Let_def split: option.split)

lemma aux_submit_admit [simp]: "aux (submit_admit r s) = aux s"
  by (simp add: submit_admit_def Let_def)

lemma aux_submit_persist [simp]: "aux (snd (submit_persist E r s)) = aux s"
  by (simp add: submit_persist_def submit_enqueue_def Let_def prod.case_eq_if split: option.split)

lemma aux_Submit [simp]: "aux (snd (Submit E r s)) = aux s"
  by (simp add: Submit_def prod.case_eq_if split: option.split)

lemma aux_submit_ready [simp]: "aux (submit_ready E rt s) = aux s"
  by (simp add: submit_ready_def prod.case_eq_if split: option.split)

lemma aux_fold: "(\<And>x s. aux (f x s) = aux s) \<Longrightarrow> aux (fold f xs s) = aux s"
  by (induction xs arbitrary: s) simp_all

lemma aux_resolve [simp]: "aux (resolveWorkflow E tid st s) = aux s"
  by (simp add: resolveWorkflow_def aux_fold prod.case_eq_if split: sum.split)

lemma aux_outcomes [simp]:
  "aux (fail_dead E r s) = aux s" "aux (fail_final E r s) = aux s"
  "aux (finish_success E r s) = aux s" "aux (finish_cancelled E r s) = aux s"
  "aux (runTask_evict rn s) = aux s" "aux (cancel_finalize E tid r s) = aux s"
  "aux (onCancel tid s) = aux s" "aux (snd (Resubmit tid s)) = aux s" "aux (ReportProgress rn p s) = aux s"
  "aux (recovery_tick E s) = aux s" "aux (snd (heartbeat E tid s)) = aux s"
  by (auto simp: fail_dead_def fail_final_def finish_success_def finish_cancelled_def runTask_evict_def
    cancel_finalize_def onCancel_def Resubmit_def ReportProgress_def recovery_tick_def heartbeat_def
    Let_def prod.case_eq_if split: option.split)

lemma aux_start [simp]: "aux (snd (runTask_start E r s)) = aux s"
  by (simp add: runTask_start_def Let_def prod.case_eq_if split: option.split)

lemma aux_schedule_track [simp]: "aux (schedule_track r s) = aux s"
  by (simp add: schedule_track_def prod.case_eq_if)

lemma aux_submit_child [simp]: "aux (submit_child E newid r s) = aux s"
  by (simp add: submit_child_def prod.case_eq_if)

lemma aux_cancel_mark [simp]: "aux (snd (cancel_mark tid s)) = aux s"
  by (simp add: cancel_mark_def Let_def split: option.split)

lemma aux_load_one [simp]: "aux (load_one E pt s) = aux s"
  by (simp add: load_one_def prod.case_eq_if split: sum.split bool.split option.split)

lemma aux_loadTasks [simp]: "aux (loadTasks E s) = aux s"
  by (simp add: loadTasks_def aux_fold prod.case_eq_if split: sum.split)

lemma aux_pop [simp]: "aux (snd (pop_queue s)) = aux s"
  by (simp add: pop_queue_def split: option.split prod.split)

lemma aux_dequeue_storage [simp]: "aux (snd (dequeue_storage E s)) = aux s"
  by (simp add: dequeue_storage_def prod.case_eq_if split: sum.split bool.split option.split)

lemmas aux_ops = aux_basic aux_submit_link aux_submit_admit aux_submit_persist aux_Submit aux_submit_ready
  aux_resolve aux_outcomes aux_start aux_schedule_track aux_submit_child aux_cancel_mark aux_loadTasks
  aux_pop aux_dequeue_storage

lemmas frame_wheel [simp] = aux_ops [THEN auxD(1)]
lemmas frame_workers [simp] = aux_ops [THEN auxD(2)]
lemmas frame_dispatch [simp] = aux_ops [THEN auxD(3)]
lemmas frame_pools [simp] = aux_ops [THEN auxD(4)]
lemmas frame_current [simp] = aux_ops [THEN auxD(5)]
lemmas frame_stop [simp] = aux_ops [THEN auxD(6)]

section \<open>No task object is dropped\<close>

abbreviation n_objs :: "('job, 'rs, 'st) Scheduler \<Rightarrow> nat" where
  "n_objs s \<equiv> length (s_objs s)"

lemma n_objs_basic [simp]: "n_objs (snd (alloc_task t s)) = Suc (n_objs s)" "n_objs (snd (new_ctx s)) = n_objs s"
  "n_objs (snd (store_call g s)) = n_objs s" "n_objs (snd (Submit E r s)) = n_objs s"
  "n_objs (schedule_track r s) = n_objs s" "n_objs (runTask_evict rn s) = n_objs s"
  "n_objs (snd (pop_queue s)) = n_objs s" "n_objs (snd (cancel_mark tid s)) = n_objs s"
  "n_objs (snd (runTask_start E r s)) = n_objs s"
  by (simp_all add: alloc_task_def new_ctx_def store_call_def Submit_objs schedule_track_def runTask_evict_def
    pop_queue_def cancel_mark_def runTask_start_def Let_def split: prod.split option.split)

lemma n_objs_fold: "(\<And>x s. n_objs s \<le> n_objs (f x s)) \<Longrightarrow> n_objs s \<le> n_objs (fold f xs s)"
proof (induction xs arbitrary: s)
  case (Cons x xs)
  then have "n_objs s \<le> n_objs (f x s)" "n_objs (f x s) \<le> n_objs (fold f xs (f x s))" by blast+
  then show ?case by simp
qed simp

lemma n_objs_resolve: "n_objs s \<le> n_objs (resolveWorkflow E tid st s)"
proof -
  have "n_objs s \<le> n_objs (submit_ready E x s)" for x :: PersistentTask and s :: "('a, 'b, 'c) Scheduler"
    by (simp add: submit_ready_def prod.case_eq_if split: option.split)
  then show ?thesis
    using n_objs_fold [of "submit_ready E" "snd (store_call (st_ResolveDependencies (env_storage E) tid st) s)"]
    by (simp add: resolveWorkflow_def prod.case_eq_if split: sum.split)
qed

lemma n_objs_loadTasks: "n_objs s \<le> n_objs (loadTasks E s)"
proof -
  have "n_objs s \<le> n_objs (load_one E x s)" for x and s :: "('a, 'b, 'c) Scheduler"
    by (simp add: load_one_def prod.case_eq_if split: sum.split bool.split option.split)
  then show ?thesis
    using n_objs_fold [of "load_one E" "snd (store_call (st_LoadAll (env_storage E)) s)"]
    by (simp add: loadTasks_def prod.case_eq_if split: sum.split)
qed

lemma n_objs_resolve_le: "n_objs a \<le> n_objs s \<Longrightarrow> n_objs a \<le> n_objs (resolveWorkflow E tid st s)"
  using n_objs_resolve [of s E tid st] by simp

lemma n_objs_outcomes:
  "n_objs s \<le> n_objs (fail_dead E r s)" "n_objs s \<le> n_objs (fail_final E r s)"
  "n_objs s \<le> n_objs (finish_success E r s)" "n_objs s \<le> n_objs (finish_cancelled E r s)"
  "n_objs s \<le> n_objs (cancel_finalize E tid r s)" "n_objs s \<le> n_objs (onCancel tid s)"
  "n_objs s \<le> n_objs (snd (Resubmit tid s))" "n_objs s \<le> n_objs (submit_child E newid r s)"
  "n_objs s \<le> n_objs (snd (dequeue_storage E s))"
  by (auto simp: fail_dead_def fail_final_def finish_success_def finish_cancelled_def cancel_finalize_def
    onCancel_def Resubmit_def submit_child_def dequeue_storage_def Let_def prod.case_eq_if
    intro!: n_objs_resolve_le split: option.split sum.split bool.split)

end
