(* ===== verification/Scheduler_Run.thy ===== *)
theory Scheduler_Run
  imports Scheduler_Frame
begin

text \<open>
  The scheduler as a state machine: the steps are the public operations, the callbacks of the wheel,
  the rounds of the background loops and the moves of the workers, in any order. Every reachable state
  satisfies \<open>core_ok\<close>, and the wheel inside the scheduler only makes steps of the wheel's own state
  machine, so what \<open>Wheel_Run\<close> proves of a reachable wheel holds of the scheduler's.
\<close>

section \<open>What the other operations do to the wheel\<close>

lemma wheel_Cancel_frame: "s_wheel (snd (Cancel E tid s)) = TimingWheel_Cancel tid (s_wheel s)"
  by (simp add: Cancel_def Let_def wheel_Cancel_def prod.case_eq_if split: option.split)

lemma wheel_pools [simp]:
  "s_wheel (spawnWorkersForPoolLocked pool n s) = s_wheel s" "s_wheel (ScalePool pool n s) = s_wheel s"
  "s_wheel (dispatchTask r s) = s_wheel s" "s_wheel (set_worker i st s) = s_wheel s"
  by (auto simp: spawnWorkersForPoolLocked_def ScalePool_def dispatchTask_def set_worker_def Let_def split: option.split)

lemma wheel_dequeue [simp]: "s_wheel (dequeue_round E s) = s_wheel s"
  by (simp add: dequeue_round_def prod.case_eq_if split: option.split)

lemma wheel_recv: "chan_recv pool s = Some (r, s1) \<Longrightarrow> s_wheel s1 = s_wheel s"
  by (auto simp: chan_recv_def split: option.splits list.splits if_splits)

lemma wheel_take: "worker_take E i s = Some s1 \<Longrightarrow> s_wheel s1 = s_wheel s"
  by (auto simp: worker_take_def Let_def prod.case_eq_if wheel_recv split: option.splits if_splits)

lemma wheel_control: "worker_control i s = Some s1 \<Longrightarrow> s_wheel s1 = s_wheel s"
  by (auto simp: worker_control_def Let_def split: option.splits nat.splits)

lemma wheel_send: "dispatch_send s = Some s1 \<Longrightarrow> s_wheel s1 = s_wheel s"
  by (auto simp: dispatch_send_def split: option.splits if_splits)

lemma fold_frame: "(\<And>x s. s_wheel (f x s) = s_wheel s) \<Longrightarrow> s_wheel (fold f xs s) = s_wheel s"
  by (induction xs arbitrary: s) simp_all

lemma wheel_ShutDown: "s_wheel (ShutDown s) = (if s_stopped s then s_wheel s else TimingWheel_Stop (s_wheel s))"
  by (simp add: ShutDown_def Let_def fold_frame split_beta)

section \<open>Steps\<close>

text \<open>
  A state is the time (in nanoseconds), the set of dispatched callbacks that have already run, and
  the scheduler. \<open>time_ok\<close> bounds the times handed to the wheel (the year 570,000 or so), so that the
  wheel's arithmetic stays within 64 bits; \<open>retry_ok\<close> asks the same of the backoff of a failing task.
\<close>

definition time_ok :: "int \<Rightarrow> bool" where
  "time_ok t \<longleftrightarrow> t < 2 ^ 54 * 1000000"

definition now_ok :: "int \<Rightarrow> bool" where
  "now_ok t \<longleftrightarrow> t < 2 ^ 53 * 1000000"

definition delay_ok :: "int \<Rightarrow> bool" where
  "delay_ok d \<longleftrightarrow> d \<le> 2 ^ 53 * 1000000"

definition retry_ok :: "('rs, 'st) env \<Rightarrow> ('job, 'rs) task \<Rightarrow> bool" where
  "retry_ok E t \<longleftrightarrow> (\<forall>d. retry_decision E t = Some d \<longrightarrow> delay_ok d)"

type_synonym ('job, 'rs, 'st) sys = "int \<times> entry_ref set \<times> ('job, 'rs, 'st) Scheduler"

inductive sched_step :: "('rs, 'st) env \<Rightarrow> ('job, 'rs, 'st) sys \<Rightarrow> ('job, 'rs, 'st) sys \<Rightarrow> bool"
  for E :: "('rs, 'st) env" where
  time: "now \<le> now' \<Longrightarrow> now_ok now' \<Longrightarrow> sched_step E (now, gone, s) (now', gone, s)"
| env_store: "env_other E (s_storage s) st \<Longrightarrow> sched_step E (now, gone, s) (now, gone, s\<lparr>s_storage := st\<rparr>)"
| register: "sched_step E (now, gone, s) (now, gone, RegisterJob name job s)"
| use_mw: "sched_step E (now, gone, s) (now, gone, Use mws s)"
| create: "user_task t \<Longrightarrow> sched_step E (now, gone, s) (now, gone, snd (alloc_task t s))"
| submit: "r < length (s_objs s) \<Longrightarrow> sched_step E (now, gone, s) (now, gone, snd (Submit E r s))"
| once: "r < length (s_objs s) \<Longrightarrow> time_ok at \<Longrightarrow> ScheduleOnceTask r at s = Inr (res, s1) \<Longrightarrow>
    sched_step E (now, gone, s) (now, gone, s1)"
| recurring: "r < length (s_objs s) \<Longrightarrow> delay_ok iv \<Longrightarrow> ScheduleRecurringTask now r iv s = Inr (res, s1) \<Longrightarrow>
    sched_step E (now, gone, s) (now, gone, s1)"
| cron: "r < length (s_objs s) \<Longrightarrow> ScheduleCronTask E now r spec s = Inr (res, s1) \<Longrightarrow>
    sched_step E (now, gone, s) (now, gone, s1)"
| cancel: "sched_step E (now, gone, s) (now, gone, snd (Cancel E tid s))"
| remote_cancel: "sched_step E (now, gone, s) (now, gone, onCancel tid s)"
| resubmit: "sched_step E (now, gone, s) (now, gone, snd (Resubmit tid s))"
| wheel_tick: "tickLoop fuel (UnixMilli now) (s_wheel s) = Inr w \<Longrightarrow>
    sched_step E (now, gone, s) (now, gone, s\<lparr>s_wheel := w\<rparr>)"
| callback: "e \<in> set (tw_fired (s_wheel s)) \<Longrightarrow> e \<notin> gone \<Longrightarrow>
    run_callback E now newid (e_callback (tw_store (s_wheel s) ! e)) s = Inr s1 \<Longrightarrow>
    sched_step E (now, gone, s) (now, insert e gone, s1)"
| cleanup: "sched_step E (now, gone, s) (now, gone, cleanup_tick E s)"
| recovery: "sched_step E (now, gone, s) (now, gone, recovery_tick E s)"
| dequeue: "s_dispatch s = None \<Longrightarrow> \<not> s_stop s \<Longrightarrow> sched_step E (now, gone, s) (now, gone, dequeue_round E s)"
| send: "dispatch_send s = Some s1 \<Longrightarrow> sched_step E (now, gone, s) (now, gone, s1)"
| start_worker: "i < length (s_workers s) \<Longrightarrow> w_state (s_workers s ! i) = WStarting \<Longrightarrow>
    sched_step E (now, gone, s) (now, gone, worker_start i s)"
| take: "i < length (s_workers s) \<Longrightarrow> w_state (s_workers s ! i) = WIdle True \<Longrightarrow> worker_take E i s = Some s1 \<Longrightarrow>
    sched_step E (now, gone, s) (now, gone, s1)"
| control: "i < length (s_workers s) \<Longrightarrow> w_state (s_workers s ! i) = WIdle b \<Longrightarrow> worker_control i s = Some s1 \<Longrightarrow>
    sched_step E (now, gone, s) (now, gone, s1)"
| stop_worker: "i < length (s_workers s) \<Longrightarrow> w_state (s_workers s ! i) = WIdle b \<Longrightarrow> s_stop s \<Longrightarrow>
    sched_step E (now, gone, s) (now, gone, set_worker i WExited s)"
| finish: "i < length (s_workers s) \<Longrightarrow> w_state (s_workers s ! i) = WRunning b rn \<Longrightarrow>
    retry_ok E (task_at s (r_task rn)) \<Longrightarrow>
    runTask_done E now newid rn failed s = Inr s1 \<Longrightarrow>
    sched_step E (now, gone, s) (now, gone, set_worker i (WIdle b) s1)"
| ctx_done: "i < length (s_workers s) \<Longrightarrow> w_state (s_workers s ! i) = WRunning b rn \<Longrightarrow>
    retry_ok E (task_at s (r_task rn)) \<Longrightarrow>
    (if canceled then r_ctx rn < length (s_ctxs s) \<and> s_ctxs s ! r_ctx rn else 0 < r_delay rn) \<Longrightarrow>
    runTask_ctxDone E now newid rn canceled s = Inr s1 \<Longrightarrow>
    sched_step E (now, gone, s) (now, gone, set_worker i (WIdle b) s1)"
| progress: "sched_step E (now, gone, s) (now, gone, ReportProgress rn percent s)"
| beat: "sched_step E (now, gone, s) (now, gone, snd (heartbeat E tid s))"
| scale: "sched_step E (now, gone, s) (now, gone, ScalePool pool n s)"
| pause: "sched_step E (now, gone, s) (now, gone, Pause s)"
| resume: "sched_step E (now, gone, s) (now, gone, Resume s)"
| shutdown: "sched_step E (now, gone, s) (now, gone, ShutDown s)"

text \<open>The options of \<open>options.go\<close>, as a list of values of this type, configure a new scheduler.\<close>

datatype ('job, 'rs, 'st) opt =
    OMaxWorkers int | OQueueSize int | OTaskTimeout int | OInitialWorkers int | OWorkersForPool string int
  | ORetryStrategy "'rs option" | OStorage 'st | OJob string 'job | OMaxCapacity int | OInstanceID string
  | OLeaseDuration int | OHistoryRetention int | ORecoveryInterval int | OLogger "unit option"

fun apply_opt :: "('job, 'rs, 'st) opt \<Rightarrow> ('job, 'rs, 'st) Option" where
  "apply_opt (OMaxWorkers n) = WithMaxWorkers n"
| "apply_opt (OQueueSize n) = WithQueueSize n"
| "apply_opt (OTaskTimeout d) = WithTaskTimeout d"
| "apply_opt (OInitialWorkers n) = WithInitialWorkers n"
| "apply_opt (OWorkersForPool p n) = WithWorkersForPool p n"
| "apply_opt (ORetryStrategy rs) = WithRetryStrategy rs"
| "apply_opt (OStorage st) = WithStorage st"
| "apply_opt (OJob n j) = WithJob n j"
| "apply_opt (OMaxCapacity n) = WithMaxCapacity n"
| "apply_opt (OInstanceID i) = WithInstanceID i"
| "apply_opt (OLeaseDuration d) = WithLeaseDuration d"
| "apply_opt (OHistoryRetention d) = WithHistoryRetention d"
| "apply_opt (ORecoveryInterval d) = WithRecoveryInterval d"
| "apply_opt (OLogger l) = WithLogger l"

inductive sched_reach :: "('rs, 'st) env \<Rightarrow> ('job, 'rs, 'st) sys \<Rightarrow> bool"
  for E :: "('rs, 'st) env" where
  new: "0 \<le> now \<Longrightarrow> now_ok now \<Longrightarrow> env_init E st \<Longrightarrow> (\<And>st'. OStorage st' \<in> set opts \<Longrightarrow> env_init E st') \<Longrightarrow>
    New E now newid st (map apply_opt opts) = Inr s \<Longrightarrow>
    sched_reach E (now, {}, s)"
| step: "sched_reach E x \<Longrightarrow> sched_step E x y \<Longrightarrow> sched_reach E y"

section \<open>The data invariant holds\<close>

lemma RegisterJob_simps [simp]: "core_ok (RegisterJob n j s) = core_ok s" "s_wheel (RegisterJob n j s) = s_wheel s"
  by (simp_all add: RegisterJob_def)

lemmas option_defs = WithMaxWorkers_def WithQueueSize_def WithTaskTimeout_def WithInitialWorkers_def
  WithWorkersForPool_def WithRetryStrategy_def WithStorage_def WithJob_def WithMaxCapacity_def
  WithInstanceID_def WithLeaseDuration_def WithHistoryRetention_def WithRecoveryInterval_def WithLogger_def
  RegisterJob_def

lemma apply_opt_core [simp]: "core_ok (apply_opt opt s) = core_ok s"
  by (cases opt) (simp_all add: option_defs)

lemma apply_opt_wheelTick [simp]: "s_wheelTick (apply_opt opt s) = s_wheelTick s"
  by (cases opt) (simp_all add: option_defs)

lemma apply_opt_wheelSize [simp]: "s_wheelSize (apply_opt opt s) = s_wheelSize s"
  by (cases opt) (simp_all add: option_defs)

lemma apply_opts_frame:
  "core_ok (fold apply_opt opts s) = core_ok s" "s_wheelTick (fold apply_opt opts s) = s_wheelTick s"
  "s_wheelSize (fold apply_opt opts s) = s_wheelSize s"
  by (induction opts arbitrary: s) simp_all

lemma fold_map_id: "fold (\<lambda>f. f) (map g xs) s = fold g xs s"
  by (induction xs arbitrary: s) simp_all

lemma spawn_all_frame [simp]: "core_ok (spawn_all s) = core_ok s" "s_wheel (spawn_all s) = s_wheel s"
proof -
  have "core_ok (fold (\<lambda>(pool, cnt). spawnWorkersForPoolLocked pool cnt) xs s') = core_ok s'" for xs s'
    by (induction xs arbitrary: s') (simp_all add: split_beta)
  then show "core_ok (spawn_all s) = core_ok s" by (simp add: spawn_all_def)
qed (simp add: spawn_all_def fold_frame split_beta)

lemma default_pool_frame [simp]: "core_ok (default_pool s) = core_ok s" "s_wheel (default_pool s) = s_wheel s"
  by (simp_all add: default_pool_def split: option.split)

text \<open>A new scheduler has a new, started wheel with a 10 ms tick and 256 slots.\<close>

lemma New_ok:
  assumes "New E now newid st (map apply_opt opts) = Inr s"
  obtains w where "NewTimingWheel 10000000 256 (UnixMilli now) = Inr w" "s_wheel s = TimingWheel_Start w" "core_ok s"
proof -
  let ?s = "fold apply_opt opts (new_scheduler newid st)"
  have t: "s_wheelTick ?s = 10000000" "s_wheelSize ?s = 256" "core_ok ?s"
    by (simp_all add: apply_opts_frame) (simp_all add: new_scheduler_def core_ok_def nil_wheel_def tw_cbs_def)
  obtain w where w: "NewTimingWheel 10000000 256 (UnixMilli now) = Inr w"
    "s = spawn_all (default_pool (loadTasks E (?s\<lparr>s_wheel := TimingWheel_Start w\<rparr>)))"
    using assms t by (auto simp: New_def fold_map_id go_bind_def split: sum.splits)
  have "tw_cbs w = []"
    using w(1) by (auto simp: NewTimingWheel_def Let_def go_bind_def tw_cbs_def split: sum.splits)
  then have "core_ok (?s\<lparr>s_wheel := TimingWheel_Start w\<rparr>)" using t(3) by (intro core_ok_wheel) simp_all
  then show ?thesis using that w by (simp add: core_ok_loadTasks)
qed

lemma fired_callback_ref:
  assumes "core_ok s" and "wheel_ok {} (s_wheel s)" and "e \<in> set (tw_fired (s_wheel s))"
  shows "cb_ref (e_callback (tw_store (s_wheel s) ! e)) < length (s_objs s)"
proof -
  have "e < length (tw_store (s_wheel s))" using assms(2,3) by (auto simp: wheel_ok_def)
  then show ?thesis using assms(1) by (intro core_ok_cbs) (auto simp: tw_cbs_def)
qed

lemma core_ok_step:
  assumes "sched_step E (now, gone, s) (now', gone', s')" and "core_ok s" and "wheel_ok {} (s_wheel s)"
  shows "core_ok s'"
  using assms(1)
proof cases
  case (create t)
  then show ?thesis using assms(2) core_ok_alloc(1) by (metis prod.collapse)
next
  case (wheel_tick fuel w)
  then show ?thesis
    using assms(2) tickLoop_cbs [OF wheel_tick(4)] by (auto intro!: core_ok_wheel core_ok_cbs)
next
  case (callback e newid)
  then show ?thesis using assms(2) fired_callback_ref [OF assms(2,3)] core_ok_callback by blast
next
  case (cleanup)
  then show ?thesis using assms(2) by (simp add: cleanup_tick_def core_ok_loadTasks)
next
  case (progress rn percent)
  then show ?thesis using assms(2) by (auto simp: ReportProgress_def Let_def)
next
  case (beat tid)
  then show ?thesis using assms(2) by (auto simp: heartbeat_def prod.case_eq_if store_call_def)
qed (use assms(2) in \<open>auto simp: Use_def recovery_tick_def worker_start_def Pause_def Resume_def
   intro: core_ok_Submit core_ok_ScheduleOnceTask core_ok_ScheduleRecurringTask core_ok_ScheduleCronTask
     core_ok_Cancel core_ok_onCancel core_ok_Resubmit core_ok_dequeue core_ok_send core_ok_take core_ok_control
     core_ok_done core_ok_ctxDone core_ok_ShutDown\<close>)

section \<open>The wheel inside the scheduler\<close>

lemma UnixMilli_mono: "a \<le> b \<Longrightarrow> UnixMilli a \<le> UnixMilli b"
  by (simp add: UnixMilli_def zdiv_mono1)

lemma time_ok_wheel: "time_ok at \<Longrightarrow> UnixMilli at * 256 \<le> 2 ^ 62"
proof -
  assume "time_ok at"
  then have "UnixMilli at \<le> UnixMilli (2 ^ 54 * 1000000)" by (intro UnixMilli_mono) (simp add: time_ok_def)
  then show ?thesis by (simp add: UnixMilli_def)
qed

lemma now_ok_wheel: "now_ok now \<Longrightarrow> UnixMilli now < 2 ^ 62"
proof -
  assume "now_ok now"
  then have "UnixMilli now \<le> UnixMilli (2 ^ 53 * 1000000)" by (intro UnixMilli_mono) (simp add: now_ok_def)
  then show ?thesis by (simp add: UnixMilli_def)
qed

lemma time_ok_add: "now_ok now \<Longrightarrow> delay_ok d \<Longrightarrow> time_ok (now + d)"
  by (simp add: now_ok_def delay_ok_def time_ok_def)

lemma nextExecution_bound: "nextExecution zone start fs \<le> start + 525600 * minute_ns"
proof (cases "nextExecution_loop zone fs 0 (start + minute_ns)")
  case (Some t)
  then obtain k where "0 \<le> k" "k < 525600" "t = start + minute_ns + k * minute_ns"
    using nextExecution_loop_Some [OF Some] by auto
  then have "t = start + (k + 1) * minute_ns" "(k + 1) * minute_ns \<le> 525600 * minute_ns"
    by (simp_all add: algebra_simps minute_ns_def)
  then show ?thesis using Some by (simp add: nextExecution_def)
qed (simp add: nextExecution_def)

lemma time_ok_cron: "now_ok now \<Longrightarrow> time_ok (nextExecution zone (TruncateMinute now) fs)"
proof -
  assume "now_ok now"
  moreover have "TruncateMinute now \<le> now" by (simp add: TruncateMinute_def minute_ns_def floor_to_le)
  ultimately show ?thesis
    using nextExecution_bound [of zone "TruncateMinute now" fs] by (simp add: now_ok_def time_ok_def minute_ns_def)
qed

text \<open>A call of the wheel's \<open>Schedule\<close> from the scheduler is a step of the wheel.\<close>

lemma wheel_Schedule_step:
  assumes "wheel_Schedule tid at cb s = Inr (er, s1)" and "time_ok at" and "tw_size (s_wheel s) = 256"
  shows "wheel_step (n, s_wheel s) (n, s_wheel s1)"
proof -
  obtain w where w: "TimingWheel_Schedule tid (UnixMilli at) (Some cb) (s_wheel s) = Inr (er, w)" "s1 = s\<lparr>s_wheel := w\<rparr>"
    using assms(1) by (auto simp: wheel_Schedule_def go_bind_def split: sum.splits prod.splits)
  then show ?thesis using wheel_step.schedule [OF _ w(1), of n] time_ok_wheel [OF assms(2)] assms(3) by simp
qed

lemma wheel_step_started:
  assumes "wheel_step (n, w) (n', w')" and "run_ok (n, w)" and "tw_started w"
  shows "tw_started w'"
proof -
  have ok: "wheel_ok {} w" "tw_clock w \<le> n" "n < 2 ^ 62" using assms(2) by (simp_all add: run_ok_def)
  show ?thesis
    using assms(1)
  proof cases
    case (schedule at tid cb er)
    then show ?thesis
      using Schedule_cases [OF schedule(3) ok(1) schedule(2)] assms(3) by (auto simp: scheduled_def Let_def)
  next
    case (cancel tid)
    then show ?thesis using assms(3) by (simp add: TimingWheel_Cancel_def split: option.split)
  next
    case (tick fuel)
    from tick_drained [OF ok tick(3)] obtain fs where "drained n w fs w'" .
    then show ?thesis using assms(3) by (simp add: drained_def same_wheel_def)
  qed (use assms(3) in \<open>simp_all add: TimingWheel_Start_def TimingWheel_Stop_def\<close>)
qed

lemma wheel_steps_inv:
  assumes "wheel_step\<^sup>*\<^sup>* (n, w) (n', w')" and "wheel_reach (n, w)" and "tw_started w"
  shows "wheel_reach (n', w') \<and> tw_started w' \<and> tw_size w' = tw_size w"
proof -
  have "wheel_reach x \<and> tw_started (snd x)" if "wheel_step\<^sup>*\<^sup>* (n, w) x" for x
    using that
  proof (induction rule: rtranclp_induct)
    case (step y z)
    then show ?case
      using wheel_reach.step [of y z] wheel_reach_run_ok [of y] wheel_step_started
      by (cases y; cases z) fastforce
  qed (use assms(2,3) in simp)
  moreover have "step_mono w w'" using wheel_steps_mono [OF assms(1)] wheel_reach_run_ok [OF assms(2)] by simp
  ultimately show ?thesis using assms(1) by (fastforce simp: step_mono_def)
qed

text \<open>The intervals of the recurring schedules in the wheel are bounded.\<close>

definition intervals_ok :: "wheel_cb TimingWheel \<Rightarrow> bool" where
  "intervals_ok w \<longleftrightarrow> (\<forall>r iv. CbRecurring r iv \<in> set (tw_cbs w) \<longrightarrow> delay_ok iv)"

lemma intervals_ok_cbs: "set (tw_cbs w') \<subseteq> set (tw_cbs w) \<Longrightarrow> intervals_ok w \<Longrightarrow> intervals_ok w'"
  by (auto simp: intervals_ok_def)

lemma intervals_ok_Schedule:
  assumes "wheel_Schedule tid at cb s = Inr (er, s1)" and "intervals_ok (s_wheel s)"
    and "case cb of CbRecurring r iv \<Rightarrow> delay_ok iv | _ \<Rightarrow> True"
  shows "intervals_ok (s_wheel s1)"
proof -
  obtain w where w: "TimingWheel_Schedule tid (UnixMilli at) (Some cb) (s_wheel s) = Inr (er, w)" "s1 = s\<lparr>s_wheel := w\<rparr>"
    using assms(1) by (auto simp: wheel_Schedule_def go_bind_def split: sum.splits prod.splits)
  show ?thesis using Schedule_cbs [OF w(1)] assms(2,3) w(2) by (fastforce simp: intervals_ok_def)
qed

text \<open>
  What a piece of the scheduler does to the wheel: some steps of the wheel's machine at one time, with
  bounded intervals kept.
\<close>

definition wheel_moves :: "wheel_cb TimingWheel \<Rightarrow> wheel_cb TimingWheel \<Rightarrow> bool" where
  "wheel_moves w w' \<longleftrightarrow> (\<forall>n. wheel_step\<^sup>*\<^sup>* (n, w) (n, w')) \<and> (intervals_ok w \<longrightarrow> intervals_ok w')"

lemma wheel_moves_refl [simp]: "wheel_moves w w"
  by (simp add: wheel_moves_def)

lemma wheel_moves_Schedule:
  assumes "wheel_Schedule tid at cb s = Inr (er, s1)" and "time_ok at" and "tw_size (s_wheel s) = 256"
    and "case cb of CbRecurring r iv \<Rightarrow> delay_ok iv | _ \<Rightarrow> True"
  shows "wheel_moves (s_wheel s) (s_wheel s1)"
  using wheel_Schedule_step [OF assms(1-3)] intervals_ok_Schedule [OF assms(1) _ assms(4)]
  by (auto simp: wheel_moves_def)

lemma wheel_moves_schedule:
  assumes "schedule_wheel r at cb s = Inr (res, s1)" and "time_ok at" and "tw_size (s_wheel s) = 256"
    and "case cb of CbRecurring r iv \<Rightarrow> delay_ok iv | _ \<Rightarrow> True"
  shows "wheel_moves (s_wheel s) (s_wheel s1)"
  using assms(1) wheel_moves_Schedule [OF _ assms(2-4), of "t_id (task_at s r)"]
  by (auto simp: schedule_wheel_def go_bind_def split: sum.splits)

lemma wheel_moves_retry:
  assumes "fail_retry newid at r s = Inr s1" and "time_ok at" and "tw_size (s_wheel s) = 256"
  shows "wheel_moves (s_wheel s) (s_wheel s1)"
proof -
  let ?s = "snd (alloc_task (retry_task newid (task_at s r))
    (upd_tracked (t_id (task_at s r)) (\<lambda>x. x\<lparr>t_status := StatusRetrying\<rparr>) s))"
  have "s_wheel ?s = s_wheel s" by simp
  then show ?thesis
    using assms(1,3) wheel_moves_Schedule [OF _ assms(2), of "t_id (task_at s r)" "CbRetry _" ?s]
    by (auto simp: fail_retry_def Let_def go_bind_def prod.case_eq_if split: sum.splits)
qed

lemma wheel_moves_failure:
  assumes "handleFailure E now newid r s = Inr s1" and "now_ok now" and "retry_ok E (task_at s r)"
    and "tw_size (s_wheel s) = 256"
  shows "wheel_moves (s_wheel s) (s_wheel s1)"
proof -
  let ?s = "s\<lparr>s_failureCount := s_failureCount s + 1\<rparr>"
  have "task_at ?s r = task_at s r" by (simp add: task_at_def)
  moreover have "time_ok (now + d)" if "retry_decision E (task_at s r) = Some d" for d
    using that assms(2,3) time_ok_add by (simp add: retry_ok_def)
  ultimately show ?thesis
    using assms(1,4) wheel_moves_retry [of newid _ r ?s s1]
    by (auto simp: handleFailure_def Let_def split: if_splits option.splits)
qed

lemma release_key_task [simp]: "task_at (release_key k s) r = task_at s r"
  by (simp add: release_key_def task_at_def)

lemma retry_decision_status [simp]: "retry_decision E (t\<lparr>t_status := a\<rparr>) = retry_decision E t"
  by (simp add: retry_decision_def split: option.split)

lemma retry_ok_status: "retry_ok E (task_at (upd_task r (\<lambda>x. x\<lparr>t_status := a\<rparr>) s) r) = retry_ok E (task_at s r)"
  by (cases "r < length (s_objs s)") (simp_all add: task_at_upd upd_task_out retry_ok_def)

lemma wheel_moves_done:
  assumes "runTask_done E now newid rn failed s = Inr s1" and "now_ok now"
    and "retry_ok E (task_at s (r_task rn))" and "tw_size (s_wheel s) = 256"
  shows "wheel_moves (s_wheel s) (s_wheel s1)"
  using assms wheel_moves_failure [OF _ assms(2), of E newid "r_task rn" "release_key _ s"]
  by (auto simp: runTask_done_def Let_def go_bind_def split: if_splits sum.splits)

lemma wheel_moves_ctxDone:
  assumes "runTask_ctxDone E now newid rn canceled s = Inr s1" and "now_ok now"
    and "retry_ok E (task_at s (r_task rn))" and "tw_size (s_wheel s) = 256"
  shows "wheel_moves (s_wheel s) (s_wheel s1)"
  using assms wheel_moves_failure [OF _ assms(2), of E newid "r_task rn"
    "upd_task (r_task rn) (\<lambda>x. x\<lparr>t_status := StatusFailed\<rparr>) (release_key _ s)"]
  by (auto simp: runTask_ctxDone_def Let_def go_bind_def retry_ok_status split: if_splits sum.splits)

lemma wheel_moves_callback:
  assumes "run_callback E now newid cb s = Inr s1" and "now_ok now" and "tw_size (s_wheel s) = 256"
    and "case cb of CbRecurring r iv \<Rightarrow> delay_ok iv | _ \<Rightarrow> True"
  shows "wheel_moves (s_wheel s) (s_wheel s1)"
  using assms(1)
proof (cases cb)
  case (CbRecurring r iv)
  let ?s = "submit_child E newid r s"
  have "time_ok (now + iv)" using CbRecurring assms(2,4) by (simp add: time_ok_add)
  then show ?thesis
    using CbRecurring assms(1,3,4) wheel_moves_Schedule [of "t_id (task_at ?s r)" "now + iv" cb ?s _ s1]
    by (auto simp: Let_def go_bind_def split: if_splits sum.splits)
next
  case (CbCron r fs)
  let ?s = "submit_child E newid r s"
  show ?thesis
    using CbCron assms(1,3) time_ok_cron [OF assms(2), of "env_zone E" fs]
      wheel_moves_Schedule [of "t_id (task_at ?s r)" "nextExecution (env_zone E) (TruncateMinute now) fs" cb ?s _ s1]
    by (auto simp: Let_def go_bind_def split: if_splits sum.splits)
qed auto

lemma wheel_moves_Cancel [simp]: "wheel_moves w (TimingWheel_Cancel tid w)"
  by (auto simp: wheel_moves_def intro: wheel_step.cancel intervals_ok_cbs [of _ w])

lemma wheel_moves_Stop [simp]: "wheel_moves w (TimingWheel_Stop w)"
  by (auto simp: wheel_moves_def intro: wheel_step.stop intervals_ok_cbs [of _ w])

lemma sched_step_wheel:
  assumes st: "sched_step E (now, gone, s) (now', gone', s')"
    and ok: "now_ok now" "tw_size (s_wheel s) = 256" "tw_started (s_wheel s)"
      "intervals_ok (s_wheel s)" "wheel_ok {} (s_wheel s)"
  shows "wheel_step\<^sup>*\<^sup>* (UnixMilli now, s_wheel s) (UnixMilli now', s_wheel s') \<and> intervals_ok (s_wheel s') \<and> now_ok now'"
proof (cases "now' = now")
  case True
  have "(wheel_moves (s_wheel s) (s_wheel s') \<or>
     (\<exists>fuel. tickLoop fuel (UnixMilli now) (s_wheel s) = Inr (s_wheel s')))"
    using st
  proof cases
    case (callback e newid)
    have e: "e < length (tw_store (s_wheel s))" using ok(5) callback(3) by (auto simp: wheel_ok_def)
    have "case e_callback (tw_store (s_wheel s) ! e) of CbRecurring r iv \<Rightarrow> delay_ok iv | _ \<Rightarrow> True"
    proof -
      have "e_callback (tw_store (s_wheel s) ! e) \<in> set (tw_cbs (s_wheel s))" using e by (simp add: tw_cbs_def)
      then show ?thesis using ok(4) by (auto simp: intervals_ok_def split: wheel_cb.split)
    qed
    then show ?thesis using wheel_moves_callback [OF callback(5) ok(1,2)] by blast
  next
    case (once r at res)
    then show ?thesis
      using wheel_moves_schedule [of r at "CbOnce r" "schedule_track r s" res s'] ok(2)
      by (auto simp: ScheduleOnceTask_def split: if_splits)
  next
    case (recurring r iv res)
    then show ?thesis
      using wheel_moves_schedule [of r "now + iv" "CbRecurring r iv" "schedule_track r s" res s'] ok(1,2) time_ok_add
      by (auto simp: ScheduleRecurringTask_def split: if_splits)
  next
    case (cron r spec res)
    then show ?thesis
      using wheel_moves_schedule [of r _ "CbCron r (Fields spec)" "schedule_track r s" res s']
        time_ok_cron [OF ok(1)] ok(2)
      by (auto simp: ScheduleCronTask_def Let_def split: if_splits)
  next
    case (finish i b rn newid failed s1)
    then show ?thesis using wheel_moves_done [OF finish(7) ok(1) finish(6) ok(2)] by simp
  next
    case (ctx_done i b rn canceled newid s1)
    then show ?thesis using wheel_moves_ctxDone [OF ctx_done(8) ok(1) ctx_done(6) ok(2)] by simp
  qed (auto simp: Use_def wheel_Cancel_frame cleanup_tick_def recovery_tick_def worker_start_def
     ReportProgress_def heartbeat_def Let_def prod.case_eq_if Pause_def Resume_def wheel_ShutDown
     dest: wheel_take wheel_control wheel_send)
  then show ?thesis
  proof
    assume "\<exists>fuel. tickLoop fuel (UnixMilli now) (s_wheel s) = Inr (s_wheel s')"
    then obtain fuel where f: "tickLoop fuel (UnixMilli now) (s_wheel s) = Inr (s_wheel s')" ..
    then have "intervals_ok (s_wheel s')" using ok(4) tickLoop_cbs [OF f] by (simp add: intervals_ok_def)
    then show ?thesis using wheel_step.tick [OF ok(3) f] ok(1) True by auto
  qed (use ok(1,4) True in \<open>auto simp: wheel_moves_def\<close>)
next
  case False
  with st have "s' = s" "now \<le> now'" "now_ok now'" by (cases; simp)+
  then show ?thesis
    using ok(4) UnixMilli_mono [of now now'] now_ok_wheel [of now']
    by (auto intro!: r_into_rtranclp wheel_step.time)
qed

text \<open>The invariant of the whole system.\<close>

definition sys_ok :: "('rs, 'st) env \<Rightarrow> ('job, 'rs, 'st) sys \<Rightarrow> bool" where
  "sys_ok E x = (case x of (now, gone, s) \<Rightarrow> core_ok s \<and> wheel_reach (UnixMilli now, s_wheel s) \<and>
     tw_size (s_wheel s) = 256 \<and> tw_started (s_wheel s) \<and> intervals_ok (s_wheel s) \<and> now_ok now)"

theorem sys_ok_step:
  assumes "sys_ok E (now, gone, s)" and "sched_step E (now, gone, s) (now', gone', s')"
  shows "sys_ok E (now', gone', s')"
proof -
  have o: "core_ok s" "wheel_reach (UnixMilli now, s_wheel s)" "tw_size (s_wheel s) = 256" "tw_started (s_wheel s)"
    "intervals_ok (s_wheel s)" "now_ok now" using assms(1) by (simp_all add: sys_ok_def)
  have w: "wheel_ok {} (s_wheel s)" using wheel_reach_run_ok [OF o(2)] by (simp add: run_ok_def)
  note st = sched_step_wheel [OF assms(2) o(6,3,4,5) w]
  show ?thesis
    using st wheel_steps_inv [OF _ o(2,4)] o(3) core_ok_step [OF assms(2) o(1) w] by (auto simp: sys_ok_def)
qed

lemma sys_ok_new:
  assumes "0 \<le> now" and "now_ok now" and "New E now newid st (map apply_opt opts) = Inr s"
  shows "sys_ok E (now, {}, s)"
proof -
  from New_ok [OF assms(3)] obtain w where w: "NewTimingWheel 10000000 256 (UnixMilli now) = Inr w"
    "s_wheel s = TimingWheel_Start w" "core_ok s" .
  have u: "0 \<le> UnixMilli now" "UnixMilli now < 2 ^ 62"
    using assms(1) now_ok_wheel [OF assms(2)] by (simp_all add: UnixMilli_def pos_imp_zdiv_nonneg_iff)
  have r: "wheel_reach (UnixMilli now, w)"
    using u by (intro wheel_reach.new [OF _ u w(1)]) (simp add: sdiv_nonneg)
  have n: "tw_size w = 256" "tw_store w = []"
    using w(1) by (auto simp: NewTimingWheel_def Let_def go_bind_def split: sum.splits)
  show ?thesis
    using wheel_reach.step [OF r wheel_step.start] w(2,3) n assms(2)
    by (simp add: sys_ok_def intervals_ok_def tw_cbs_def) (simp add: TimingWheel_Start_def)
qed

lemma sched_reach_ok:
  assumes "sched_reach E x"
  shows "sys_ok E x"
  using assms
proof (induction rule: sched_reach.induct)
  case (step x y)
  then show ?case using sys_ok_step by (metis surj_pair)
qed (blast intro: sys_ok_new)

end
