(* ===== verification/Scheduler_Pools.thy ===== *)
theory Scheduler_Pools
  imports Scheduler_Run
begin

text \<open>
  Invariants of the hand-over and of the pools: every task that is being dispatched, waits in a channel
  or runs is a valid reference, and \<open>currentWorkers\<close> counts the workers that have not exited, until
  the scheduler stops.
\<close>

definition pv :: "('job, 'rs, 'st) Scheduler \<Rightarrow>
    worker list \<times> (task_ref \<times> string) option \<times> chan gomap \<times> int \<times> bool" where
  "pv s = (s_workers s, s_dispatch s, s_poolQueues s, s_currentWorkers s, s_stop s)"

lemma pv_aux: "aux s' = aux s \<Longrightarrow> pv s' = pv s"
  by (simp add: pv_def aux_def)

lemmas pv_ops [simp] = aux_ops [THEN pv_aux]

lemma pv_fields [simp]:
  "pv (s\<lparr>s_wheel := w\<rparr>) = pv s" "pv (s\<lparr>s_storage := st\<rparr>) = pv s" "pv (s\<lparr>s_failureCount := i\<rparr>) = pv s"
  "pv (s\<lparr>s_registry := m\<rparr>) = pv s" "pv (s\<lparr>s_middlewares := k\<rparr>) = pv s" "pv (s\<lparr>s_paused := p\<rparr>) = pv s"
  by (simp_all add: pv_def)

definition run_refs :: "worker \<Rightarrow> task_ref set" where
  "run_refs w = (case w_state w of WRunning b rn \<Rightarrow> {r_task rn} | _ \<Rightarrow> {})"

definition dispatch_refs :: "(task_ref \<times> string) option \<Rightarrow> task_ref set" where
  "dispatch_refs d = (case d of None \<Rightarrow> {} | Some (r, p) \<Rightarrow> {r})"

definition chan_refs :: "chan gomap \<Rightarrow> task_ref set" where
  "chan_refs m = {r. \<exists>p ch. gm_get m p = Some ch \<and> r \<in> set (ch_buf ch)}"

definition held :: "('job, 'rs, 'st) Scheduler \<Rightarrow> task_ref set" where
  "held s = \<Union> (run_refs ` set (s_workers s)) \<union> dispatch_refs (s_dispatch s) \<union> chan_refs (s_poolQueues s)"

definition refs_ok :: "('job, 'rs, 'st) Scheduler \<Rightarrow> bool" where
  "refs_ok s \<longleftrightarrow> held s \<subseteq> {..<n_objs s}"

definition live :: "worker \<Rightarrow> bool" where
  "live w \<longleftrightarrow> w_state w \<noteq> WExited"

definition count_ok :: "('job, 'rs, 'st) Scheduler \<Rightarrow> bool" where
  "count_ok s \<longleftrightarrow> s_stop s \<or> s_currentWorkers s = int (length (filter live (s_workers s)))"

definition pools_ok :: "('job, 'rs, 'st) Scheduler \<Rightarrow> bool" where
  "pools_ok s \<longleftrightarrow> refs_ok s \<and> count_ok s"

lemma held_pv: "pv s' = pv s \<Longrightarrow> held s' = held s"
  by (simp add: held_def pv_def)

lemma pools_ok_pv:
  assumes "pools_ok s" and "pv s' = pv s" and "n_objs s \<le> n_objs s'"
  shows "pools_ok s'"
proof -
  have "refs_ok s'" using assms held_pv [OF assms(2)] by (force simp: pools_ok_def refs_ok_def)
  moreover have "count_ok s'" using assms(1,2) by (simp add: pools_ok_def count_ok_def pv_def)
  ultimately show ?thesis by (simp add: pools_ok_def)
qed

lemma chan_refs_put: "chan_refs (gm_put p ch m) \<subseteq> set (ch_buf ch) \<union> chan_refs m"
  by (auto simp: chan_refs_def split: if_splits)

lemma chan_refs_get: "gm_get m p = Some ch \<Longrightarrow> set (ch_buf ch) \<subseteq> chan_refs m"
  by (auto simp: chan_refs_def)

section \<open>Workers\<close>

lemma live_update:
  assumes "i < length ws" and "live w = live (ws ! i)"
  shows "length (filter live (ws[i := w])) = length (filter live ws)"
  using assms by (induction ws arbitrary: i) (auto simp: nth_Cons split: nat.splits)

lemma live_exit:
  assumes "i < length ws" and "live (ws ! i)" and "\<not> live w"
  shows "Suc (length (filter live (ws[i := w]))) = length (filter live ws)"
  using assms by (induction ws arbitrary: i) (auto simp: nth_Cons split: nat.splits)

lemma run_refs_update: "\<Union> (run_refs ` set (ws[i := w])) \<subseteq> run_refs w \<union> \<Union> (run_refs ` set ws)"
  using set_update_subset_insert [of ws i w] by blast

lemma pools_ok_set_worker:
  assumes "pools_ok s" and "i < length (s_workers s)" and "live (s_workers s ! i)" and "st \<noteq> WExited"
    and "\<And>b rn. st = WRunning b rn \<Longrightarrow> r_task rn < n_objs s"
  shows "pools_ok (set_worker i st s)"
proof -
  let ?w = "(s_workers s ! i)\<lparr>w_state := st\<rparr>"
  have "run_refs ?w \<subseteq> {..<n_objs s}" using assms(5) by (auto simp: run_refs_def split: worker_state.splits)
  then have "held (set_worker i st s) \<subseteq> {..<n_objs s}"
    using assms(1) run_refs_update [of "s_workers s" i ?w] by (auto simp: pools_ok_def refs_ok_def held_def set_worker_def)
  moreover have "count_ok (set_worker i st s)"
    using assms live_update [OF assms(2), of ?w] by (simp add: pools_ok_def count_ok_def set_worker_def live_def)
  ultimately show ?thesis by (simp add: pools_ok_def refs_ok_def set_worker_def)
qed

lemma recv_held:
  assumes "chan_recv pool s = Some (r, s1)"
  shows "held s1 \<subseteq> held s" and "r \<in> held s" and "s_objs s1 = s_objs s" and "s_workers s1 = s_workers s"
    and "s_currentWorkers s1 = s_currentWorkers s" and "s_stop s1 = s_stop s"
proof -
  obtain ch where ch: "gm_get (s_poolQueues s) pool = Some ch" using assms by (auto simp: chan_recv_def split: option.splits)
  show f: "s_objs s1 = s_objs s" "s_workers s1 = s_workers s"
    "s_currentWorkers s1 = s_currentWorkers s" "s_stop s1 = s_stop s"
    using assms by (auto simp: chan_recv_def split: option.splits list.splits if_splits)
  have r: "r \<in> set (ch_buf ch) \<union> dispatch_refs (s_dispatch s)"
    and d: "dispatch_refs (s_dispatch s1) \<subseteq> dispatch_refs (s_dispatch s)"
    using assms ch by (auto simp: chan_recv_def dispatch_refs_def split: option.splits list.splits if_splits)
  show "r \<in> held s" using r chan_refs_get [OF ch] by (auto simp: held_def)
  have "chan_refs (s_poolQueues s1) \<subseteq> chan_refs (s_poolQueues s) \<union> dispatch_refs (s_dispatch s)"
    using assms ch chan_refs_get [OF ch]
    by (auto simp: chan_recv_def dispatch_refs_def dest!: chan_refs_put [THEN subsetD]
      split: option.splits list.splits if_splits) blast+
  then show "held s1 \<subseteq> held s" using d f(2) by (auto simp: held_def)
qed

lemma pools_ok_recv:
  assumes "chan_recv pool s = Some (r, s1)" and "pools_ok s"
  shows "pools_ok s1 \<and> r < n_objs s1 \<and> s_workers s1 = s_workers s"
  using recv_held [OF assms(1)] assms(2) by (auto simp: pools_ok_def refs_ok_def count_ok_def)

lemma start_ref: "runTask_start E r s = (Some rn, s1) \<Longrightarrow> r_task rn = r"
  by (auto simp: runTask_start_def Let_def split: option.splits if_splits prod.splits)

lemma pools_ok_take:
  assumes "worker_take E i s = Some s'" and "pools_ok s" and "i < length (s_workers s)" and "live (s_workers s ! i)"
  shows "pools_ok s'"
proof -
  obtain r s1 where r: "chan_recv (w_pool (s_workers s ! i)) s = Some (r, s1)"
    using assms(1) by (auto simp: worker_take_def split: option.splits)
  note k = pools_ok_recv [OF r assms(2)]
  let ?s = "upd_tracked (t_id (task_at s1 r)) (\<lambda>t. t\<lparr>t_status := StatusRunning\<rparr>) s1"
  obtain rn s2 where s2: "runTask_start E r ?s = (rn, s2)" by (cases "runTask_start E r ?s")
  have a: "aux s2 = aux s1" and n: "n_objs s2 = n_objs s1"
    using n_objs_basic(9) [of E r ?s] aux_start [of E r ?s] s2 by simp_all
  note pv2 = pv_aux [OF a] n
  have ok: "pools_ok s2" using pools_ok_pv [of s1 s2] k pv2 by simp
  have w: "s_workers s2 = s_workers s" using pv2(1) k by (simp add: pv_def)
  have st: "st \<noteq> WExited \<Longrightarrow> (\<And>b rn. st = WRunning b rn \<Longrightarrow> r_task rn < n_objs s2) \<Longrightarrow> pools_ok (set_worker i st s2)" for st
    using assms(3,4) by (intro pools_ok_set_worker [OF ok]) (simp_all add: w)
  show ?thesis
  proof (cases rn)
    case None
    then have "s' = set_worker i (WIdle True) s2" using assms(1) r s2 by (simp add: worker_take_def Let_def)
    then show ?thesis using st [of "WIdle True"] by simp
  next
    case (Some n)
    then have "s' = set_worker i (WRunning True n) s2" using assms(1) r s2 by (simp add: worker_take_def Let_def)
    moreover have "r_task n = r" using start_ref s2 Some by blast
    ultimately show ?thesis using st [of "WRunning True n"] k pv2(2) by simp
  qed
qed

lemma pools_ok_control:
  assumes "worker_control i s = Some s'" and "pools_ok s" and "i < length (s_workers s)" and "live (s_workers s ! i)"
  shows "pools_ok s'"
proof -
  let ?w = "(s_workers s ! i)\<lparr>w_state := WExited\<rparr>"
  have s': "s_workers s' = (s_workers s)[i := ?w]" "s_currentWorkers s' = s_currentWorkers s - 1" "s_stop s' = s_stop s"
    "s_dispatch s' = s_dispatch s" "s_poolQueues s' = s_poolQueues s" "s_objs s' = s_objs s"
    using assms(1) by (auto simp: worker_control_def Let_def set_worker_def split: option.splits nat.splits)
  have "run_refs ?w = {}" by (simp add: run_refs_def)
  then have "held s' \<subseteq> held s" using run_refs_update [of "s_workers s" i ?w] by (auto simp: held_def s')
  moreover have "Suc (length (filter live (s_workers s'))) = length (filter live (s_workers s))"
    using live_exit [OF assms(3,4), of ?w] by (simp add: s' live_def)
  ultimately show ?thesis using assms(2) by (auto simp: pools_ok_def refs_ok_def count_ok_def s')
qed

section \<open>Pools\<close>

lemma pools_ok_spawn:
  assumes "pools_ok s"
  shows "pools_ok (spawnWorkersForPoolLocked pool n s)"
proof -
  let ?s = "spawnWorkersForPoolLocked pool n s"
  have s': "s_workers ?s = s_workers s @ replicate (nat n) \<lparr>w_pool = pool, w_state = WStarting\<rparr>"
    "s_currentWorkers ?s = s_currentWorkers s + int (nat n)" "s_stop ?s = s_stop s" "s_dispatch ?s = s_dispatch s"
    "s_poolQueues ?s = s_poolQueues s" "s_objs ?s = s_objs s"
    by (simp_all add: spawnWorkersForPoolLocked_def Let_def split: option.split)
  have "held ?s = held s" by (auto simp: held_def s' run_refs_def)
  moreover have "length (filter live (s_workers ?s)) = length (filter live (s_workers s)) + nat n"
    by (simp add: s' live_def)
  ultimately show ?thesis using assms by (simp add: pools_ok_def refs_ok_def count_ok_def s')
qed

text \<open>A new, empty channel changes nothing that is held.\<close>

lemma pools_ok_make:
  assumes "pools_ok s" and "gm_get (s_poolQueues s) pool = None"
  shows "pools_ok (s\<lparr>s_poolQueues := gm_put pool (make_chan c) (s_poolQueues s)\<rparr>)"
proof -
  have "chan_refs (gm_put pool (make_chan c) (s_poolQueues s)) \<subseteq> chan_refs (s_poolQueues s)"
    using chan_refs_put [of pool "make_chan c" "s_poolQueues s"] by (simp add: make_chan_def)
  then show ?thesis using assms(1) by (auto simp: pools_ok_def refs_ok_def count_ok_def held_def)
qed

lemma pools_ok_fields [simp]:
  "pools_ok (s\<lparr>s_poolWorkers := x\<rparr>) = pools_ok s" "pools_ok (s\<lparr>s_poolControl := y\<rparr>) = pools_ok s"
  by (simp_all add: pools_ok_def refs_ok_def count_ok_def held_def)

lemma pools_ok_ScalePool:
  assumes "pools_ok s"
  shows "pools_ok (ScalePool pool n s)"
proof -
  define s1 where "s1 m = s\<lparr>s_poolWorkers := gm_put pool m (s_poolWorkers s)\<rparr>" for m
  define s2 where "s2 m = (case gm_get (s_poolQueues (s1 m)) pool of Some _ \<Rightarrow> s1 m
    | None \<Rightarrow> (s1 m)\<lparr>s_poolQueues := gm_put pool (make_chan 0) (s_poolQueues (s1 m))\<rparr>)" for m
  have "pools_ok (s1 m)" for m using assms by (simp add: s1_def)
  then have "pools_ok (s2 m)" for m using pools_ok_make [of "s1 m" pool 0] by (simp add: s2_def split: option.split)
  then show ?thesis
    unfolding ScalePool_def Let_def s1_def [symmetric] s2_def [symmetric]
    by (auto split: option.split intro!: pools_ok_spawn)
qed

lemma pools_ok_dispatch:
  assumes "pools_ok s" and "r < n_objs s"
  shows "pools_ok (dispatchTask r s)"
proof -
  let ?p = "if t_pool (task_at s r) = '''' then ''default'' else t_pool (task_at s r)"
  define s1 where "s1 = (case gm_get (s_poolQueues s) ?p of Some _ \<Rightarrow> s | None \<Rightarrow> spawnWorkersForPoolLocked ?p 1
    (s\<lparr>s_poolQueues := gm_put ?p (make_chan 0) (s_poolQueues s), s_poolWorkers := gm_put ?p 1 (s_poolWorkers s)\<rparr>))"
  have "pools_ok s1"
    using assms(1) pools_ok_make [OF assms(1), of ?p 0]
    by (auto simp: s1_def split: option.split intro!: pools_ok_spawn)
  moreover have "n_objs s1 = n_objs s"
    by (simp add: s1_def spawnWorkersForPoolLocked_def Let_def split: option.split)
  ultimately have "pools_ok (s1\<lparr>s_dispatch := Some (r, ?p)\<rparr>)"
    using assms(2) by (auto simp: pools_ok_def refs_ok_def count_ok_def held_def dispatch_refs_def)
  then show ?thesis by (simp add: dispatchTask_def Let_def s1_def)
qed

lemma pools_ok_send:
  assumes "dispatch_send s = Some s1" and "pools_ok s"
  shows "pools_ok s1"
proof -
  obtain r pool ch where d: "s_dispatch s = Some (r, pool)" "gm_get (s_poolQueues s) pool = Some ch"
    "s1 = s\<lparr>s_poolQueues := gm_put pool (ch\<lparr>ch_buf := ch_buf ch @ [r]\<rparr>) (s_poolQueues s), s_dispatch := None\<rparr>"
    using assms(1) by (auto simp: dispatch_send_def split: option.splits if_splits)
  have "held s1 \<subseteq> held s"
    using chan_refs_put [of pool "ch\<lparr>ch_buf := ch_buf ch @ [r]\<rparr>" "s_poolQueues s"] chan_refs_get [OF d(2)] d(1)
    by (auto simp: held_def d(3) dispatch_refs_def)
  then show ?thesis using assms(2) by (auto simp: pools_ok_def refs_ok_def count_ok_def d(3))
qed

section \<open>Every step\<close>

text \<open>An operation that keeps the pools and drops no object.\<close>

definition calm :: "('job, 'rs, 'st) Scheduler \<Rightarrow> ('job, 'rs, 'st) Scheduler \<Rightarrow> bool" where
  "calm s s' \<longleftrightarrow> pv s' = pv s \<and> n_objs s \<le> n_objs s'"

lemma calm_refl [simp]: "calm s s"
  by (simp add: calm_def)

lemma calm_trans: "calm a b \<Longrightarrow> calm b c \<Longrightarrow> calm a c"
  by (simp add: calm_def)

lemma calm_ok: "calm s s' \<Longrightarrow> pools_ok s \<Longrightarrow> pools_ok s'"
  unfolding calm_def using pools_ok_pv by blast

lemma calm_Schedule: "wheel_Schedule tid at cb s = Inr (er, s1) \<Longrightarrow> calm s s1"
  by (auto simp: wheel_Schedule_def go_bind_def calm_def split: sum.splits prod.splits)

lemma calm_schedule: "schedule_wheel r at cb (schedule_track r s) = Inr (res, s1) \<Longrightarrow> calm s s1"
  by (auto simp: schedule_wheel_def go_bind_def calm_def dest!: calm_Schedule split: sum.splits)

lemma calm_retry: "fail_retry newid at r s = Inr s1 \<Longrightarrow> calm s s1"
  by (auto simp: fail_retry_def Let_def go_bind_def prod.case_eq_if calm_def dest!: calm_Schedule
    split: sum.splits)

lemma calm_failure: "handleFailure E now newid r s = Inr s1 \<Longrightarrow> calm s s1"
  using calm_retry [of newid _ r "s\<lparr>s_failureCount := s_failureCount s + 1\<rparr>" s1]
    n_objs_outcomes(1,2) [of "s\<lparr>s_failureCount := s_failureCount s + 1\<rparr>" E r]
  by (auto simp: handleFailure_def Let_def calm_def split: if_splits option.splits)

lemma calm_done: "runTask_done E now newid rn failed s = Inr s1 \<Longrightarrow> calm s s1"
  using n_objs_outcomes(3) [of "release_key (t_key (task_at s (r_task rn))) s" E "r_task rn"]
  by (auto simp: runTask_done_def Let_def go_bind_def calm_def dest!: calm_failure split: if_splits sum.splits)

lemma calm_ctxDone: "runTask_ctxDone E now newid rn canceled s = Inr s1 \<Longrightarrow> calm s s1"
  using n_objs_outcomes(4) [of "upd_task (r_task rn) (\<lambda>x. x\<lparr>t_status := StatusCancelled\<rparr>)
      (release_key (t_key (task_at s (r_task rn))) s)" E "r_task rn"]
  by (auto simp: runTask_ctxDone_def Let_def go_bind_def calm_def dest!: calm_failure split: if_splits sum.splits)

lemma calm_callback: "run_callback E now newid cb s = Inr s1 \<Longrightarrow> calm s s1"
proof (cases cb)
  case (CbRecurring r iv)
  moreover assume "run_callback E now newid cb s = Inr s1"
  moreover have "calm s (submit_child E newid r s)" using n_objs_outcomes(8) by (simp add: calm_def)
  ultimately show ?thesis
    by (auto simp: Let_def go_bind_def dest!: calm_Schedule split: if_splits sum.splits intro: calm_trans)
next
  case (CbCron r fs)
  moreover assume "run_callback E now newid cb s = Inr s1"
  moreover have "calm s (submit_child E newid r s)" using n_objs_outcomes(8) by (simp add: calm_def)
  ultimately show ?thesis
    by (auto simp: Let_def go_bind_def dest!: calm_Schedule split: if_splits sum.splits intro: calm_trans)
qed (auto simp: calm_def)

lemma calm_Cancel: "calm s (snd (Cancel E tid s))"
proof -
  have f: "n_objs s \<le> n_objs (cancel_finalize E tid r s')" if "n_objs s' = n_objs s" for s' r
    using n_objs_outcomes(5) [of s' E tid r] that by simp
  show ?thesis
    by (auto simp: calm_def Cancel_def Let_def wheel_Cancel_def prod.case_eq_if f split: option.split)
qed

lemma pools_ok_dequeue:
  assumes "pools_ok s" and "core_ok s"
  shows "pools_ok (dequeue_round E s)"
proof -
  obtain r s1 where p: "pop_queue s = (r, s1)" by (cases "pop_queue s")
  obtain r2 s2 where d: "dequeue_storage E s1 = (r2, s2)" by (cases "dequeue_storage E s1")
  have c1: "calm s s1" using aux_pop [of s, THEN pv_aux] n_objs_basic(7) [of s] p by (simp add: calm_def)
  have c2: "calm s1 s2"
    using aux_dequeue_storage [of E s1, THEN pv_aux] n_objs_outcomes(9) [of s1 E] d by (simp add: calm_def)
  have o: "tq.ordered (prio s) (s_queue s)" "set (s_queue s) \<subseteq> {..<n_objs s}" using assms(2) by (simp_all add: core_ok_def)
  have "r = Some x \<Longrightarrow> x < n_objs s1" for x
    using p o taskHeap_Pop(5) [OF o(1)] by (auto simp: pop_queue_def split: option.splits)
  moreover have "r2 = Some x \<Longrightarrow> x < n_objs s2" for x
    using d by (auto simp: dequeue_storage_def alloc_task_def split: prod.splits sum.splits bool.splits option.splits)
  ultimately show ?thesis
    using p d calm_ok [OF c1 assms(1)] calm_ok [OF c2 calm_ok [OF c1 assms(1)]] assms(1)
    by (auto simp: dequeue_round_def split: option.split intro!: pools_ok_dispatch)
qed

lemma fold_call_cancel:
  "aux (fold (\<lambda>(tid, r) s. call_cancel (t_cancel (task_at s r)) s) xs s) = aux s"
  "n_objs (fold (\<lambda>(tid, r) s. call_cancel (t_cancel (task_at s r)) s) xs s) = n_objs s"
  by (induction xs arbitrary: s) (simp_all add: split_beta)

lemma pools_ok_ShutDown:
  assumes "pools_ok s"
  shows "pools_ok (ShutDown s)"
proof (cases "s_stopped s")
  case False
  define m where "m = map (\<lambda>(k, ch). (k, ch\<lparr>ch_closed := True\<rparr>)) (s_poolQueues s)"
  have "gm_get m p = map_option (\<lambda>ch. ch\<lparr>ch_closed := True\<rparr>) (gm_get (s_poolQueues s) p)" for p
    unfolding m_def by (induction "s_poolQueues s") (auto simp: map_of_map)
  then have ch: "chan_refs m = chan_refs (s_poolQueues s)"
    by (fastforce simp: chan_refs_def)
  let ?s = "s\<lparr>s_stopped := True, s_stop := True, s_wheel := TimingWheel_Stop (s_wheel s), s_dispatch := None, s_poolQueues := m\<rparr>"
  have ok: "pools_ok ?s"
    using assms ch by (auto simp: pools_ok_def refs_ok_def count_ok_def held_def dispatch_refs_def)
  have "calm ?s (ShutDown s)"
    using False fold_call_cancel(1) [of "s_tasks s" ?s, THEN pv_aux] fold_call_cancel(2) [of "s_tasks s" ?s]
    by (simp add: calm_def ShutDown_def Let_def m_def)
  then show ?thesis using ok calm_ok by blast
qed (use assms in \<open>simp add: ShutDown_def\<close>)

lemma n_objs_small:
  "n_objs (recovery_tick E s) = n_objs s" "n_objs (ReportProgress rn p s) = n_objs s"
  "n_objs (snd (heartbeat E tid s)) = n_objs s"
  by (simp_all add: recovery_tick_def ReportProgress_def heartbeat_def Let_def prod.case_eq_if)

theorem pools_ok_step:
  assumes "sched_step E (now, gone, s) (now', gone', s')" and "pools_ok s" and "core_ok s"
  shows "pools_ok s'"
  using assms(1)
proof cases
  case (once r at res)
  then show ?thesis
    using assms(2) calm_schedule [of r at "CbOnce r" s res s', THEN calm_ok]
    by (auto simp: ScheduleOnceTask_def split: if_splits)
next
  case (recurring r iv res)
  then show ?thesis
    using assms(2) calm_schedule [of r _ "CbRecurring r iv" s res s', THEN calm_ok]
    by (auto simp: ScheduleRecurringTask_def split: if_splits)
next
  case (cron r spec res)
  then show ?thesis
    using assms(2) calm_schedule [of r _ "CbCron r (Fields spec)" s res s', THEN calm_ok]
    by (auto simp: ScheduleCronTask_def Let_def split: if_splits)
next
  case cancel
  then show ?thesis using assms(2) calm_Cancel calm_ok by blast
next
  case (callback e newid)
  then show ?thesis using assms(2) calm_callback calm_ok by blast
next
  case cleanup
  then show ?thesis
    using assms(2) n_objs_loadTasks [of s E] calm_ok [of s "loadTasks E s"] by (simp add: cleanup_tick_def calm_def)
next
  case (start_worker i)
  then show ?thesis using assms(2) by (auto simp: worker_start_def live_def intro!: pools_ok_set_worker)
next
  case (take i)
  then show ?thesis using assms(2) pools_ok_take [OF take(5)] by (simp add: live_def)
next
  case (control i b)
  then show ?thesis using assms(2) pools_ok_control [OF control(5)] by (simp add: live_def)
next
  case (stop_worker i b)
  have "held (set_worker i WExited s) \<subseteq> held s"
    using run_refs_update [of "s_workers s" i "(s_workers s ! i)\<lparr>w_state := WExited\<rparr>"]
    by (auto simp: held_def set_worker_def run_refs_def)
  then show ?thesis
    using assms(2) stop_worker by (auto simp: pools_ok_def refs_ok_def count_ok_def) (auto simp: set_worker_def)
next
  case (finish i b rn newid failed s1)
  have c: "calm s s1" using calm_done finish(7) .
  then have "s_workers s1 = s_workers s" by (simp add: calm_def pv_def)
  then show ?thesis
    using finish calm_ok [OF c assms(2)] by (auto simp: live_def intro!: pools_ok_set_worker)
next
  case (ctx_done i b rn canceled newid s1)
  have c: "calm s s1" using calm_ctxDone ctx_done(8) .
  then have "s_workers s1 = s_workers s" by (simp add: calm_def pv_def)
  then show ?thesis
    using ctx_done calm_ok [OF c assms(2)] by (auto simp: live_def intro!: pools_ok_set_worker)
qed (use assms(2,3) calm_ok [of s s'] in
  \<open>auto simp: calm_def n_objs_outcomes(6,7) n_objs_small RegisterJob_def Use_def Pause_def Resume_def
     intro: pools_ok_dequeue pools_ok_send pools_ok_ScalePool pools_ok_ShutDown\<close>)

section \<open>A new scheduler\<close>

lemma apply_opt_idle: "s_workers (apply_opt opt s) = s_workers s" "s_dispatch (apply_opt opt s) = s_dispatch s"
  "s_currentWorkers (apply_opt opt s) = s_currentWorkers s" "s_stop (apply_opt opt s) = s_stop s"
  by (cases opt; simp add: option_defs)+

lemma apply_opt_chans: "chan_refs (s_poolQueues (apply_opt opt s)) \<subseteq> chan_refs (s_poolQueues s)"
  using chan_refs_put [of "''default''" "make_chan c" "s_poolQueues s" for c]
  by (cases opt) (simp_all add: option_defs make_chan_def)

definition idle :: "('job, 'rs, 'st) Scheduler \<Rightarrow> bool" where
  "idle s \<longleftrightarrow> s_workers s = [] \<and> s_dispatch s = None \<and> s_currentWorkers s = 0 \<and> chan_refs (s_poolQueues s) = {}"

lemma idle_opts: "idle s \<Longrightarrow> idle (fold apply_opt opts s)"
proof (induction opts arbitrary: s)
  case (Cons opt opts)
  then have "idle (apply_opt opt s)" using apply_opt_chans [of opt s] by (simp add: idle_def apply_opt_idle)
  then show ?case using Cons.IH by simp
qed simp

lemma pools_ok_opts: "pools_ok (fold apply_opt opts (new_scheduler newid st))"
proof -
  have "idle (new_scheduler newid st)" by (simp add: idle_def new_scheduler_def chan_refs_def)
  then have "idle (fold apply_opt opts (new_scheduler newid st))" by (rule idle_opts)
  then show ?thesis by (simp add: idle_def pools_ok_def refs_ok_def count_ok_def held_def dispatch_refs_def)
qed

lemma pools_ok_new:
  assumes "New E now newid st (map apply_opt opts) = Inr s"
  shows "pools_ok s"
proof -
  let ?s = "fold apply_opt opts (new_scheduler newid st)"
  obtain w where s: "s = spawn_all (default_pool (loadTasks E (?s\<lparr>s_wheel := w\<rparr>)))"
    using assms by (auto simp: New_def fold_map_id go_bind_def Let_def split: sum.splits)
  let ?l = "loadTasks E (?s\<lparr>s_wheel := w\<rparr>)"
  have "pools_ok (?s\<lparr>s_wheel := w\<rparr>)" by (rule calm_ok [of ?s]) (simp_all add: calm_def pools_ok_opts)
  then have "pools_ok ?l"
    using calm_ok [of "?s\<lparr>s_wheel := w\<rparr>" ?l] n_objs_loadTasks [of "?s\<lparr>s_wheel := w\<rparr>" E] by (simp add: calm_def)
  then have d: "pools_ok (default_pool ?l)"
    using pools_ok_make [of ?l "''default''" 0] by (auto simp: default_pool_def split: option.split)
  have "pools_ok (fold (\<lambda>(pool, cnt). spawnWorkersForPoolLocked pool cnt) xs t)" if "pools_ok t" for xs t
    using that by (induction xs arbitrary: t) (auto intro: pools_ok_spawn)
  then show ?thesis using d by (simp add: s spawn_all_def)
qed

lemma sched_reach_pools: "sched_reach E x \<Longrightarrow> pools_ok (snd (snd x))"
proof (induction rule: sched_reach.induct)
  case (step x y)
  obtain n g s n' g' s' where e: "x = (n, g, s)" "y = (n', g', s')" by (metis surj_pair)
  have "core_ok s" using sched_reach_ok [OF step.hyps(1)] by (simp add: e sys_ok_def)
  then show ?case using step pools_ok_step by (simp add: e) blast
qed (simp add: pools_ok_new)

end
