(* ===== verification/Retry.thy ===== *)
theory Retry
  imports Skedulr_Prelude
begin

text \<open>
  The retry strategies of \<open>retry.go\<close>, with the IEEE double arithmetic they use. A finite double is
  \<open>Fin m e\<close>, the number \<open>m * 2 ^ e\<close>; results are rounded to 53 bits, ties to even, and overflow to an
  infinity. Subnormal rounding is not modelled: the strategies only truncate results to whole
  nanoseconds. A conversion to \<open>int64\<close> that is out of range is implementation-dependent in Go: the
  argument \<open>conv\<close>. The random number of \<open>rand.Float64\<close> is the argument \<open>rnd\<close>.
\<close>

section \<open>Doubles\<close>

datatype float64 = Fin int int | PInf | NInf | NaN

fun bits :: "nat \<Rightarrow> nat" where
  "bits n = (if n = 0 then 0 else Suc (bits (n div 2)))"

declare bits.simps [simp del]

text \<open>Divide by \<open>2 ^ s\<close>, round to the nearest, ties to even.\<close>

definition round_shift :: "nat \<Rightarrow> nat \<Rightarrow> nat" where
  "round_shift s m =
     (let q = m div 2 ^ s; rest = m mod 2 ^ s
      in if 2 * rest > 2 ^ s \<or> 2 * rest = 2 ^ s \<and> odd q then q + 1 else q)"

definition f64_norm :: "int \<Rightarrow> int \<Rightarrow> float64" where
  "f64_norm m e =
     (let a = nat (abs m); s = bits a - 53; q = round_shift s a
      in if e + int s + int (bits q) > 1024 then (if m < 0 then NInf else PInf)
         else Fin (sgn m * int q) (e + int s))"

definition f64_of_int :: "int \<Rightarrow> float64" where
  "f64_of_int x = f64_norm x 0"

fun f64_mul :: "float64 \<Rightarrow> float64 \<Rightarrow> float64" where
  "f64_mul (Fin m e) (Fin m' e') = f64_norm (m * m') (e + e')"
| "f64_mul NaN y = NaN"
| "f64_mul x NaN = NaN"
| "f64_mul (Fin m e) PInf = (if m = 0 then NaN else if m < 0 then NInf else PInf)"
| "f64_mul (Fin m e) NInf = (if m = 0 then NaN else if m < 0 then PInf else NInf)"
| "f64_mul PInf (Fin m e) = (if m = 0 then NaN else if m < 0 then NInf else PInf)"
| "f64_mul NInf (Fin m e) = (if m = 0 then NaN else if m < 0 then PInf else NInf)"
| "f64_mul PInf PInf = PInf"
| "f64_mul PInf NInf = NInf"
| "f64_mul NInf PInf = NInf"
| "f64_mul NInf NInf = PInf"

text \<open>\<open>x - 1\<close>.\<close>

fun f64_minus_one :: "float64 \<Rightarrow> float64" where
  "f64_minus_one (Fin m e) =
     (if e \<ge> 0 then f64_norm (m * 2 ^ nat e - 1) 0 else f64_norm (m - 2 ^ nat (- e)) e)"
| "f64_minus_one x = x"

text \<open>\<open>math.Pow(2, float64(n))\<close> for a whole number.\<close>

definition f64_pow2 :: "int \<Rightarrow> float64" where
  "f64_pow2 n = (if n > 1023 then PInf else if n < -1074 then Fin 0 0 else Fin 1 n)"

fun f64_pos :: "float64 \<Rightarrow> bool" where
  "f64_pos (Fin m e) = (m > 0)"
| "f64_pos PInf = True"
| "f64_pos NInf = False"
| "f64_pos NaN = False"

text \<open>Truncation towards zero.\<close>

fun f64_trunc :: "float64 \<Rightarrow> int option" where
  "f64_trunc (Fin m e) = Some (if e \<ge> 0 then m * 2 ^ nat e else sgn m * (abs m div 2 ^ nat (- e)))"
| "f64_trunc PInf = None"
| "f64_trunc NInf = None"
| "f64_trunc NaN = None"

definition f64_to_int64 :: "(float64 \<Rightarrow> int) \<Rightarrow> float64 \<Rightarrow> int" where
  "f64_to_int64 conv x = (case f64_trunc x of Some i \<Rightarrow> if in_int64 i then i else conv x | None \<Rightarrow> conv x)"

section \<open>Strategies\<close>

record ExponentialBackoff =
  eb_MaxAttempts :: int
  eb_BaseDelay :: int
  eb_MaxDelay :: int
  eb_Jitter :: float64

definition eb_jitter :: "(float64 \<Rightarrow> int) \<Rightarrow> float64 \<Rightarrow> float64 \<Rightarrow> int \<Rightarrow> int" where
  "eb_jitter conv rnd jitter delay =
     (let jitterAmount = f64_mul (f64_of_int delay) jitter;
          randomJitter = f64_mul (f64_minus_one (f64_mul rnd (Fin 2 0))) jitterAmount
      in add64 delay (f64_to_int64 conv randomJitter))"

definition ExponentialBackoff_NextDelay ::
  "(float64 \<Rightarrow> int) \<Rightarrow> float64 \<Rightarrow> ExponentialBackoff \<Rightarrow> int \<Rightarrow> int \<times> bool" where
  "ExponentialBackoff_NextDelay conv rnd eb attempt =
     (if attempt \<ge> eb_MaxAttempts eb then (0, False)
      else let delay = f64_to_int64 conv (f64_mul (f64_of_int (eb_BaseDelay eb)) (f64_pow2 attempt));
               delay = (if delay > eb_MaxDelay eb then eb_MaxDelay eb else delay);
               delay = (if f64_pos (eb_Jitter eb) then eb_jitter conv rnd (eb_Jitter eb) delay else delay)
           in (delay, True))"

record LinearRetry =
  lr_MaxAttempts :: int
  lr_Delay :: int

definition LinearRetry_NextDelay :: "LinearRetry \<Rightarrow> int \<Rightarrow> int \<times> bool" where
  "LinearRetry_NextDelay l attempt = (if attempt \<ge> lr_MaxAttempts l then (0, False) else (lr_Delay l, True))"

definition NewLinearRetry :: "int \<Rightarrow> int \<Rightarrow> LinearRetry" where
  "NewLinearRetry maxAttempts delay = \<lparr>lr_MaxAttempts = maxAttempts, lr_Delay = delay\<rparr>"

definition NewExponentialBackoff :: "int \<Rightarrow> int \<Rightarrow> int \<Rightarrow> float64 \<Rightarrow> ExponentialBackoff" where
  "NewExponentialBackoff maxAttempts baseDelay maxDelay jitter =
     \<lparr>eb_MaxAttempts = maxAttempts, eb_BaseDelay = baseDelay, eb_MaxDelay = maxDelay, eb_Jitter = jitter\<rparr>"

text \<open>A value of the interface: one of the two strategies, or a function supplied by the user.\<close>

datatype RetryStrategy =
    RLinear LinearRetry
  | RExponential ExponentialBackoff
  | RCustom "int \<Rightarrow> int \<times> bool"

fun RetryStrategy_NextDelay :: "(float64 \<Rightarrow> int) \<Rightarrow> float64 \<Rightarrow> RetryStrategy \<Rightarrow> int \<Rightarrow> int \<times> bool" where
  "RetryStrategy_NextDelay conv rnd (RLinear l) attempt = LinearRetry_NextDelay l attempt"
| "RetryStrategy_NextDelay conv rnd (RExponential eb) attempt = ExponentialBackoff_NextDelay conv rnd eb attempt"
| "RetryStrategy_NextDelay conv rnd (RCustom f) attempt = f attempt"

section \<open>Rounding\<close>

lemma bits_bounds: "0 < n \<Longrightarrow> 2 ^ (bits n - 1) \<le> n" "n < 2 ^ bits n"
proof -
  have "n < 2 ^ bits n \<and> (0 < n \<longrightarrow> 2 ^ (bits n - 1) \<le> n)"
  proof (induction n rule: bits.induct)
    case (1 n)
    show ?case
    proof (cases "n = 0")
      case False
      note ih = 1 [OF False]
      have b: "bits n = Suc (bits (n div 2))" using False by (simp add: bits.simps [of n])
      have "2 ^ bits (n div 2) \<le> n"
      proof (cases "n div 2 = 0")
        case True
        then show ?thesis using False by (simp add: bits.simps [of 0])
      next
        case nz: False
        then have "bits (n div 2) \<noteq> 0" by (simp add: bits.simps [of "n div 2"])
        then have "(2::nat) ^ bits (n div 2) = 2 * 2 ^ (bits (n div 2) - 1)" by (simp flip: power_Suc)
        moreover have "2 ^ (bits (n div 2) - 1) \<le> n div 2" using ih nz by simp
        ultimately show ?thesis by linarith
      qed
      moreover have "n < 2 * 2 ^ bits (n div 2)" using ih by linarith
      ultimately show ?thesis using b by simp
    qed (simp add: bits.simps)
  qed
  then show "0 < n \<Longrightarrow> 2 ^ (bits n - 1) \<le> n" "n < 2 ^ bits n" by simp_all
qed

lemma bits_mono_le: "n < 2 ^ k \<Longrightarrow> bits n \<le> k"
proof (rule ccontr)
  assume n: "n < 2 ^ k" and "\<not> bits n \<le> k"
  then have k: "k \<le> bits n - 1" "0 < n" by (auto simp: bits.simps [of 0] intro: gr0I)
  then have "(2::nat) ^ k \<le> 2 ^ (bits n - 1)" by (intro power_increasing) simp_all
  then show False using bits_bounds(1) [OF k(2)] n by linarith
qed

lemma round_shift_0 [simp]: "round_shift 0 m = m"
  by (simp add: round_shift_def)

text \<open>Rounding never passes a multiple of the unit.\<close>

lemma round_shift_le:
  assumes "m \<le> b * 2 ^ s"
  shows "round_shift s m \<le> b"
proof (cases "m div 2 ^ s = b")
  case True
  have "m = b * 2 ^ s + m mod 2 ^ s" using True by (metis div_mult_mod_eq)
  then have "m mod 2 ^ s = 0" using assms by simp
  then show ?thesis using True by (simp add: round_shift_def)
next
  case False
  have "m div 2 ^ s \<le> b" using div_le_mono [OF assms, of "2 ^ s"] by simp
  then show ?thesis using False by (simp add: round_shift_def Let_def)
qed

lemma f64_norm_small:
  assumes "abs m < 2 ^ 53" and "-1074 \<le> e" and "e \<le> 900"
  shows "f64_norm m e = Fin m e"
proof -
  have "nat (abs m) < 2 ^ 53" using assms(1) by (simp add: nat_less_iff)
  then have "bits (nat (abs m)) \<le> 53" by (rule bits_mono_le)
  then show ?thesis using assms(3) by (simp add: f64_norm_def Let_def sgn_mult_abs mult_sgn_abs)
qed

text \<open>A rounded number stays within an exactly represented bound.\<close>

lemma f64_norm_le:
  assumes "0 \<le> d" and "d < 2 ^ 53" and "e \<le> 0" and "abs m \<le> d * 2 ^ nat (- e)"
  shows "\<exists>q f. f64_norm m e = Fin q f \<and> f \<le> 0 \<and> abs q \<le> d * 2 ^ nat (- f)"
proof -
  define a s where "a = nat (abs m)" and "s = bits a - 53"
  have es: "e + int s \<le> 0"
  proof (rule ccontr)
    assume c: "\<not> e + int s \<le> 0"
    then have s: "0 < s" "nat (- e) \<le> s - 1" using assms(3) by simp_all
    then have "0 < a" by (intro gr0I) (simp add: s_def bits.simps)
    have "2 ^ (52 + s) \<le> a" using bits_bounds(1) [OF \<open>0 < a\<close>] s(1) by (simp add: s_def)
    then have "2 ^ (52 + s) \<le> abs m" by (simp add: a_def le_nat_iff)
    also have "\<dots> \<le> d * 2 ^ nat (- e)" using assms(4) .
    also have "\<dots> < 2 ^ 53 * 2 ^ nat (- e)" using assms(2) by simp
    also have "\<dots> \<le> 2 ^ 53 * 2 ^ (s - 1)" using s by (simp add: power_increasing)
    also have "\<dots> = 2 ^ (53 + (s - 1))" by (rule power_add [symmetric])
    also have "\<dots> = 2 ^ (52 + s)" using s(1) by simp
    finally show False by simp
  qed
  have "a \<le> nat (d * 2 ^ nat (- (e + int s))) * 2 ^ s"
  proof -
    have "nat (- e) = nat (- (e + int s)) + s" using es by simp
    then have "abs m \<le> d * 2 ^ nat (- (e + int s)) * 2 ^ s" using assms(4) by (simp add: power_add mult.assoc)
    then show ?thesis using assms(1) by (simp add: a_def nat_le_iff nat_mult_distrib nat_power_eq)
  qed
  then have q: "round_shift s a \<le> nat (d * 2 ^ nat (- (e + int s)))" by (rule round_shift_le)
  have "abs (sgn m * int (round_shift s a)) \<le> int (round_shift s a)" by (simp add: abs_mult abs_sgn_eq)
  also have "\<dots> \<le> d * 2 ^ nat (- (e + int s))" using q assms(1) by (simp add: le_nat_iff)
  finally have b: "abs (sgn m * int (round_shift s a)) \<le> d * 2 ^ nat (- (e + int s))" .
  have "a < 2 ^ bits a" by (rule bits_bounds)
  also have "(2::nat) ^ bits a \<le> 2 ^ (53 + s)" by (intro power_increasing) (simp_all add: s_def)
  finally have "a \<le> 2 ^ 53 * 2 ^ s" by (simp add: power_add)
  then have "round_shift s a \<le> 2 ^ 53" by (rule round_shift_le)
  then have "bits (round_shift s a) \<le> 54" by (intro bits_mono_le) simp
  then have "e + int s + int (bits (round_shift s a)) \<le> 1024" using es by simp
  then have "f64_norm m e = Fin (sgn m * int (round_shift s a)) (e + int s)"
    by (simp add: f64_norm_def Let_def a_def s_def)
  then show ?thesis using es b by blast
qed

section \<open>Facts about the strategies\<close>

lemma pow2_mul:
  assumes "0 \<le> b" and "b < 2 ^ 53" and "0 \<le> n" and "n \<le> 900"
  shows "f64_mul (f64_of_int b) (f64_pow2 n) = Fin b n"
  using assms f64_norm_small [of b 0] f64_norm_small [of b n] by (simp add: f64_of_int_def f64_pow2_def)

text \<open>Without overflow the delay is the base delay doubled \<open>attempt\<close> times, capped.\<close>

lemma eb_delay_exact:
  assumes "0 \<le> eb_BaseDelay eb" and "eb_BaseDelay eb < 2 ^ 53" and "0 \<le> attempt" and "attempt \<le> 900"
    and "eb_BaseDelay eb * 2 ^ nat attempt < 2 ^ 63" and "attempt < eb_MaxAttempts eb"
    and "\<not> f64_pos (eb_Jitter eb)"
  shows "ExponentialBackoff_NextDelay conv rnd eb attempt =
    (min (eb_BaseDelay eb * 2 ^ nat attempt) (eb_MaxDelay eb), True)"
proof -
  have "0 \<le> eb_BaseDelay eb * 2 ^ nat attempt" using assms(1) by simp
  then have "in_int64 (eb_BaseDelay eb * 2 ^ nat attempt)" using assms(5) unfolding in_int64_def by (intro conjI) simp_all
  then show ?thesis
    using pow2_mul [OF assms(1-4)] assms(3,6,7)
    by (simp add: ExponentialBackoff_NextDelay_def f64_to_int64_def Let_def min_def)
qed

text \<open>A double in \<open>[0, 1)\<close> as \<open>rand.Float64\<close> makes it.\<close>

definition rand_ok :: "float64 \<Rightarrow> bool" where
  "rand_ok x \<longleftrightarrow> (\<exists>k. 0 \<le> k \<and> k < 2 ^ 53 \<and> x = Fin k (-53))"

text \<open>A jitter factor in \<open>(0, 1]\<close>.\<close>

definition jitter_ok :: "float64 \<Rightarrow> bool" where
  "jitter_ok x \<longleftrightarrow> (\<exists>m e. x = Fin m e \<and> 0 < m \<and> e \<le> 0 \<and> m \<le> 2 ^ nat (- e))"

lemma rand_unit:
  assumes "rand_ok rnd"
  shows "\<exists>m e. f64_minus_one (f64_mul rnd (Fin 2 0)) = Fin m e \<and> e \<le> 0 \<and> abs m \<le> 2 ^ nat (- e)"
proof -
  obtain k where k: "0 \<le> k" "k < 2 ^ 53" "rnd = Fin k (-53)" using assms by (auto simp: rand_ok_def)
  have "\<exists>q f. f64_norm (2 * k) (-53) = Fin q f \<and> f \<le> 0 \<and> abs q \<le> 2 * 2 ^ nat (- f) \<and> 0 \<le> q"
  proof -
    obtain q f where q: "f64_norm (2 * k) (-53) = Fin q f" "f \<le> 0" "abs q \<le> 2 * 2 ^ nat (- f)"
      using f64_norm_le [of 2 "-53" "2 * k"] k by auto
    moreover have "0 \<le> q" using q(1) k(1) by (auto simp: f64_norm_def Let_def sgn_if split: if_splits)
    ultimately show ?thesis by blast
  qed
  then obtain q f where q: "f64_mul rnd (Fin 2 0) = Fin q f" "f \<le> 0" "abs q \<le> 2 * 2 ^ nat (- f)" "0 \<le> q"
    using k(3) by (auto simp: mult.commute)
  have b: "abs (q - 2 ^ nat (- f)) \<le> 1 * 2 ^ nat (- f)" using q(3,4) by (simp add: abs_le_iff)
  have "f64_minus_one (Fin q f) = f64_norm (q - 2 ^ nat (- f)) f"
    using q(2) by (cases "f = 0") auto
  then show ?thesis using f64_norm_le [OF _ _ q(2) b] q(1) by auto
qed

text \<open>The jitter moves the delay by at most the delay itself.\<close>

lemma eb_jitter_bound:
  assumes "rand_ok rnd" and "jitter_ok j" and d: "0 \<le> d" "d < 2 ^ 53"
  shows "0 \<le> eb_jitter conv rnd j d \<and> eb_jitter conv rnd j d \<le> 2 * d"
proof -
  obtain m e where j: "j = Fin m e" "0 < m" "e \<le> 0" "m \<le> 2 ^ nat (- e)" using assms(2) by (auto simp: jitter_ok_def)
  obtain u g where u: "f64_minus_one (f64_mul rnd (Fin 2 0)) = Fin u g" "g \<le> 0" "abs u \<le> 2 ^ nat (- g)"
    using rand_unit [OF assms(1)] by blast
  have "abs (d * m) \<le> d * 2 ^ nat (- e)" using d(1) j(2,4) by (simp add: abs_mult mult_left_mono)
  then obtain q f where q: "f64_norm (d * m) e = Fin q f" "f \<le> 0" "abs q \<le> d * 2 ^ nat (- f)"
    using f64_norm_le [OF d j(3)] by blast
  have "abs (u * q) \<le> 2 ^ nat (- g) * (d * 2 ^ nat (- f))"
    unfolding abs_mult using u(3) q(3) by (intro mult_mono) simp_all
  also have "\<dots> = d * 2 ^ (nat (- g) + nat (- f))" by (simp add: power_add)
  also have "nat (- g) + nat (- f) = nat (- (g + f))" using u(2) q(2) by simp
  finally have "abs (u * q) \<le> d * 2 ^ nat (- (g + f))" .
  then obtain p h where p: "f64_norm (u * q) (g + f) = Fin p h" "h \<le> 0" "abs p \<le> d * 2 ^ nat (- h)"
    using f64_norm_le [OF d, of "g + f" "u * q"] u(2) q(2) by auto
  have "abs p div 2 ^ nat (- h) \<le> d" using zdiv_mono1 [OF p(3), of "2 ^ nat (- h)"] by simp
  moreover have "0 \<le> abs p div 2 ^ nat (- h)" by (simp add: pos_imp_zdiv_nonneg_iff)
  moreover obtain i where i: "f64_trunc (Fin p h) = Some i" "abs i = abs p div 2 ^ nat (- h)"
    using p(2) by (cases "h = 0"; cases "p = 0") (auto simp: abs_mult abs_sgn_eq pos_imp_zdiv_nonneg_iff)
  ultimately have id: "abs i \<le> d" by simp
  then have "in_int64 i" "in_int64 (d + i)" using d unfolding in_int64_def by auto
  then have "eb_jitter conv rnd j d = d + i"
    using f64_norm_small [of d 0] d j(1) u(1) q(1) p(1) i(1)
    by (simp add: eb_jitter_def Let_def f64_of_int_def f64_to_int64_def add64_exact)
  then show ?thesis using id by (simp add: abs_le_iff)
qed

end
