(* ===== verification/Retry_Budget.thy ===== *)
theory Retry_Budget
  imports Scheduler_Pools Retry
begin

text \<open>
  The retry budget: no task object ever counts more attempts than its \<open>maxRetries\<close> allows, over any
  storage that hands out only what was put in (\<open>storage_contract\<close>). So a task with \<open>maxRetries = n > 0\<close>
  runs at most \<open>n + 1\<close> times between two resubmissions, whatever its strategy says.
\<close>

definition budget :: "('job, 'rs) task \<Rightarrow> bool" where
  "budget t \<longleftrightarrow> 0 < t_maxRetries t \<longrightarrow> t_attempts t \<le> t_maxRetries t"

definition budgetp :: "PersistentTask \<Rightarrow> bool" where
  "budgetp t \<longleftrightarrow> 0 < p_MaxRetries t \<longrightarrow> p_Attempts t \<le> p_MaxRetries t"

text \<open>Updates that keep the budget.\<close>

definition thrifty :: "(('job, 'rs) task \<Rightarrow> ('job, 'rs) task) \<Rightarrow> bool" where
  "thrifty f \<longleftrightarrow> (\<forall>t. budget t \<longrightarrow> budget (f t))"

lemma thrifty_simps [simp, intro!]:
  "thrifty (\<lambda>t. t\<lparr>t_status := a\<rparr>)" "thrifty (\<lambda>t. t\<lparr>t_status := a, t_progress := b\<rparr>)"
  "thrifty (\<lambda>t. t\<lparr>t_progress := b\<rparr>)" "thrifty (\<lambda>t. t\<lparr>t_job := c\<rparr>)" "thrifty (\<lambda>t. t\<lparr>t_cancel := d\<rparr>)"
  "thrifty (\<lambda>t. t\<lparr>t_cancel := d, t_status := a\<rparr>)" "thrifty (\<lambda>t. t\<lparr>t_attempts := 0, t_status := a\<rparr>)"
  "thrifty (\<lambda>t. t\<lparr>t_retryStrategy := g t, t_status := a\<rparr>)"
  by (auto simp: thrifty_def budget_def)

lemma budget_new [simp]:
  "budgetp rt \<Longrightarrow> budget (ready_task rt job)" "budget (recovered_task pt job)" "budget (child_task i t)"
  "user_task t' \<Longrightarrow> budget t'"
  by (auto simp: budget_def budgetp_def ready_task_def recovered_task_def child_task_def zero_task_def
    dest: user_task_fresh)

lemma budget_persistent [simp]: "budget t \<Longrightarrow> budgetp (to_persistent t)"
  "budget t \<Longrightarrow> budgetp ((to_persistent t)\<lparr>p_DependsOn := a, p_Dependencies := b\<rparr>)"
  by (simp_all add: budget_def budgetp_def to_persistent_def)

locale budget_storage = storage_contract S budgetp inv
  for S :: "'st Storage" and inv :: "'st \<Rightarrow> bool" +
  fixes E :: "('rs, 'st) env"
  assumes env: "env_storage E = S"
    and init: "env_init E st \<Longrightarrow> inv st"
    and other: "env_other E st st' \<Longrightarrow> inv st \<Longrightarrow> inv st'"
begin

definition bud :: "('job, 'rs, 'st) Scheduler \<Rightarrow> bool" where
  "bud s \<longleftrightarrow> (\<forall>t \<in> set (s_objs s). budget t) \<and> inv (s_storage s)"

text \<open>References are valid where they are used, so reading a task gives a thrifty one.\<close>

lemma bud_at: "bud s \<Longrightarrow> r < length (s_objs s) \<Longrightarrow> budget (task_at s r)"
  by (simp add: bud_def task_at_def)

lemma bud_upd [intro!]: "bud s \<Longrightarrow> thrifty f \<Longrightarrow> bud (upd_task r f s)"
  by (cases "r < length (s_objs s)")
    (auto simp: bud_def upd_task_def thrifty_def list_update_beyond dest!: set_update_subset_insert [THEN subsetD])

lemma bud_tracked [intro!]: "bud s \<Longrightarrow> thrifty f \<Longrightarrow> bud (upd_tracked tid f s)"
  by (auto simp: upd_tracked_def split: option.splits)

lemma bud_alloc [intro!]: "bud s \<Longrightarrow> budget t \<Longrightarrow> bud (snd (alloc_task t s))"
  by (auto simp: bud_def alloc_task_def)

lemma bud_fields [simp]:
  "bud (track r s) = bud s" "bud (untrack k s) = bud s" "bud (push_queue r s) = bud s"
  "bud (release_key k s) = bud s" "bud (call_cancel c s) = bud s" "bud (set_worker i w s) = bud s"
  "bud (snd (new_ctx s)) = bud s" "bud (s\<lparr>s_wheel := w'\<rparr>) = bud s" "bud (s\<lparr>s_activeKeys := n\<rparr>) = bud s"
  "bud (s\<lparr>s_successCount := i'\<rparr>) = bud s" "bud (s\<lparr>s_failureCount := i'\<rparr>) = bud s"
  "bud (s\<lparr>s_deadCount := i'\<rparr>) = bud s" "bud (s\<lparr>s_registry := m\<rparr>) = bud s"
  "bud (s\<lparr>s_middlewares := l\<rparr>) = bud s" "bud (s\<lparr>s_paused := p\<rparr>) = bud s"
  by (simp_all add: bud_def track_def untrack_def push_queue_def release_key_def call_cancel_def
    set_worker_def new_ctx_def split: option.split)

lemma bud_store: "bud s \<Longrightarrow> (inv (s_storage s) \<Longrightarrow> inv (snd (f (s_storage s)))) \<Longrightarrow> bud (snd (store_call f s))"
  by (auto simp: bud_def store_call_def split: prod.splits)

lemma bud_do [intro!]: "bud s \<Longrightarrow> (inv (s_storage s) \<Longrightarrow> inv (snd (f (s_storage s)))) \<Longrightarrow> bud (store_do f s)"
  by (simp add: store_do_def bud_store)

lemma store_call_fst: "fst (store_call f s) = fst (f (s_storage s))"
  by (simp add: store_call_def split: prod.split)

lemma bud_inv: "bud s \<Longrightarrow> inv (s_storage s)"
  by (simp add: bud_def)

lemma bud_history [intro!]: "bud s \<Longrightarrow> bud (recordHistory E r s)"
  by (auto simp: recordHistory_def env AddToHistory)

lemma bud_admit: "bud s \<Longrightarrow> bud (submit_admit r s)"
  by (auto simp: submit_admit_def Let_def)

lemma bud_link: "bud s \<Longrightarrow> bud (snd (submit_link r s))"
  by (auto simp: submit_link_def Let_def split: option.split)

lemma bud_persist:
  assumes "bud s" and "r < length (s_objs s)"
  shows "bud (snd (submit_persist E r s))"
proof -
  have p: "budgetp (to_persistent (task_at s r))" using bud_at [OF assms] by simp
  have w: "bud (snd (store_call (st_SaveWaiting (env_storage E) (to_persistent (task_at s r))) s))"
    and v: "bud (snd (store_call (st_Save (env_storage E) (to_persistent (task_at s r))) s))"
    using assms(1) p by (auto simp: env intro!: bud_store SaveWaiting Save)
  then have "bud (snd (store_call (st_Enqueue (env_storage E) (to_persistent (task_at s r)))
      (snd (store_call (st_Save (env_storage E) (to_persistent (task_at s r))) s))))"
    using p by (auto simp: env intro!: bud_store Enqueue)
  with w v show ?thesis
    using assms(1) by (simp add: submit_persist_def submit_enqueue_def Let_def prod.case_eq_if split: option.split)
qed

lemma bud_Submit:
  assumes "bud s" and "r < length (s_objs s)"
  shows "bud (snd (Submit E r s))"
proof -
  have "bud (snd (submit_link r (submit_admit r s)))" using assms(1) by (intro bud_link bud_admit)
  moreover have "r < length (s_objs (snd (submit_link r (submit_admit r s))))" using assms(2) by (simp add: submit_link_objs)
  ultimately show ?thesis
    using assms(1) by (simp add: Submit_def prod.case_eq_if bud_persist split: option.split)
qed

lemma bud_submit_ready: "bud s \<Longrightarrow> budgetp rt \<Longrightarrow> bud (submit_ready E rt s)"
  by (auto simp: submit_ready_def prod.case_eq_if split: option.split intro!: bud_Submit) (simp add: alloc_task_def)

lemma bud_fold: "bud s \<Longrightarrow> (\<And>x s. x \<in> set xs \<Longrightarrow> bud s \<Longrightarrow> bud (f x s)) \<Longrightarrow> bud (fold f xs s)"
  by (induction xs arbitrary: s) auto

lemma bud_resolve [intro!]:
  assumes "bud s"
  shows "bud (resolveWorkflow E tid status s)"
proof -
  let ?c = "store_call (st_ResolveDependencies (env_storage E) tid status) s"
  have "bud (snd ?c)" using assms by (auto simp: env intro!: bud_store ResolveDependencies)
  moreover have "budgetp t" if "fst ?c = Inr ts" "t \<in> set ts" for t ts
    using ResolveDependencies_P [OF bud_inv [OF assms]] that by (simp add: store_call_fst env)
  ultimately show ?thesis
    by (auto simp: resolveWorkflow_def prod.case_eq_if split: sum.splits intro!: bud_fold bud_submit_ready)
qed

lemma bud_fail_dead:
  assumes "bud s" and "r < length (s_objs s)"
  shows "bud (fail_dead E r s)"
proof -
  have "budget (task_at s r)" using bud_at [OF assms] .
  then show ?thesis using assms(1) by (auto simp: fail_dead_def Let_def env Save CompleteTask)
qed

lemma bud_fail_final: "bud s \<Longrightarrow> bud (fail_final E r s)"
  by (auto simp: fail_final_def Let_def)

lemma bud_Schedule: "wheel_Schedule tid at cb s = Inr (er, s1) \<Longrightarrow> bud s \<Longrightarrow> bud s1"
  by (auto simp: wheel_Schedule_def go_bind_def split: sum.splits prod.splits)

text \<open>The one place where attempts grow: below the maximum, or without one.\<close>

lemma bud_fail_retry:
  assumes "fail_retry newid at r s = Inr s1" and "bud s"
    and "\<not> (0 < t_maxRetries (task_at s r) \<and> t_maxRetries (task_at s r) \<le> t_attempts (task_at s r))"
  shows "bud s1"
proof -
  have "budget (retry_task newid (task_at s r))" using assms(3) by (auto simp: budget_def retry_task_def)
  then have "bud (snd (alloc_task (retry_task newid (task_at s r))
      (upd_tracked (t_id (task_at s r)) (\<lambda>x. x\<lparr>t_status := StatusRetrying\<rparr>) s)))"
    using assms(2) by auto
  then show ?thesis
    using assms(1) by (auto simp: fail_retry_def Let_def go_bind_def prod.case_eq_if dest!: bud_Schedule split: sum.splits)
qed

lemma bud_failure:
  assumes "handleFailure E now newid r s = Inr s1" and "bud s" and "r < length (s_objs s)"
  shows "bud s1"
proof -
  let ?s = "s\<lparr>s_failureCount := s_failureCount s + 1\<rparr>"
  have b: "bud ?s" "r < length (s_objs ?s)" using assms(2,3) by simp_all
  show ?thesis
    using assms(1) bud_fail_dead [OF b] bud_fail_final [OF b(1)] bud_fail_retry [OF _ b(1)]
    by (auto simp: handleFailure_def Let_def split: if_splits option.splits)
qed

lemma bud_evict: "bud s \<Longrightarrow> bud (runTask_evict rn s)"
  by (auto simp: runTask_evict_def Let_def)

lemma bud_success: "bud s \<Longrightarrow> bud (finish_success E r s)"
  by (auto simp: finish_success_def Let_def env CompleteTask)

lemma bud_cancelled: "bud s \<Longrightarrow> bud (finish_cancelled E r s)"
  by (auto simp: finish_cancelled_def Let_def env CompleteTask)

lemma bud_done:
  assumes "runTask_done E now newid rn failed s = Inr s1" and "bud s" and "r_task rn < length (s_objs s)"
  shows "bud s1"
  using assms bud_failure [of now newid "r_task rn" "release_key (t_key (task_at s (r_task rn))) s"]
  by (auto simp: runTask_done_def Let_def go_bind_def split: if_splits sum.splits intro!: bud_evict bud_success)

lemma bud_ctxDone:
  assumes "runTask_ctxDone E now newid rn canceled s = Inr s1" and "bud s" and "r_task rn < length (s_objs s)"
  shows "bud s1"
proof -
  have u: "bud (upd_task (r_task rn) (\<lambda>x. x\<lparr>t_status := a\<rparr>) (release_key k s))" for a k
    using assms(2) by auto
  show ?thesis
    using assms(1,3) u [of StatusFailed "t_key (task_at s (r_task rn))"]
      u [of StatusCancelled "t_key (task_at s (r_task rn))"]
    by (auto simp: runTask_ctxDone_def Let_def go_bind_def split: if_splits sum.splits
      intro!: bud_evict bud_cancelled dest!: bud_failure)
qed

lemma bud_start: "bud s \<Longrightarrow> bud (snd (runTask_start E r s))"
  by (auto simp: runTask_start_def Let_def prod.case_eq_if split: option.split)

lemma bud_schedule: "schedule_wheel r at cb (schedule_track r s) = Inr (res, s1) \<Longrightarrow> bud s \<Longrightarrow> bud s1"
  by (auto simp: schedule_wheel_def schedule_track_def go_bind_def prod.case_eq_if dest!: bud_Schedule split: sum.splits)

lemma bud_child: "bud s \<Longrightarrow> bud (submit_child E newid r s)"
  by (auto simp: submit_child_def prod.case_eq_if intro!: bud_Submit) (simp add: alloc_task_def)

lemma bud_callback:
  assumes "run_callback E now newid cb s = Inr s1" and "bud s" and "cb_ref cb < length (s_objs s)"
  shows "bud s1"
  using assms bud_child [OF assms(2), of newid "cb_ref cb"]
  by (cases cb) (auto simp: Let_def go_bind_def intro: bud_Submit dest!: bud_Schedule split: if_splits sum.splits)

lemma bud_cancel_mark: "bud s \<Longrightarrow> bud (snd (cancel_mark tid s))"
  by (auto simp: cancel_mark_def Let_def split: option.split)

lemma bud_finalize: "bud s \<Longrightarrow> bud (cancel_finalize E tid r s)"
  by (auto simp: cancel_finalize_def Let_def env CompleteTask)

lemma bud_Cancel:
  assumes "bud s"
  shows "bud (snd (Cancel E tid s))"
  using bud_cancel_mark [OF assms, of tid]
  by (auto simp: Cancel_def Let_def wheel_Cancel_def prod.case_eq_if env split: option.split
    intro!: bud_store bud_finalize MarkCancelled UnscheduleDelayed PublishCancel)

lemma bud_load:
  assumes "bud s"
  shows "bud (loadTasks E s)"
proof -
  let ?c = "store_call (st_LoadAll (env_storage E)) s"
  have "bud (snd ?c)" using assms by (auto simp: env intro!: bud_store LoadAll)
  moreover have "bud (load_one E pt s')" if "bud s'" for pt and s' :: "('a, 'rs, 'st) Scheduler"
  proof -
    have "bud (snd (store_call (st_Claim (env_storage E) (p_ID pt) (s_instanceID s') (s_leaseDuration s')) s'))"
      using that by (auto simp: env intro!: bud_store Claim)
    then show ?thesis
      by (auto simp: load_one_def prod.case_eq_if split: sum.split bool.split option.split)
  qed
  ultimately show ?thesis
    by (auto simp: loadTasks_def prod.case_eq_if split: sum.splits intro!: bud_fold)
qed

lemma bud_dequeue_storage:
  assumes "bud s"
  shows "bud (snd (dequeue_storage E s))"
proof -
  let ?c = "store_call (st_Dequeue (env_storage E) (s_instanceID s) (s_leaseDuration s)) s"
  have "bud (snd ?c)" using assms by (auto simp: env intro!: bud_store Dequeue)
  then have "bud (snd (store_call (st_IsCancelled (env_storage E) i) (snd ?c)))" for i
    by (auto simp: env intro!: bud_store IsCancelled)
  then show ?thesis
    using \<open>bud (snd ?c)\<close>
    by (auto simp: dequeue_storage_def prod.case_eq_if env Delete split: sum.split bool.split option.split)
qed

lemma bud_pools [simp]:
  "bud (spawnWorkersForPoolLocked pool n s) = bud s" "bud (ScalePool pool n s) = bud s"
  "bud (dispatchTask r s) = bud s"
  by (simp_all add: bud_def spawnWorkersForPoolLocked_def ScalePool_def dispatchTask_def Let_def split: option.split)

lemma bud_dequeue: "bud s \<Longrightarrow> bud (dequeue_round E s)"
proof -
  assume b: "bud s"
  have "bud (snd (pop_queue s))"
    using b by (auto simp: pop_queue_def bud_def split: option.split prod.split)
  then show ?thesis
    using b by (simp add: dequeue_round_def prod.case_eq_if bud_dequeue_storage split: option.split)
qed

lemma bud_recv: "chan_recv pool s = Some (r, s1) \<Longrightarrow> bud s \<Longrightarrow> bud s1"
  by (auto simp: chan_recv_def bud_def split: option.splits list.splits if_splits)

lemma bud_take: "worker_take E i s = Some s1 \<Longrightarrow> bud s \<Longrightarrow> bud s1"
  by (auto simp: worker_take_def Let_def prod.case_eq_if split: option.splits if_splits
    dest!: bud_recv intro!: bud_start)

lemma bud_ShutDown: "bud s \<Longrightarrow> bud (ShutDown s)"
  by (auto simp: ShutDown_def Let_def split_beta intro!: bud_fold) (simp_all add: bud_def)

lemma bud_step:
  assumes "sched_step E (now, gone, s) (now', gone', s')" and b: "bud s" and "core_ok s" and "pools_ok s"
    and "wheel_ok {} (s_wheel s)"
  shows "bud s'"
  using assms(1)
proof cases
  case (env_store st)
  then show ?thesis using b other by (auto simp: bud_def)
next
  case (once r at res)
  then show ?thesis using b bud_schedule [of r at "CbOnce r" s res s'] by (auto simp: ScheduleOnceTask_def split: if_splits)
next
  case (recurring r iv res)
  then show ?thesis
    using b bud_schedule [of r _ "CbRecurring r iv" s res s'] by (auto simp: ScheduleRecurringTask_def split: if_splits)
next
  case (cron r spec res)
  then show ?thesis
    using b bud_schedule [of r _ "CbCron r (Fields spec)" s res s'] by (auto simp: ScheduleCronTask_def Let_def split: if_splits)
next
  case (callback e newid)
  then show ?thesis using b fired_callback_ref [OF assms(3,5)] bud_callback by blast
next
  case (finish i bb rn newid failed s1)
  then have "r_task rn < length (s_objs s)"
    using assms(4) by (force simp: pools_ok_def refs_ok_def held_def run_refs_def in_set_conv_nth)
  then show ?thesis using finish b bud_done by simp
next
  case (ctx_done i bb rn canceled newid s1)
  then have "r_task rn < length (s_objs s)"
    using assms(4) by (force simp: pools_ok_def refs_ok_def held_def run_refs_def in_set_conv_nth)
  then show ?thesis using ctx_done b bud_ctxDone by simp
next
  case (remote_cancel tid)
  then show ?thesis using b by (auto simp: onCancel_def split: option.split)
next
  case (resubmit tid)
  then show ?thesis using b by (auto simp: Resubmit_def Let_def split: option.split)
next
  case cleanup
  then show ?thesis using b by (simp add: cleanup_tick_def bud_load)
next
  case recovery
  then show ?thesis using b by (auto simp: recovery_tick_def env RecoverOrphaned)
next
  case (beat tid)
  then show ?thesis using b by (auto simp: heartbeat_def prod.case_eq_if env intro!: bud_store Heartbeat)
next
  case (control i bb)
  then show ?thesis using b by (auto simp: worker_control_def Let_def bud_def set_worker_def split: option.splits nat.splits)
next
  case send
  then show ?thesis using b by (auto simp: dispatch_send_def bud_def split: option.splits if_splits)
qed (use b in \<open>auto simp: RegisterJob_def Use_def worker_start_def ReportProgress_def Let_def Pause_def Resume_def
   intro: bud_Submit bud_Cancel bud_dequeue bud_take bud_ShutDown\<close>)

lemma apply_opt_storage:
  "s_objs (apply_opt opt s) = s_objs s"
  "s_storage (apply_opt opt s) = (case opt of OStorage st \<Rightarrow> st | _ \<Rightarrow> s_storage s)"
  by (cases opt; simp add: option_defs)+

lemma bud_opts:
  assumes "\<And>st'. OStorage st' \<in> set opts \<Longrightarrow> inv st'" and "bud s" and "s_objs s = []"
  shows "bud (fold apply_opt opts s) \<and> s_objs (fold apply_opt opts s) = []"
  using assms
proof (induction opts arbitrary: s)
  case (Cons opt opts)
  have "bud (apply_opt opt s)" "s_objs (apply_opt opt s) = []"
    using Cons.prems by (auto simp: bud_def apply_opt_storage split: opt.split)
  then show ?case using Cons by simp
qed simp

lemma bud_spawns: "bud (fold (\<lambda>(pool, cnt). spawnWorkersForPoolLocked pool cnt) xs t) = bud t"
  by (induction xs arbitrary: t) (simp_all add: split_beta)

lemma bud_new:
  assumes "New E now newid st (map apply_opt opts) = Inr s" and "inv st" and "\<And>st'. OStorage st' \<in> set opts \<Longrightarrow> inv st'"
  shows "bud s"
proof -
  let ?s = "fold apply_opt opts (new_scheduler newid st)"
  obtain w where s: "s = spawn_all (default_pool (loadTasks E (?s\<lparr>s_wheel := w\<rparr>)))"
    using assms(1) by (auto simp: New_def fold_map_id go_bind_def Let_def split: sum.splits)
  have "bud (new_scheduler newid st)" "s_objs (new_scheduler newid st) = []"
    using assms(2) by (simp_all add: bud_def new_scheduler_def)
  then have "bud ?s" using bud_opts [OF assms(3)] by blast
  then have "bud (default_pool (loadTasks E (?s\<lparr>s_wheel := w\<rparr>)))"
    using bud_load [of "?s\<lparr>s_wheel := w\<rparr>"] by (simp add: default_pool_def bud_def split: option.split)
  then show ?thesis by (simp add: s spawn_all_def bud_spawns)
qed

lemma reach_bud: "sched_reach E x \<Longrightarrow> bud (snd (snd x))"
proof (induction rule: sched_reach.induct)
  case (new now st opts newid s)
  have "bud s" using bud_new [OF new(5)] new(3,4) init by blast
  then show ?case by simp
next
  case (step x y)
  obtain n g s n' g' s' where e: "x = (n, g, s)" "y = (n', g', s')" by (metis surj_pair)
  have ok: "sys_ok E (n, g, s)" using sched_reach_ok [OF step.hyps(1)] by (simp add: e)
  then have w: "wheel_ok {} (s_wheel s)" by (simp add: sys_ok_def) (metis reach_ok(2))
  have c: "core_ok s" using ok by (simp add: sys_ok_def)
  have p: "pools_ok s" using sched_reach_pools [OF step.hyps(1)] by (simp add: e)
  show ?case using bud_step [OF step.hyps(2) [unfolded e] _ c p w] step.IH by (simp add: e)
qed

text \<open>Every task object of a reachable state respects its budget.\<close>

lemma reach_budget: "sched_reach E (now, gone, s) \<Longrightarrow> t \<in> set (s_objs s) \<Longrightarrow> budget t"
  using reach_bud by (force simp: bud_def)

end

section \<open>The scheduler with in-memory storage\<close>

text \<open>The environment of a scheduler with the default storage and the strategies of \<open>retry.go\<close>.\<close>

definition im_env :: "(float64 \<Rightarrow> int) \<Rightarrow> float64 \<Rightarrow> (int \<Rightarrow> int) \<Rightarrow> (RetryStrategy, InMemoryStorage) env" where
  "im_env conv rnd zone = \<lparr>env_storage = im_Storage, env_NextDelay = RetryStrategy_NextDelay conv rnd,
     env_zone = zone, env_init = (\<lambda>st. im_history st = []), env_other = (=)\<rparr>"

interpretation imb: budget_storage im_Storage "\<lambda>_. True" "im_env conv rnd zone" for conv rnd zone
  by unfold_locales (simp_all add: im_env_def)

end
