(* ===== verification/Scheduler_Demo.thy ===== *)
theory Scheduler_Demo
  imports Retry_Budget
begin

text \<open>
  A concrete run of a scheduler on the in-memory storage, the witness of the properties that assume a
  reachable state: two tasks are submitted, the more urgent one is dispatched, taken by a worker and
  fails, so that its retry is parked in the wheel.
\<close>

type_synonym demo_sched = "(string, RetryStrategy, InMemoryStorage) Scheduler"

definition demo_env :: "(RetryStrategy, InMemoryStorage) env" where
  "demo_env = im_env (\<lambda>_. - (2 ^ 63)) (Fin 0 (-53)) (\<lambda>_. 0)"

definition demo_now :: int where
  "demo_now = 1700000000000000000"

definition demo_init :: demo_sched where
  "demo_init = projr (New demo_env demo_now ''inst'' \<lparr>im_history = []\<rparr> [])"

definition demo_task :: "(string, RetryStrategy) task" where
  "demo_task = WithKey ''k'' (WithMaxRetries 1 (task_WithRetryStrategy (Some (RLinear (NewLinearRetry 3 2000000000)))
     (NewTask ''t1'' (Some ''job'') 5 0)))"

definition demo_low :: "(string, RetryStrategy) task" where
  "demo_low = NewTask ''t2'' (Some ''job'') 1 0"

text \<open>Both tasks exist, none is submitted.\<close>

definition demo_ready :: demo_sched where
  "demo_ready = snd (alloc_task demo_task (snd (alloc_task demo_low demo_init)))"

definition demo_queued1 :: demo_sched where
  "demo_queued1 = snd (Submit demo_env 0 demo_ready)"

definition demo_queued :: demo_sched where
  "demo_queued = snd (Submit demo_env 1 demo_queued1)"

definition demo_running :: demo_sched where
  "demo_running = the (worker_take demo_env 0 (worker_start 0 (dequeue_round demo_env demo_queued)))"

definition demo_run :: run where
  "demo_run = \<lparr>r_task = 1, r_ctx = 0, r_delay = 0\<rparr>"

definition demo_failed :: demo_sched where
  "demo_failed = set_worker 0 (WIdle True) (projr (runTask_done demo_env demo_now ''x'' demo_run True demo_running))"

lemma demo_init_reach: "sched_reach demo_env (demo_now, {}, demo_init)"
proof (rule sched_reach.new [where opts = "[]" and st = "\<lparr>im_history = []\<rparr>" and newid = "''inst''"])
  have "\<not> isl (New demo_env demo_now ''inst'' \<lparr>im_history = []\<rparr> [] :: demo_sched go)" by code_simp
  then show "New demo_env demo_now ''inst'' \<lparr>im_history = []\<rparr> (map apply_opt []) = Inr demo_init"
    by (simp add: demo_init_def)
qed (simp_all add: demo_now_def now_ok_def demo_env_def im_env_def)

lemma demo_user: "user_task demo_task" "user_task demo_low"
  by (simp_all add: demo_task_def demo_low_def user_task.intros)

lemma demo_ready_reach: "sched_reach demo_env (demo_now, {}, demo_ready)"
  unfolding demo_ready_def
  using sched_reach.step [OF sched_reach.step [OF demo_init_reach sched_step.create [OF demo_user(2)]]
    sched_step.create [OF demo_user(1)]] .

lemma demo_objs: "length (s_objs demo_ready) = 2" "length (s_objs demo_queued1) = 2" "length (s_objs demo_queued) = 2"
  by code_simp+

lemma demo_queued1_reach: "sched_reach demo_env (demo_now, {}, demo_queued1)"
  unfolding demo_queued1_def
  by (rule sched_reach.step [OF demo_ready_reach], rule sched_step.submit) (simp add: demo_objs)

lemma demo_queued_reach: "sched_reach demo_env (demo_now, {}, demo_queued)"
  unfolding demo_queued_def
  by (rule sched_reach.step [OF demo_queued1_reach], rule sched_step.submit) (simp add: demo_objs)

lemma demo_dispatch_reach: "sched_reach demo_env (demo_now, {}, dequeue_round demo_env demo_queued)"
proof (rule sched_reach.step [OF demo_queued_reach], rule sched_step.dequeue)
  show "s_dispatch demo_queued = None" "\<not> s_stop demo_queued" by code_simp+
qed

lemma demo_started_reach: "sched_reach demo_env (demo_now, {}, worker_start 0 (dequeue_round demo_env demo_queued))"
proof (rule sched_reach.step [OF demo_dispatch_reach], rule sched_step.start_worker)
  show "0 < length (s_workers (dequeue_round demo_env demo_queued))" by code_simp
  show "w_state (s_workers (dequeue_round demo_env demo_queued) ! 0) = WStarting" by code_simp
qed

lemma demo_running_reach: "sched_reach demo_env (demo_now, {}, demo_running)"
proof (rule sched_reach.step [OF demo_started_reach], rule sched_step.take)
  let ?s = "worker_start 0 (dequeue_round demo_env demo_queued)"
  show "0 < length (s_workers ?s)" "w_state (s_workers ?s ! 0) = WIdle True" by code_simp+
  have "\<not> Option.is_none (worker_take demo_env 0 ?s)" by code_simp
  then show "worker_take demo_env 0 ?s = Some demo_running" by (auto simp: demo_running_def Option.is_none_def)
qed

lemma demo_failed_reach: "sched_reach demo_env (demo_now, {}, demo_failed)"
  unfolding demo_failed_def
proof (rule sched_reach.step [OF demo_running_reach], rule sched_step.finish)
  show "0 < length (s_workers demo_running)" "w_state (s_workers demo_running ! 0) = WRunning True demo_run" by code_simp+
  have "retry_decision demo_env (task_at demo_running (r_task demo_run)) = Some 2000000000" by code_simp
  then show "retry_ok demo_env (task_at demo_running (r_task demo_run))" by (simp add: retry_ok_def delay_ok_def)
  have "\<not> isl (runTask_done demo_env demo_now ''x'' demo_run True demo_running)" by code_simp
  then show "runTask_done demo_env demo_now ''x'' demo_run True demo_running =
      Inr (projr (runTask_done demo_env demo_now ''x'' demo_run True demo_running))" by simp
qed

end
