(* ===== verification/Scheduler_Props.thy ===== *)
theory Scheduler_Props
  imports Scheduler_Demo
begin

text \<open>
  The properties of the scheduler, over every state reachable from \<open>New\<close> where they are invariants,
  with concrete runs of a scheduler on the in-memory storage as witnesses.
\<close>

section \<open>Lemmas on single operations\<close>

lemma dispatch_simps [simp]:
  "s_queue (dispatchTask r s) = s_queue s" "s_queueSize (dispatchTask r s) = s_queueSize s"
  "s_dispatch (dispatchTask r s) = Some (r, if t_pool (task_at s r) = '''' then ''default'' else t_pool (task_at s r))"
  by (simp_all add: dispatchTask_def spawnWorkersForPoolLocked_def Let_def split: option.split)

lemma reach_core: "sched_reach E (now, gone, s) \<Longrightarrow> core_ok s"
  using sched_reach_ok by (force simp: sys_ok_def)

lemma reach_wheel:
  assumes "sched_reach E (now, gone, s)"
  shows "wheel_reach (UnixMilli now, s_wheel s)" "wheel_ok {} (s_wheel s)" "tw_size (s_wheel s) = 256"
    "tw_started (s_wheel s)" "now_ok now"
proof -
  have "sys_ok E (now, gone, s)" using assms by (rule sched_reach_ok)
  then show w: "wheel_reach (UnixMilli now, s_wheel s)" "tw_size (s_wheel s) = 256" "tw_started (s_wheel s)" "now_ok now"
    by (simp_all add: sys_ok_def)
  show "wheel_ok {} (s_wheel s)" using reach_ok(2) [OF w(1)] .
qed

lemma tracked_ref: "core_ok s \<Longrightarrow> gm_get (s_tasks s) tid = Some r \<Longrightarrow> r < n_objs s \<and> t_id (task_at s r) = tid"
  by (simp add: core_ok_def)

section \<open>Invariants\<close>

text \<open>
  C8. In every reachable state of the scheduler: the queue is a heap on the priorities and
  \<open>queueSize\<close> is its length; the tracked tasks have distinct IDs, and each ID is mapped to an existing
  task with this ID; the tasks queued, parked in the wheel, dispatched, buffered in a channel or
  running exist; and before the scheduler stops \<open>currentWorkers\<close> is the number of workers that have
  not exited.
\<close>

theorem scheduler_invariant:
  assumes "sched_reach E (now, gone, s)"
  shows "tq.ordered (prio s) (s_queue s) \<and> s_queueSize s = int (length (s_queue s)) \<and>
    distinct (map fst (s_tasks s)) \<and>
    (\<forall>tid r. gm_get (s_tasks s) tid = Some r \<longrightarrow> r < n_objs s \<and> t_id (task_at s r) = tid) \<and>
    set (s_queue s) \<union> held s \<union> cb_ref ` set (tw_cbs (s_wheel s)) \<subseteq> {..<n_objs s} \<and>
    (\<not> s_stop s \<longrightarrow> s_currentWorkers s = int (length (filter live (s_workers s))))"
proof -
  have "pools_ok s" using sched_reach_pools [OF assms] by simp
  then show ?thesis
    using reach_core [OF assms] by (auto simp: core_ok_def gm_ok_def pools_ok_def refs_ok_def count_ok_def)
qed

theorem scheduler_invariant_witness: "s_queueSize demo_queued = 2 \<and> s_queueSize demo_queued = int (length (s_queue demo_queued))"
proof -
  have "s_queueSize demo_queued = 2" by code_simp
  then show ?thesis using scheduler_invariant [OF demo_queued_reach] by simp
qed



text \<open>
  C10. The dequeue loop takes a queued task of the highest priority: a round that is not paused and
  finds the queue non-empty hands it to the task's pool (\<open>default\<close> when it names none), and removes it
  alone from the queue.
\<close>

theorem dequeue_highest_priority:
  assumes "sched_reach E (now, gone, s)" and "\<not> s_paused s" and "s_queue s \<noteq> []"
  shows "\<exists>r. s_dispatch (dequeue_round E s) =
      Some (r, if t_pool (task_at s r) = '''' then ''default'' else t_pool (task_at s r)) \<and>
    r \<in> set (s_queue s) \<and> (\<forall>x. x \<in> set (s_queue s) \<longrightarrow> prio s x \<le> prio s r) \<and>
    mset (s_queue s) = add_mset r (mset (s_queue (dequeue_round E s))) \<and>
    s_queueSize (dequeue_round E s) = s_queueSize s - 1"
proof -
  have o: "tq.ordered (prio s) (s_queue s)" using reach_core [OF assms(1)] by (simp add: core_ok_def)
  obtain r q where p: "heap_Pop (taskHeap (prio s)) (s_queue s) = Some (r, q)"
    using taskHeap_Pop_None [OF o] assms(3) by (cases "heap_Pop (taskHeap (prio s)) (s_queue s)") auto
  have "dequeue_round E s = dispatchTask r (s\<lparr>s_queue := q, s_queueSize := s_queueSize s - 1\<rparr>)"
    using assms(2) p by (simp add: dequeue_round_def pop_queue_def)
  then show ?thesis
    using taskHeap_Pop [OF o p] by (intro exI [of _ r]) (simp add: task_at_def)
qed

theorem dequeue_highest_priority_witness:
  "s_dispatch (dequeue_round demo_env demo_queued) = Some (1, ''default'') \<and> prio demo_queued 0 \<le> prio demo_queued 1"
proof -
  have q: "s_queue demo_queued = [1, 0]" "\<not> s_paused demo_queued"
    "s_dispatch (dequeue_round demo_env demo_queued) = Some (1, ''default'')" by code_simp+
  then show ?thesis using dequeue_highest_priority [OF demo_queued_reach q(2)] by auto
qed



section \<open>Submit\<close>

lemma submit_admit_tasks [simp]: "s_tasks (submit_admit r s) = s_tasks s" "s_queue (submit_admit r s) = s_queue s"
  "s_queueSize (submit_admit r s) = s_queueSize s"
  by (simp_all add: submit_admit_def Let_def upd_task_def)

text \<open>
  C12. \<open>Submit\<close> of a task without a type name. A stopped scheduler, a full one and a taken key refuse it
  and nothing changes. Otherwise it returns the task's ID; the task is Queued, tracked under its ID
  and in the queue once more; its key is taken; and the number of tracked tasks stays within
  \<open>maxQueueSize\<close>.
\<close>

theorem submit_anonymous:
  assumes "sched_reach E (now, gone, s)" and "r < n_objs s" and "t = task_at s r" and "t_typeName t = ''''"
  shows "if s_stopped s then Submit E r s = (Inl ErrSchedulerStopped, s)
    else if s_maxQueueSize s \<le> gm_len (s_tasks s) then Submit E r s = (Inl ErrQueueFull, s)
    else if t_key t \<noteq> '''' \<and> gm_get (s_activeKeys s) (t_key t) \<noteq> None then Submit E r s = (Inl ErrJobAlreadyRunning, s)
    else \<exists>s'. Submit E r s = (Inr (t_id t), s') \<and> Status (t_id t) s' = StatusQueued \<and>
      gm_get (s_tasks s') = (gm_get (s_tasks s))(t_id t \<mapsto> r) \<and> gm_len (s_tasks s') \<le> s_maxQueueSize s \<and>
      mset (s_queue s') = add_mset r (mset (s_queue s)) \<and> s_queueSize s' = s_queueSize s + 1 \<and>
      gm_get (s_activeKeys s') = (if t_key t = '''' then gm_get (s_activeKeys s) else (gm_get (s_activeKeys s))(t_key t \<mapsto> ()))"
proof -
  let ?a = "submit_admit r s"
  have at: "task_at ?a r = t\<lparr>t_retryStrategy := (case t_retryStrategy t of None \<Rightarrow> s_retryStrategy s | rs \<Rightarrow> rs), t_status := StatusQueued\<rparr>"
    using assms(2,3) by (simp add: submit_admit_def Let_def task_at_upd) (simp add: task_at_def)
  have o: "tq.ordered (prio ?a) (s_queue ?a)" using core_ok_admit [OF reach_core [OF assms(1)], of r] by (simp add: core_ok_def)
  have pr: "prio (track r ?a) = prio ?a" by (simp add: prio_def task_at_def track_def fun_eq_iff)
  have sub: "Submit E r s = (case submit_refuse t s of Some err \<Rightarrow> (Inl err, s)
      | None \<Rightarrow> (Inr (t_id t), push_queue r (track r ?a)))"
    using assms(3,4) at by (simp add: Submit_def submit_link_def submit_persist_def submit_enqueue_def Let_def split: option.split)
  let ?s = "push_queue r (track r ?a)"
  have st: "Status (t_id t) ?s = StatusQueued" "gm_get (s_tasks ?s) = (gm_get (s_tasks s))(t_id t \<mapsto> r)"
    "length (s_tasks ?s) \<le> Suc (length (s_tasks s))"
    using at by (simp_all add: Status_def push_queue_def track_def task_at_def gm_len_put_le fun_eq_iff)
  have q: "mset (s_queue ?s) = add_mset r (mset (s_queue s))" "s_queueSize ?s = s_queueSize s + 1"
    using taskHeap_Push(2) [OF o, of r] pr by (simp_all add: push_queue_def) (simp_all add: track_def)
  have ky: "gm_get (s_activeKeys ?s) = (if t_key t = '''' then gm_get (s_activeKeys s) else (gm_get (s_activeKeys s))(t_key t \<mapsto> ()))"
    using assms(3) by (auto simp: push_queue_def track_def submit_admit_def upd_task_def Let_def fun_eq_iff)
  show ?thesis using sub st q ky by (auto simp: submit_refuse_def)
qed

theorem submit_anonymous_witness:
  "Submit demo_env 1 demo_queued1 = (Inr ''t1'', demo_queued) \<and> Status ''t1'' demo_queued = StatusQueued \<and>
   mset (s_queue demo_queued) = add_mset 1 (mset (s_queue demo_queued1))"
proof -
  let ?t = "task_at demo_queued1 1"
  have f: "1 < n_objs demo_queued1" "t_typeName ?t = ''''" "\<not> s_stopped demo_queued1"
    "\<not> s_maxQueueSize demo_queued1 \<le> gm_len (s_tasks demo_queued1)" "t_id ?t = ''t1''" "t_key ?t = ''k''"
    "gm_get (s_activeKeys demo_queued1) ''k'' = None" by code_simp+
  show ?thesis
    using submit_anonymous [OF demo_queued1_reach f(1) refl f(2)] f(3-7) by (auto simp: demo_queued_def)
qed

end
