(* ===== verification/Scheduler_Life.thy ===== *)
theory Scheduler_Life
  imports Scheduler_Props
begin

text \<open>
  The life of a task after it was taken by a worker: what a finished run, a failure and a
  cancellation leave behind.
\<close>

section \<open>Lemmas\<close>

text \<open>A successful \<open>Schedule\<close> appends its callback to the wheel's.\<close>

lemma Schedule_cbs_exact:
  "TimingWheel_Schedule tid at (Some cb) tw = Inr (None, tw') \<Longrightarrow> tw_cbs tw' = tw_cbs tw @ [cb]"
  by (auto simp: TimingWheel_Schedule_def go_bind_def schedule_index_cbs dest!: insert_cbs
    split: if_splits sum.splits)

text \<open>\<open>wheel_Schedule\<close> on a reachable scheduler always returns.\<close>

lemma wheel_Schedule_reach:
  assumes "wheel_ok {} (s_wheel s)" and "tw_size (s_wheel s) = 256" and "tw_started (s_wheel s)" and "time_ok at"
  shows "if tw_stopped (s_wheel s) then wheel_Schedule tid at cb s = Inr (Some ErrWheelStopped, s)
    else \<exists>w. wheel_Schedule tid at cb s = Inr (None, s\<lparr>s_wheel := w\<rparr>) \<and>
      scheduled tid (UnixMilli at) (s_wheel s) w \<and> tw_cbs w = tw_cbs (s_wheel s) @ [cb]"
proof (cases "tw_stopped (s_wheel s)")
  case True
  then show ?thesis using assms(3) by (simp add: wheel_Schedule_def TimingWheel_Schedule_def go_bind_def)
next
  case False
  have "UnixMilli at * tw_size (s_wheel s) \<le> 2 ^ 62" using time_ok_wheel [OF assms(4)] assms(2) by simp
  from Schedule_ok [OF assms(1) this assms(3) False] obtain w where
    "TimingWheel_Schedule tid (UnixMilli at) (Some cb) (s_wheel s) = Inr (None, w)"
    "scheduled tid (UnixMilli at) (s_wheel s) w" by blast
  then show ?thesis using False by (auto simp: wheel_Schedule_def go_bind_def Schedule_cbs_exact)
qed

text \<open>What later steps of the scheduler do to its wheel.\<close>

lemma steps_wheel:
  assumes "(sched_step E)\<^sup>*\<^sup>* x y" and "sys_ok E x"
  shows "sys_ok E y \<and> wheel_step\<^sup>*\<^sup>* (UnixMilli (fst x), s_wheel (snd (snd x))) (UnixMilli (fst y), s_wheel (snd (snd y)))"
  using assms
proof (induction rule: rtranclp_induct)
  case (step y z)
  obtain n g s n' g' s' where yz: "y = (n, g, s)" "z = (n', g', s')" by (metis prod_cases3)
  have ok: "sys_ok E (n, g, s)" using step yz by simp
  then have "wheel_ok {} (s_wheel s)" using reach_ok(2) by (auto simp: sys_ok_def)
  then have "wheel_step\<^sup>*\<^sup>* (UnixMilli n, s_wheel s) (UnixMilli n', s_wheel s')"
    using sched_step_wheel [of E n g s n' g' s'] step(2) ok yz by (simp add: sys_ok_def)
  moreover have "sys_ok E (n', g', s')" using sys_ok_step [OF ok] step(2) yz by simp
  ultimately show ?case using step yz by auto
qed simp

lemma store_do_fields [simp]:
  "s_tasks (store_do f s) = s_tasks s" "s_objs (store_do f s) = s_objs s" "s_activeKeys (store_do f s) = s_activeKeys s"
  "s_successCount (store_do f s) = s_successCount s" "s_failureCount (store_do f s) = s_failureCount s"
  "s_deadCount (store_do f s) = s_deadCount s" "s_historyRetention (store_do f s) = s_historyRetention s"
  "s_ctxs (store_do f s) = s_ctxs s" "s_queue (store_do f s) = s_queue s"
  "s_storage (store_do f s) = snd (f (s_storage s))"
  by (simp_all add: store_do_def store_call_def split_beta)

lemma upd_task_fields [simp]:
  "s_tasks (upd_task r f s) = s_tasks s" "s_activeKeys (upd_task r f s) = s_activeKeys s"
  "s_successCount (upd_task r f s) = s_successCount s" "s_failureCount (upd_task r f s) = s_failureCount s"
  "s_deadCount (upd_task r f s) = s_deadCount s" "s_historyRetention (upd_task r f s) = s_historyRetention s"
  "s_storage (upd_task r f s) = s_storage s" "s_ctxs (upd_task r f s) = s_ctxs s" "s_queue (upd_task r f s) = s_queue s"
  by (simp_all add: upd_task_def)

lemma release_key_fields [simp]:
  "s_tasks (release_key k s) = s_tasks s" "s_objs (release_key k s) = s_objs s"
  "gm_get (s_activeKeys (release_key k s)) = (if k = '''' then gm_get (s_activeKeys s) else (gm_get (s_activeKeys s))(k := None))"
  "s_successCount (release_key k s) = s_successCount s" "s_failureCount (release_key k s) = s_failureCount s"
  "s_deadCount (release_key k s) = s_deadCount s" "s_historyRetention (release_key k s) = s_historyRetention s"
  "s_storage (release_key k s) = s_storage s" "s_ctxs (release_key k s) = s_ctxs s" "s_queue (release_key k s) = s_queue s"
  by (simp_all add: release_key_def fun_eq_iff)

lemma call_cancel_fields [simp]:
  "s_tasks (call_cancel c s) = s_tasks s" "s_objs (call_cancel c s) = s_objs s" "s_activeKeys (call_cancel c s) = s_activeKeys s"
  "s_successCount (call_cancel c s) = s_successCount s" "s_failureCount (call_cancel c s) = s_failureCount s"
  "s_deadCount (call_cancel c s) = s_deadCount s" "s_storage (call_cancel c s) = s_storage s"
  "s_historyRetention (call_cancel c s) = s_historyRetention s" "s_queue (call_cancel c s) = s_queue s"
  by (simp_all add: call_cancel_def split: option.split)

lemma untrack_fields [simp]:
  "gm_get (s_tasks (untrack k s)) = (gm_get (s_tasks s))(k := None)" "s_objs (untrack k s) = s_objs s"
  "s_activeKeys (untrack k s) = s_activeKeys s" "s_successCount (untrack k s) = s_successCount s"
  "s_failureCount (untrack k s) = s_failureCount s" "s_deadCount (untrack k s) = s_deadCount s"
  "s_storage (untrack k s) = s_storage s" "s_historyRetention (untrack k s) = s_historyRetention s"
  "s_queue (untrack k s) = s_queue s" "s_ctxs (untrack k s) = s_ctxs s"
  by (simp_all add: untrack_def fun_eq_iff)

lemma upd_tracked_known: "gm_get (s_tasks s) tid = Some r \<Longrightarrow> upd_tracked tid f s = upd_task r f s"
  by (simp add: upd_tracked_def)

lemma task_at_objs: "s_objs s = s_objs s' \<Longrightarrow> task_at s r = task_at s' r"
  by (simp add: task_at_def)

lemma task_at_frame [simp]:
  "task_at (store_do f s) r = task_at s r" "task_at (call_cancel c s) r = task_at s r" "task_at (untrack k s) r = task_at s r"
  "task_at (s\<lparr>s_failureCount := i\<rparr>) r = task_at s r" "task_at (s\<lparr>s_deadCount := i\<rparr>) r = task_at s r"
  "task_at (s\<lparr>s_successCount := i\<rparr>) r = task_at s r" "task_at (s\<lparr>s_wheel := w\<rparr>) r = task_at s r"
  by (simp_all add: task_at_def)

section \<open>A run that succeeds\<close>



section \<open>A run that fails\<close>

lemma fail_retry_reach:
  assumes "wheel_ok {} (s_wheel s)" and "tw_size (s_wheel s) = 256" and "tw_started (s_wheel s)" and "time_ok at"
    and "r < n_objs s" and "t = task_at s r" and "gm_get (s_tasks s) (t_id t) = Some r"
  shows "\<exists>w. fail_retry newid at r s = Inr ((snd (alloc_task (retry_task newid t)
        (upd_task r (\<lambda>x. x\<lparr>t_status := StatusRetrying\<rparr>) s)))\<lparr>s_wheel := w\<rparr>) \<and>
    (if tw_stopped (s_wheel s) then w = s_wheel s
     else scheduled (t_id t) (UnixMilli at) (s_wheel s) w \<and> tw_cbs w = tw_cbs (s_wheel s) @ [CbRetry (n_objs s)])"
proof -
  define b where "b = snd (alloc_task (retry_task newid t) (upd_task r (\<lambda>x. x\<lparr>t_status := StatusRetrying\<rparr>) s))"
  have w: "s_wheel b = s_wheel s" by (simp add: b_def)
  then have u: "b\<lparr>s_wheel := s_wheel s\<rparr> = b" by (cases b) simp
  have f: "fail_retry newid at r s = go_bind (wheel_Schedule (t_id t) at (CbRetry (n_objs s)) b) (\<lambda>(er, s3). Inr s3)"
    using assms(6,7) by (simp add: fail_retry_def Let_def upd_tracked_known b_def alloc_task_def)
  have sc: "if tw_stopped (s_wheel s) then wheel_Schedule (t_id t) at (CbRetry (n_objs s)) b = Inr (Some ErrWheelStopped, b)
    else \<exists>w. wheel_Schedule (t_id t) at (CbRetry (n_objs s)) b = Inr (None, b\<lparr>s_wheel := w\<rparr>) \<and>
      scheduled (t_id t) (UnixMilli at) (s_wheel s) w \<and> tw_cbs w = tw_cbs (s_wheel s) @ [CbRetry (n_objs s)]"
    using wheel_Schedule_reach [of b at "t_id t" "CbRetry (n_objs s)"] assms(1-4) unfolding w by blast
  show ?thesis
  proof (cases "tw_stopped (s_wheel s)")
    case True
    then have "fail_retry newid at r s = Inr (b\<lparr>s_wheel := s_wheel s\<rparr>)" using sc f by (simp add: go_bind_def u)
    then show ?thesis using True unfolding b_def by metis
  next
    case False
    then show ?thesis using sc f unfolding b_def [symmetric] by (auto simp: go_bind_def)
  qed
qed

text \<open>The eviction keeps a task that is Dead, Failed or Retrying.\<close>

lemma evict_keeps:
  "t_status (task_at s (r_task rn)) \<in> {StatusDead, StatusFailed, StatusRetrying} \<Longrightarrow>
   runTask_evict rn s = call_cancel (Some (r_ctx rn)) s"
  by (simp add: runTask_evict_def Let_def)

lemma fail_anonymous:
  assumes "gm_get (s_tasks s) (t_id (task_at s r)) = Some r" and "t_typeName (task_at s r) = ''''"
  shows "fail_dead E r s = recordHistory E r (upd_task r (\<lambda>x. x\<lparr>t_status := StatusDead\<rparr>) (s\<lparr>s_deadCount := s_deadCount s + 1\<rparr>))"
    and "fail_final E r s = recordHistory E r (upd_task r (\<lambda>x. x\<lparr>t_status := StatusFailed\<rparr>) s)"
  using assms by (simp_all add: fail_dead_def fail_final_def Let_def upd_tracked_known)

text \<open>\<open>failing_state\<close> is the state in which the outcome of a failed run is decided: the failure counted, the key free.\<close>

definition failing_state :: "string \<Rightarrow> ('job, 'rs, 'st) Scheduler \<Rightarrow> ('job, 'rs, 'st) Scheduler" where
  "failing_state k s = (release_key k s)\<lparr>s_failureCount := s_failureCount s + 1\<rparr>"

lemma failing_state_fields [simp]:
  "s_tasks (failing_state k s) = s_tasks s" "s_objs (failing_state k s) = s_objs s" "s_wheel (failing_state k s) = s_wheel s"
  "s_deadCount (failing_state k s) = s_deadCount s" "s_storage (failing_state k s) = s_storage s"
  "s_historyRetention (failing_state k s) = s_historyRetention s" "s_failureCount (failing_state k s) = s_failureCount s + 1"
  "gm_get (s_activeKeys (failing_state k s)) = (if k = '''' then gm_get (s_activeKeys s) else (gm_get (s_activeKeys s))(k := None))"
  "task_at (failing_state k s) r = task_at s r"
  by (simp_all add: failing_state_def)

lemma failed_run:
  assumes "t = task_at s (r_task rn)"
  shows "runTask_done E now newid rn True s =
    go_bind (if 0 < t_maxRetries t \<and> t_maxRetries t \<le> t_attempts t then Inr (fail_dead E (r_task rn) (failing_state (t_key t) s))
       else case retry_decision E t of
              Some d \<Rightarrow> fail_retry newid (now + d) (r_task rn) (failing_state (t_key t) s)
            | None \<Rightarrow> Inr (fail_final E (r_task rn) (failing_state (t_key t) s)))
      (\<lambda>s2. Inr (runTask_evict rn s2))"
  using assms by (simp add: runTask_done_def handleFailure_def Let_def failing_state_def split: option.split)

lemma status_at:
  "s_objs s1 = s_objs s \<Longrightarrow> r < n_objs s \<Longrightarrow>
   task_at (upd_task r (\<lambda>x. x\<lparr>t_status := a\<rparr>) s1) r = (task_at s r)\<lparr>t_status := a\<rparr>"
  by (simp add: upd_task_def task_at_def)

lemma retried_run:
  assumes "sched_reach E (now, gone, s)" and "r_task rn = r" and "r < n_objs s" and "t = task_at s r"
    and "gm_get (s_tasks s) (t_id t) = Some r" and "time_ok (now + d)"
  shows "\<exists>s'. go_bind (fail_retry newid (now + d) r (failing_state (t_key t) s)) (\<lambda>s2. Inr (runTask_evict rn s2)) = Inr s' \<and>
    s_failureCount s' = s_failureCount s + 1 \<and> s_tasks s' = s_tasks s \<and> s_deadCount s' = s_deadCount s \<and>
    s_activeKeys s' = s_activeKeys (failing_state (t_key t) s) \<and> Status (t_id t) s' = StatusRetrying \<and> s_storage s' = s_storage s \<and>
    task_at s' (n_objs s) = retry_task newid t \<and>
    (if tw_stopped (s_wheel s) then s_wheel s' = s_wheel s
     else scheduled (t_id t) (UnixMilli (now + d)) (s_wheel s) (s_wheel s') \<and>
       tw_cbs (s_wheel s') = tw_cbs (s_wheel s) @ [CbRetry (n_objs s)])"
proof -
  let ?s0 = "failing_state (t_key t) s"
  obtain v where v: "fail_retry newid (now + d) r ?s0 = Inr ((snd (alloc_task (retry_task newid t)
      (upd_task r (\<lambda>x. x\<lparr>t_status := StatusRetrying\<rparr>) ?s0)))\<lparr>s_wheel := v\<rparr>)"
    "if tw_stopped (s_wheel s) then v = s_wheel s
     else scheduled (t_id t) (UnixMilli (now + d)) (s_wheel s) v \<and> tw_cbs v = tw_cbs (s_wheel s) @ [CbRetry (n_objs s)]"
    using fail_retry_reach [of ?s0 "now + d" r t newid, unfolded failing_state_fields, OF reach_wheel(2-4) [OF assms(1)] assms(6,3,4,5)]
    by blast
  let ?s = "(snd (alloc_task (retry_task newid t) (upd_task r (\<lambda>x. x\<lparr>t_status := StatusRetrying\<rparr>) ?s0)))\<lparr>s_wheel := v\<rparr>"
  have e: "task_at ?s r = t\<lparr>t_status := StatusRetrying\<rparr>" "task_at ?s (n_objs s) = retry_task newid t"
    using assms(3,4) by (simp_all add: alloc_task_def task_at_def nth_append upd_task_def)
  have f: "s_tasks ?s = s_tasks s" "s_failureCount ?s = s_failureCount s + 1" "s_deadCount ?s = s_deadCount s"
    "s_storage ?s = s_storage s" "s_activeKeys ?s = s_activeKeys ?s0" "s_wheel ?s = v"
    by (simp_all add: alloc_task_def)
  show ?thesis using v e f(1-4,6) assms(2,5) by (simp add: go_bind_def evict_keeps Status_def) (simp add: alloc_task_def)
qed



section \<open>Cancellation\<close>

lemma wheel_Cancel_fields [simp]:
  "s_tasks (wheel_Cancel tid s) = s_tasks s" "s_objs (wheel_Cancel tid s) = s_objs s"
  "s_activeKeys (wheel_Cancel tid s) = s_activeKeys s" "s_storage (wheel_Cancel tid s) = s_storage s"
  "s_historyRetention (wheel_Cancel tid s) = s_historyRetention s" "s_ctxs (wheel_Cancel tid s) = s_ctxs s"
  "task_at (wheel_Cancel tid s) r = task_at s r" "s_failureCount (wheel_Cancel tid s) = s_failureCount s"
  by (simp_all add: wheel_Cancel_def task_at_def)

text \<open>The entry indexed under an ID is cancelled for good.\<close>

lemma Cancel_entry:
  assumes "sched_reach E (now, gone, s)" and "tid \<noteq> ''''" and "tw_entries (s_wheel s) tid = Some e"
    and "(sched_step E)\<^sup>*\<^sup>* (now, gone, snd (Cancel E tid s)) (now', gone', s')"
  shows "e \<notin> set (tw_fired (s_wheel s'))"
proof -
  note w = reach_wheel [OF assms(1)]
  let ?s1 = "snd (Cancel E tid s)"
  have "sys_ok E (now, gone, ?s1)" using sys_ok_step [OF sched_reach_ok [OF assms(1)] sched_step.cancel] .
  then have st: "wheel_step\<^sup>*\<^sup>* (UnixMilli now, s_wheel ?s1) (UnixMilli now', s_wheel s')"
    and "wheel_reach (UnixMilli now, s_wheel ?s1)" using steps_wheel [OF assms(4)] by (simp_all add: sys_ok_def)
  then have ok: "run_ok (UnixMilli now, s_wheel ?s1)" by (intro wheel_reach_run_ok)
  have e: "e < length (tw_store (s_wheel s))" "e \<notin> set (tw_fired (s_wheel s))"
    using w(2) assms(3) by (auto simp: wheel_ok_def index_ok_def)
  then have "tw_canc (TimingWheel_Cancel tid (s_wheel s)) e" using assms(2,3) by (simp add: TimingWheel_Cancel_def)
  then show ?thesis
    using e Cancel_mono [OF w(2)] cancelled_never_fires [OF st ok, of e] by (simp add: wheel_Cancel_frame step_mono_def)
qed





end
