(* ===== verification/Scheduler_Keys.thy ===== *)
theory Scheduler_Keys
  imports Scheduler_Life
begin

text \<open>
  The overlap keys: which operations take a key, which give one back, and that a key in use keeps every
  other task with this key out.
\<close>

section \<open>How the operations change the keys\<close>

definition keys :: "('job, 'rs, 'st) Scheduler \<Rightarrow> string set" where
  "keys s = dom (gm_get (s_activeKeys s))"

lemma keys_frame [simp]:
  "keys (upd_task r f s) = keys s" "keys (track r s) = keys s" "keys (untrack k s) = keys s"
  "keys (push_queue r s) = keys s" "keys (call_cancel c s) = keys s" "keys (upd_tracked k f s) = keys s"
  "keys (snd (alloc_task t s)) = keys s" "keys (snd (new_ctx s)) = keys s"
  "keys (snd (store_call g s)) = keys s" "keys (store_do g s) = keys s" "keys (recordHistory E r s) = keys s"
  "keys (wheel_Cancel tid s) = keys s" "keys (set_worker i w s) = keys s"
  by (auto simp: keys_def upd_task_def track_def untrack_def push_queue_def call_cancel_def wheel_Cancel_def
    set_worker_def upd_tracked_def alloc_task_def new_ctx_def store_call_def store_do_def recordHistory_def
    split: option.splits prod.splits)

lemma keys_fields [simp]:
  "keys (s\<lparr>s_failureCount := i\<rparr>) = keys s" "keys (s\<lparr>s_deadCount := i\<rparr>) = keys s" "keys (s\<lparr>s_successCount := i\<rparr>) = keys s"
  "keys (s\<lparr>s_storage := st\<rparr>) = keys s" "keys (s\<lparr>s_registry := m\<rparr>) = keys s" "keys (s\<lparr>s_middlewares := mw\<rparr>) = keys s"
  "keys (s\<lparr>s_paused := p\<rparr>) = keys s" "keys (s\<lparr>s_queue := q, s_queueSize := i\<rparr>) = keys s"
  "keys (s\<lparr>s_wheel := w\<rparr>) = keys s" "keys (s\<lparr>s_dispatch := d\<rparr>) = keys s" "keys (s\<lparr>s_poolQueues := pq\<rparr>) = keys s"
  "keys (s\<lparr>s_poolWorkers := pw\<rparr>) = keys s" "keys (s\<lparr>s_poolControl := pc\<rparr>) = keys s"
  "keys (s\<lparr>s_currentWorkers := i\<rparr>) = keys s" "keys (s\<lparr>s_workers := ws\<rparr>) = keys s"
  "keys (s\<lparr>s_stopped := p\<rparr>) = keys s" "keys (s\<lparr>s_stop := p\<rparr>) = keys s"
  by (simp_all add: keys_def)

lemma keys_release: "keys (release_key k s) = (if k = '''' then keys s else keys s - {k})"
  by (auto simp: keys_def split: if_splits)

lemma keys_admit: "keys s \<subseteq> keys (submit_admit r s)"
  by (auto simp: submit_admit_def Let_def keys_def)

lemma keys_Submit: "keys s \<subseteq> keys (snd (Submit E r s))"
proof -
  have "keys (snd (submit_link r x)) = keys x" for x :: "('a, 'b, 'c) Scheduler"
    by (simp add: submit_link_def Let_def split: option.split)
  moreover have "keys (snd (submit_persist E r x)) = keys x" for x :: "('a, 'b, 'c) Scheduler"
    by (simp add: submit_persist_def submit_enqueue_def Let_def prod.case_eq_if split: option.split)
  ultimately show ?thesis using keys_admit [of s r] by (simp add: Submit_def prod.case_eq_if split: option.split)
qed

lemma keys_fold: "(\<And>x s. keys s \<subseteq> keys (f x s)) \<Longrightarrow> keys s \<subseteq> keys (fold f xs s)"
proof (induction xs arbitrary: s)
  case (Cons x xs)
  then have "keys s \<subseteq> keys (f x s)" "keys (f x s) \<subseteq> keys (fold f xs (f x s))" by blast+
  then show ?case by simp
qed simp

lemma keys_resolve: "keys s \<subseteq> keys (resolveWorkflow E tid st s)"
proof -
  have "keys s \<subseteq> keys (submit_ready E x s)" for x and s :: "('a, 'b, 'c) Scheduler"
    using keys_Submit [of "snd (alloc_task _ s)"] by (fastforce simp: submit_ready_def prod.case_eq_if split: option.split)
  then show ?thesis
    using keys_fold [of "submit_ready E" "snd (store_call (st_ResolveDependencies (env_storage E) tid st) s)"]
    by (simp add: resolveWorkflow_def prod.case_eq_if split: sum.split)
qed

lemma keys_resolve_le: "A \<subseteq> keys s \<Longrightarrow> A \<subseteq> keys (resolveWorkflow E tid st s)"
  using keys_resolve by blast

lemma keys_outcomes:
  "keys s \<subseteq> keys (fail_dead E r s)" "keys s \<subseteq> keys (fail_final E r s)" "keys s \<subseteq> keys (finish_success E r s)"
  "keys s \<subseteq> keys (finish_cancelled E r s)" "keys (runTask_evict rn s) = keys s"
  by (auto simp: fail_dead_def fail_final_def finish_success_def finish_cancelled_def runTask_evict_def Let_def
    dest: keys_resolve_le [THEN subsetD, rotated, OF _ subset_refl] intro!: keys_resolve_le [THEN subsetD])

lemma keys_wheel_Schedule: "wheel_Schedule tid at cb s = Inr (er, s1) \<Longrightarrow> keys s1 = keys s"
  by (auto simp: wheel_Schedule_def go_bind_def split: sum.splits)

lemma keys_failure: "handleFailure E now newid r s = Inr s1 \<Longrightarrow> keys s \<subseteq> keys s1"
  using keys_outcomes(1,2) [of "s\<lparr>s_failureCount := s_failureCount s + 1\<rparr>", THEN subsetD]
  by (auto simp: handleFailure_def fail_retry_def Let_def go_bind_def prod.case_eq_if dest!: keys_wheel_Schedule
    split: if_splits option.splits sum.splits)

lemma keys_run_ends:
  "runTask_done E now newid rn failed s = Inr s1 \<Longrightarrow> keys s - {t_key (task_at s (r_task rn))} \<subseteq> keys s1"
  "runTask_ctxDone E now newid rn canceled s = Inr s1 \<Longrightarrow> keys s - {t_key (task_at s (r_task rn))} \<subseteq> keys s1"
proof -
  let ?k = "t_key (task_at s (r_task rn))"
  have d: "keys s - {?k} \<subseteq> keys (release_key ?k s)" by (auto simp: keys_release)
  show "keys s - {?k} \<subseteq> keys s1" if "runTask_done E now newid rn failed s = Inr s1"
    using that keys_failure [of E now newid "r_task rn" "release_key ?k s"] keys_outcomes(3) [of "release_key ?k s" E "r_task rn"] d
    by (force simp: runTask_done_def Let_def go_bind_def keys_outcomes(5) split: if_splits sum.splits)
  show "keys s - {?k} \<subseteq> keys s1" if c: "runTask_ctxDone E now newid rn canceled s = Inr s1"
  proof -
    obtain st s2 where "runTask_evict rn s2 = s1"
      and s2: "s2 = finish_cancelled E (r_task rn) (upd_task (r_task rn) (\<lambda>x. x\<lparr>t_status := st\<rparr>) (release_key ?k s)) \<or>
        handleFailure E now newid (r_task rn) (upd_task (r_task rn) (\<lambda>x. x\<lparr>t_status := st\<rparr>) (release_key ?k s)) = Inr s2"
      using c by (auto simp: runTask_ctxDone_def Let_def go_bind_def split: if_splits sum.splits)
    then have "keys s1 = keys s2" using keys_outcomes(5) by metis
    moreover have "keys (release_key ?k s) \<subseteq> keys s2"
      using s2 keys_failure keys_outcomes(4) by (metis keys_frame(1))
    ultimately show ?thesis using d by blast
  qed
qed

lemma keys_schedule: "schedule_wheel r at cb s = Inr (res, s1) \<Longrightarrow> keys s1 = keys s" "keys (schedule_track r s) = keys s"
  by (auto simp: schedule_wheel_def go_bind_def schedule_track_def prod.case_eq_if dest!: keys_wheel_Schedule split: sum.splits)

lemma keys_callback: "run_callback E now newid cb s = Inr s1 \<Longrightarrow> keys s \<subseteq> keys s1"
proof -
  have c: "keys s \<subseteq> keys (submit_child E newid r s)" for r
    using keys_Submit [of "snd (alloc_task _ s)"] by (fastforce simp: submit_child_def prod.case_eq_if)
  assume "run_callback E now newid cb s = Inr s1"
  then show ?thesis
    using c [THEN subsetD] keys_Submit [of s E, THEN subsetD]
    by (cases cb) (auto simp: Let_def go_bind_def dest!: keys_wheel_Schedule split: if_splits sum.splits)
qed

lemma keys_loops [simp]:
  "keys (spawnWorkersForPoolLocked p n s) = keys s" "keys (snd (pop_queue s)) = keys s"
  "keys (snd (dequeue_storage E s)) = keys s" "keys (snd (runTask_start E r s)) = keys s" "keys (load_one E pt s) = keys s"
  by (simp_all add: pop_queue_def spawnWorkersForPoolLocked_def dequeue_storage_def runTask_start_def load_one_def
    Let_def prod.case_eq_if split: sum.split bool.split option.split prod.split)

lemma keys_fold_load [simp]: "keys (fold (load_one E) pts s) = keys s"
  by (induction pts arbitrary: s) simp_all

lemma keys_background [simp]:
  "keys (loadTasks E s) = keys s" "keys (dispatchTask r s) = keys s" "keys (ScalePool p n s) = keys s"
  by (simp_all add: loadTasks_def dispatchTask_def ScalePool_def Let_def prod.case_eq_if split: sum.split option.split)

lemma keys_dequeue [simp]: "keys (dequeue_round E s) = keys s"
  by (simp add: dequeue_round_def prod.case_eq_if split: option.split)

lemma keys_recv: "chan_recv p s = Some (r, s1) \<Longrightarrow> keys s1 = keys s"
  by (auto simp: chan_recv_def split: option.splits list.splits if_splits)

lemma keys_worker:
  "worker_take E i s = Some s1 \<Longrightarrow> keys s1 = keys s" "worker_control i s = Some s1 \<Longrightarrow> keys s1 = keys s"
  "dispatch_send s = Some s1 \<Longrightarrow> keys s1 = keys s"
  by (auto simp: worker_take_def worker_control_def dispatch_send_def Let_def prod.case_eq_if dest: keys_recv
    split: option.splits if_splits nat.splits)

lemma keys_fold_cancel [simp]: "keys (fold (\<lambda>(tid, r) s. call_cancel (t_cancel (task_at s r)) s) xs s) = keys s"
  by (induction xs arbitrary: s) auto

lemma keys_ShutDown [simp]: "keys (ShutDown s) = keys s"
  by (simp add: ShutDown_def Let_def)

lemma keys_Cancel:
  "keys s - (case gm_get (s_tasks s) tid of Some r \<Rightarrow> {t_key (task_at s r)} | None \<Rightarrow> {}) \<subseteq> keys (snd (Cancel E tid s))"
proof -
  have m: "keys (snd (cancel_mark tid s)) = keys s"
    by (simp add: cancel_mark_def Let_def split: option.split)
  have f: "keys x - {t_key (task_at x r)} \<subseteq> keys (cancel_finalize E tid r x)" for r and x :: "('a, 'b, 'c) Scheduler"
    by (auto simp: cancel_finalize_def Let_def keys_release intro!: keys_resolve_le [THEN subsetD])
  let ?m = "cancel_mark tid s"
  let ?s2 = "store_do (st_MarkCancelled (env_storage E) tid) (store_do (st_UnscheduleDelayed (env_storage E) tid) (wheel_Cancel tid (snd ?m)))"
  show ?thesis
  proof (cases "fst ?m = Some True")
    case True
    then obtain r where r: "gm_get (s_tasks s) tid = Some r" by (auto simp: cancel_mark_def split: option.splits)
    then have "t_key (task_at ?s2 r) = t_key (task_at s r)"
      by (cases "r < n_objs s") (simp_all add: cancel_mark_def Let_def task_at_upd upd_task_out)
    moreover have "keys ?s2 = keys s" using m by simp
    moreover have "keys (snd (Cancel E tid s)) = keys (cancel_finalize E tid r ?s2)"
      using True r by (simp add: Cancel_def Let_def prod.case_eq_if)
    ultimately show ?thesis using f [of ?s2 r] r by simp
  next
    case False
    then have "keys (snd (Cancel E tid s)) = keys s"
      using m by (auto simp: Cancel_def Let_def prod.case_eq_if split: option.split)
    then show ?thesis by blast
  qed
qed

section \<open>Keys keep tasks apart\<close>

lemma keys_worker_ends:
  assumes "calm s s1" and "i < length (s_workers s)" and "w_state (s_workers s ! i) = WRunning b rn" and "k \<in> keys s"
    and "keys s - {t_key (task_at s (r_task rn))} \<subseteq> keys s1" and "s' = set_worker i (WIdle b) s1"
  shows "k \<in> keys s' \<or> (\<exists>i b rn. i < length (s_workers s) \<and> w_state (s_workers s ! i) = WRunning b rn \<and>
      t_key (task_at s (r_task rn)) = k \<and> w_state (s_workers s' ! i) = WIdle b)"
proof (cases "t_key (task_at s (r_task rn)) = k")
  case True
  have "s_workers s1 = s_workers s" using assms(1) by (simp add: calm_def pv_def)
  then have "w_state (s_workers s' ! i) = WIdle b" using assms(2,6) by (simp add: set_worker_def)
  then show ?thesis using True assms(2,3) by blast
qed (use assms in auto)

lemma keys_step:
  assumes "sched_step E (now, gone, s) (now', gone', s')" and "k \<in> keys s"
  shows "k \<in> keys s' \<or>
    (\<exists>i b rn. i < length (s_workers s) \<and> w_state (s_workers s ! i) = WRunning b rn \<and>
      t_key (task_at s (r_task rn)) = k \<and> w_state (s_workers s' ! i) = WIdle b) \<or>
    (\<exists>tid r. gm_get (s_tasks s) tid = Some r \<and> t_key (task_at s r) = k \<and> s' = snd (Cancel E tid s))"
  using assms(1)
proof cases
  case (submit r)
  then show ?thesis using assms(2) keys_Submit by blast
next
  case (cancel tid)
  show ?thesis
  proof (cases "gm_get (s_tasks s) tid")
    case None
    then show ?thesis using cancel assms(2) keys_Cancel [of s tid E] by auto
  next
    case (Some r)
    then show ?thesis using cancel assms(2) keys_Cancel [of s tid E] by (cases "t_key (task_at s r) = k") auto
  qed
next
  case (callback e newid)
  then show ?thesis using assms(2) keys_callback by blast
next
  case (finish i b rn newid failed s1)
  then show ?thesis using keys_worker_ends [OF calm_done [OF finish(7)] _ _ assms(2) keys_run_ends(1) [OF finish(7)]] by blast
next
  case (ctx_done i b rn canceled newid s1)
  then show ?thesis using keys_worker_ends [OF calm_ctxDone [OF ctx_done(8)] _ _ assms(2) keys_run_ends(2) [OF ctx_done(8)]] by blast
qed (use assms(2) in \<open>auto simp: RegisterJob_def Use_def ScheduleOnceTask_def ScheduleRecurringTask_def ScheduleCronTask_def
    onCancel_def Resubmit_def cleanup_tick_def recovery_tick_def worker_start_def ReportProgress_def heartbeat_def
    Pause_def Resume_def Let_def prod.case_eq_if keys_schedule dest!: keys_schedule(1) keys_worker
    split: if_splits option.splits\<close>)



end
