(* ===== verification/Scheduler_Admin.thy ===== *)
theory Scheduler_Admin
  imports Scheduler_Keys
begin

text \<open>
  Operating the scheduler: pause and resume, resubmission from the dead letter queue, scaling a pool and
  shutdown.
\<close>

section \<open>Resubmission\<close>

text \<open>
  C23. \<open>Resubmit\<close> on every branch: an unknown ID and a task that is neither Dead nor Failed are errors
  that change nothing; otherwise the task is queued once more with no attempts counted, still tracked
  under its ID, and \<open>deadCount\<close> drops by one exactly when it was Dead.
\<close>

theorem resubmit_branches:
  assumes "sched_reach E (now, gone, s)"
  shows "case gm_get (s_tasks s) tid of
      None \<Rightarrow> Resubmit tid s = (Some (ErrTaskNotFound tid), s)
    | Some r \<Rightarrow> (if t_status (task_at s r) \<notin> {StatusDead, StatusFailed} then Resubmit tid s = (Some (ErrTaskNotFailed tid), s)
        else \<exists>s'. Resubmit tid s = (None, s') \<and> Status tid s' = StatusQueued \<and>
          task_at s' r = (task_at s r)\<lparr>t_attempts := 0, t_status := StatusQueued\<rparr> \<and> s_tasks s' = s_tasks s \<and>
          mset (s_queue s') = add_mset r (mset (s_queue s)) \<and> s_queueSize s' = s_queueSize s + 1 \<and>
          s_deadCount s' = s_deadCount s - (if t_status (task_at s r) = StatusDead then 1 else 0))"
proof (cases "gm_get (s_tasks s) tid")
  case (Some r)
  let ?f = "\<lambda>t. t\<lparr>t_attempts := 0, t_status := StatusQueued\<rparr>"
  let ?d = "if t_status (task_at s r) = StatusDead then s\<lparr>s_deadCount := s_deadCount s - 1\<rparr> else s"
  let ?s = "upd_task r ?f ?d"
  have r: "r < n_objs s" using tracked_ref [OF reach_core [OF assms] Some] by simp
  have at: "task_at ?s r = ?f (task_at s r)" using r by (simp add: task_at_upd)
  have "core_ok ?s" using reach_core [OF assms] by auto
  then have o: "tq.ordered (prio ?s) (s_queue ?s)" by (simp add: core_ok_def)
  have q: "mset (s_queue (push_queue r ?s)) = add_mset r (mset (s_queue s))"
    using taskHeap_Push(2) [OF o, of r] by (simp add: push_queue_def)
  have p: "Status tid (push_queue r ?s) = StatusQueued" "task_at (push_queue r ?s) r = ?f (task_at s r)"
    "s_tasks (push_queue r ?s) = s_tasks s" "s_queueSize (push_queue r ?s) = s_queueSize s + 1"
    "s_deadCount (push_queue r ?s) = s_deadCount s - (if t_status (task_at s r) = StatusDead then 1 else 0)"
    using Some r by (simp_all add: Status_def push_queue_def task_at_def upd_task_def)
  show ?thesis using Some p q by (auto simp: Resubmit_def Let_def)
qed (simp add: Resubmit_def)

text \<open>A run for the witness: the task with no retry strategy fails.\<close>

definition demo_started2 :: demo_sched where
  "demo_started2 = worker_start 0 (dequeue_round demo_env demo_queued1)"

definition demo_running2 :: demo_sched where
  "demo_running2 = the (worker_take demo_env 0 demo_started2)"

definition demo_run2 :: run where
  "demo_run2 = \<lparr>r_task = 0, r_ctx = 0, r_delay = 0\<rparr>"

definition demo_failed2 :: demo_sched where
  "demo_failed2 = set_worker 0 (WIdle True) (projr (runTask_done demo_env demo_now ''x'' demo_run2 True demo_running2))"

lemma demo_started2_reach: "sched_reach demo_env (demo_now, {}, demo_started2)"
  unfolding demo_started2_def
proof (rule sched_reach.step [OF sched_reach.step [OF demo_queued1_reach sched_step.dequeue] sched_step.start_worker])
  show "s_dispatch demo_queued1 = None" "\<not> s_stop demo_queued1" by code_simp+
  show "0 < length (s_workers (dequeue_round demo_env demo_queued1))"
    "w_state (s_workers (dequeue_round demo_env demo_queued1) ! 0) = WStarting" by code_simp+
qed

lemma demo_running2_reach: "sched_reach demo_env (demo_now, {}, demo_running2)"
proof (rule sched_reach.step [OF demo_started2_reach], rule sched_step.take)
  show "0 < length (s_workers demo_started2)" "w_state (s_workers demo_started2 ! 0) = WIdle True" by code_simp+
  have "\<not> Option.is_none (worker_take demo_env 0 demo_started2)" by code_simp
  then show "worker_take demo_env 0 demo_started2 = Some demo_running2"
    by (auto simp: demo_running2_def Option.is_none_def)
qed

lemma demo_failed2_reach: "sched_reach demo_env (demo_now, {}, demo_failed2)"
  unfolding demo_failed2_def
proof (rule sched_reach.step [OF demo_running2_reach], rule sched_step.finish)
  show "0 < length (s_workers demo_running2)" "w_state (s_workers demo_running2 ! 0) = WRunning True demo_run2" by code_simp+
  have "retry_decision demo_env (task_at demo_running2 (r_task demo_run2)) = None" by code_simp
  then show "retry_ok demo_env (task_at demo_running2 (r_task demo_run2))" by (simp add: retry_ok_def)
  have "\<not> isl (runTask_done demo_env demo_now ''x'' demo_run2 True demo_running2)" by code_simp
  then show "runTask_done demo_env demo_now ''x'' demo_run2 True demo_running2 =
      Inr (projr (runTask_done demo_env demo_now ''x'' demo_run2 True demo_running2))" by simp
qed

theorem resubmit_branches_witness:
  "Status ''t2'' demo_failed2 = StatusFailed \<and> (\<exists>s'. Resubmit ''t2'' demo_failed2 = (None, s') \<and> Status ''t2'' s' = StatusQueued)"
proof -
  have f: "gm_get (s_tasks demo_failed2) ''t2'' = Some 0" "t_status (task_at demo_failed2 0) = StatusFailed" by code_simp+
  then show ?thesis using resubmit_branches [OF demo_failed2_reach, of "''t2''"] by (auto simp: Status_def)
qed

section \<open>Pause\<close>

lemma fold_cancel_frame [simp]:
  "s_dispatch (fold (\<lambda>(tid, r) s. call_cancel (t_cancel (task_at s r)) s) xs s) = s_dispatch s"
  "s_stopped (fold (\<lambda>(tid, r) s. call_cancel (t_cancel (task_at s r)) s) xs s) = s_stopped s"
  "s_tasks (fold (\<lambda>(tid, r) s. call_cancel (t_cancel (task_at s r)) s) xs s) = s_tasks s"
  "s_objs (fold (\<lambda>(tid, r) s. call_cancel (t_cancel (task_at s r)) s) xs s) = s_objs s"
  by (induction xs arbitrary: s) (auto simp: call_cancel_def split: option.splits)

lemma dispatch_calm: "calm s s' \<Longrightarrow> s_dispatch s' = s_dispatch s"
  by (simp add: calm_def pv_def)

text \<open>Every step but a round of the dequeue loop leaves the dispatch slot alone or empties it.\<close>

lemma dispatch_step:
  assumes "sched_step E (now, gone, s) (now', gone', s')" and "s_paused s"
  shows "s_dispatch s' \<in> {s_dispatch s, None}"
  using assms(1)
proof cases
  case (once r at res)
  then show ?thesis by (auto simp: ScheduleOnceTask_def dest!: calm_schedule [THEN dispatch_calm] split: if_splits)
next
  case (recurring r iv res)
  then show ?thesis by (auto simp: ScheduleRecurringTask_def dest!: calm_schedule [THEN dispatch_calm] split: if_splits)
next
  case (cron r spec res)
  then show ?thesis by (auto simp: ScheduleCronTask_def Let_def dest!: calm_schedule [THEN dispatch_calm] split: if_splits)
next
  case (cancel tid)
  then show ?thesis using dispatch_calm [OF calm_Cancel] by auto
next
  case (callback e newid)
  then show ?thesis by (auto dest!: calm_callback [THEN dispatch_calm])
next
  case (dequeue)
  then show ?thesis using assms(2) by (simp add: dequeue_round_def)
next
  case (send)
  then show ?thesis by (auto simp: dispatch_send_def split: option.splits if_splits)
next
  case (take i)
  have "chan_recv p s = Some (r, s1) \<Longrightarrow> s_dispatch s1 \<in> {s_dispatch s, None}" for p r s1
    by (auto simp: chan_recv_def split: option.splits list.splits if_splits)
  then show ?thesis using take
    by (fastforce simp: worker_take_def Let_def prod.case_eq_if set_worker_def split: option.splits)
next
  case (finish i b rn newid failed s1)
  then show ?thesis by (auto simp: set_worker_def dest!: calm_done [THEN dispatch_calm])
next
  case (ctx_done i b rn canceled newid s1)
  then show ?thesis by (auto simp: set_worker_def dest!: calm_ctxDone [THEN dispatch_calm])
next
  case (shutdown)
  then show ?thesis by (simp add: ShutDown_def Let_def)
qed (auto simp: RegisterJob_def Use_def cleanup_tick_def worker_start_def set_worker_def Pause_def Resume_def
    worker_control_def ScalePool_def spawnWorkersForPoolLocked_def Let_def split: option.splits nat.splits)

text \<open>
  While the scheduler is paused no task is handed to a pool: whatever step is taken, the dequeue
  loop's dispatch slot keeps its task or becomes empty.
\<close>

theorem pause_stops_dispatch:
  assumes "sched_step E (now, gone, s) (now', gone', s')" and "IsPaused s"
  shows "s_dispatch s' = s_dispatch s \<or> s_dispatch s' = None"
  using dispatch_step [OF assms(1)] assms(2) by (auto simp: IsPaused_def)

theorem pause_stops_dispatch_witness:
  "s_queue (Pause demo_queued) \<noteq> [] \<and> s_dispatch (dequeue_round demo_env (Pause demo_queued)) = None"
proof -
  have f: "s_dispatch (Pause demo_queued) = None" "\<not> s_stop (Pause demo_queued)" "IsPaused (Pause demo_queued)"
    "s_queue (Pause demo_queued) = [1, 0]" by code_simp+
  show ?thesis using pause_stops_dispatch [OF sched_step.dequeue [OF f(1,2)] f(3)] f(1,4) by simp
qed

section \<open>Shutdown\<close>

text \<open>What the steps never change: the configuration, and the count of panics.\<close>

definition cfg :: "('job, 'rs, 'st) Scheduler \<Rightarrow> bool \<times> int \<times> int \<times> 'rs option \<times> string \<times> int \<times> int \<times> int" where
  "cfg s = (s_stopped s, s_maxQueueSize s, s_defaultTimeout s, s_retryStrategy s, s_instanceID s, s_leaseDuration s,
     s_historyRetention s, s_panicCount s)"

lemma cfg_frame [simp]:
  "cfg (upd_task r f s) = cfg s" "cfg (track r s) = cfg s" "cfg (untrack k s) = cfg s" "cfg (push_queue r s) = cfg s"
  "cfg (call_cancel c s) = cfg s" "cfg (upd_tracked k f s) = cfg s" "cfg (release_key k s) = cfg s"
  "cfg (snd (alloc_task t s)) = cfg s" "cfg (snd (new_ctx s)) = cfg s" "cfg (snd (store_call g s)) = cfg s"
  "cfg (store_do g s) = cfg s" "cfg (recordHistory E r s) = cfg s" "cfg (wheel_Cancel tid s) = cfg s"
  "cfg (set_worker i w s) = cfg s" "cfg (submit_admit r s) = cfg s"
  by (auto simp: cfg_def upd_task_def track_def untrack_def push_queue_def call_cancel_def wheel_Cancel_def release_key_def
    set_worker_def upd_tracked_def alloc_task_def new_ctx_def store_call_def store_do_def recordHistory_def submit_admit_def Let_def
    split: option.splits prod.splits)

lemma cfg_fields [simp]:
  "cfg (s\<lparr>s_failureCount := i\<rparr>) = cfg s" "cfg (s\<lparr>s_deadCount := i\<rparr>) = cfg s" "cfg (s\<lparr>s_successCount := i\<rparr>) = cfg s"
  "cfg (s\<lparr>s_storage := st\<rparr>) = cfg s" "cfg (s\<lparr>s_registry := m\<rparr>) = cfg s" "cfg (s\<lparr>s_middlewares := mw\<rparr>) = cfg s"
  "cfg (s\<lparr>s_paused := p\<rparr>) = cfg s" "cfg (s\<lparr>s_queue := q, s_queueSize := i\<rparr>) = cfg s" "cfg (s\<lparr>s_wheel := w\<rparr>) = cfg s"
  "cfg (s\<lparr>s_dispatch := d\<rparr>) = cfg s" "cfg (s\<lparr>s_poolQueues := pq\<rparr>) = cfg s" "cfg (s\<lparr>s_poolWorkers := pw\<rparr>) = cfg s"
  "cfg (s\<lparr>s_poolControl := pc\<rparr>) = cfg s" "cfg (s\<lparr>s_currentWorkers := i\<rparr>) = cfg s" "cfg (s\<lparr>s_workers := ws\<rparr>) = cfg s"
  by (simp_all add: cfg_def)

lemma cfg_submit [simp]: "cfg (snd (submit_link r s)) = cfg s" "cfg (snd (submit_persist E r s)) = cfg s"
  by (simp_all add: submit_link_def submit_persist_def submit_enqueue_def Let_def prod.case_eq_if split: option.split)

lemma cfg_Submit [simp]: "cfg (snd (Submit E r s)) = cfg s"
  by (simp add: Submit_def prod.case_eq_if split: option.split)

lemma cfg_fold: "(\<And>x s. cfg (f x s) = cfg s) \<Longrightarrow> cfg (fold f xs s) = cfg s"
  by (induction xs arbitrary: s) simp_all

lemma cfg_ready [simp]: "cfg (submit_ready E x s) = cfg s" "cfg (submit_child E newid r s) = cfg s" "cfg (load_one E pt s) = cfg s"
  by (simp_all add: submit_ready_def submit_child_def load_one_def prod.case_eq_if split: option.split sum.split bool.split)

lemma cfg_resolve [simp]: "cfg (resolveWorkflow E tid st s) = cfg s" "cfg (loadTasks E s) = cfg s"
  by (simp_all add: resolveWorkflow_def loadTasks_def cfg_fold prod.case_eq_if split: sum.split)

lemma cfg_wheel_Schedule: "wheel_Schedule tid at cb s = Inr (er, s1) \<Longrightarrow> cfg s1 = cfg s"
  by (auto simp: wheel_Schedule_def go_bind_def split: sum.splits)

lemma cfg_failure: "handleFailure E now newid r s = Inr s1 \<Longrightarrow> cfg s1 = cfg s"
  by (auto simp: handleFailure_def fail_retry_def fail_dead_def fail_final_def Let_def go_bind_def prod.case_eq_if
    dest!: cfg_wheel_Schedule split: if_splits option.splits sum.splits)

lemma cfg_run_ends:
  "runTask_done E now newid rn failed s = Inr s1 \<Longrightarrow> cfg s1 = cfg s"
  "runTask_ctxDone E now newid rn canceled s = Inr s1 \<Longrightarrow> cfg s1 = cfg s"
  by (auto simp: runTask_done_def runTask_ctxDone_def runTask_evict_def finish_success_def finish_cancelled_def
    Let_def go_bind_def dest!: cfg_failure split: if_splits sum.splits)

lemma cfg_schedule: "schedule_wheel r at cb (schedule_track r s) = Inr (res, s1) \<Longrightarrow> cfg s1 = cfg s"
  by (auto simp: schedule_wheel_def go_bind_def schedule_track_def prod.case_eq_if dest!: cfg_wheel_Schedule split: sum.splits)

lemma cfg_callback: "run_callback E now newid cb s = Inr s1 \<Longrightarrow> cfg s1 = cfg s"
  by (cases cb) (auto simp: Let_def go_bind_def dest!: cfg_wheel_Schedule split: if_splits sum.splits)

lemma cfg_loops [simp]:
  "cfg (spawnWorkersForPoolLocked p n s) = cfg s" "cfg (snd (pop_queue s)) = cfg s"
  "cfg (snd (dequeue_storage E s)) = cfg s" "cfg (snd (runTask_start E r s)) = cfg s"
  by (simp_all add: pop_queue_def spawnWorkersForPoolLocked_def dequeue_storage_def runTask_start_def
    Let_def prod.case_eq_if split: sum.split bool.split option.split prod.split)

lemma cfg_pools [simp]: "cfg (dispatchTask r s) = cfg s" "cfg (ScalePool p n s) = cfg s"
  by (simp_all add: dispatchTask_def ScalePool_def Let_def split: option.split)

lemma cfg_dequeue [simp]: "cfg (dequeue_round E s) = cfg s"
  by (simp add: dequeue_round_def prod.case_eq_if split: option.split)

lemma cfg_worker:
  "chan_recv p s = Some (r, s1) \<Longrightarrow> cfg s1 = cfg s" "worker_control i s = Some s1 \<Longrightarrow> cfg s1 = cfg s"
  "dispatch_send s = Some s1 \<Longrightarrow> cfg s1 = cfg s"
  by (auto simp: chan_recv_def worker_control_def dispatch_send_def Let_def
    split: option.splits if_splits nat.splits list.splits)

lemma cfg_take: "worker_take E i s = Some s1 \<Longrightarrow> cfg s1 = cfg s"
  by (auto simp: worker_take_def Let_def prod.case_eq_if dest!: cfg_worker(1) split: option.splits)

lemma cfg_Cancel [simp]: "cfg (snd (Cancel E tid s)) = cfg s"
proof -
  have "cfg (snd (cancel_mark tid s)) = cfg s" by (simp add: cancel_mark_def Let_def split: option.split)
  then show ?thesis by (simp add: Cancel_def cancel_finalize_def Let_def prod.case_eq_if split: option.split)
qed

lemma cfg_step:
  assumes "sched_step E (now, gone, s) (now', gone', s')"
  shows "cfg s' = cfg s \<or> s' = ShutDown s"
  using assms
  by cases (auto simp: RegisterJob_def Use_def ScheduleOnceTask_def ScheduleRecurringTask_def ScheduleCronTask_def
    onCancel_def Resubmit_def cleanup_tick_def recovery_tick_def worker_start_def ReportProgress_def heartbeat_def
    Pause_def Resume_def Let_def prod.case_eq_if dest!: cfg_schedule cfg_callback cfg_run_ends cfg_take cfg_worker(2,3)
    split: if_splits option.splits)

lemma cancel_all_panics [simp]:
  "s_panicCount (fold (\<lambda>(tid, r) s. call_cancel (t_cancel (task_at s r)) s) xs s) = s_panicCount s"
  by (induction xs arbitrary: s) (simp_all add: split_beta call_cancel_def split: option.split)

lemma ShutDown_panics: "s_panicCount (ShutDown s) = s_panicCount s"
  by (simp add: ShutDown_def Let_def)

lemma apply_opts_panics [simp]: "s_panicCount (fold apply_opt opts s) = s_panicCount s"
proof (induction opts arbitrary: s)
  case (Cons opt opts)
  then show ?case by (cases opt) (simp_all add: option_defs)
qed simp

text \<open>No step counts a panic.\<close>

lemma no_panic_counted:
  assumes "sched_reach E x"
  shows "s_panicCount (snd (snd x)) = 0"
  using assms
proof induction
  case (new now st opts newid s)
  let ?s = "fold apply_opt opts (new_scheduler newid st)"
  have f: "s_panicCount ?s = 0" by simp (simp add: new_scheduler_def)
  obtain w where w: "s = spawn_all (default_pool (loadTasks E (?s\<lparr>s_wheel := w\<rparr>)))"
    using new(5) by (auto simp: New_def fold_map_id go_bind_def Let_def split: sum.splits)
  have "cfg s = cfg ?s" by (simp add: w spawn_all_def default_pool_def cfg_fold split_beta split: option.split)
  then show ?case using f by (simp add: cfg_def)
next
  case (step x y)
  then show ?case
    using cfg_step [of E "fst x" "fst (snd x)" "snd (snd x)" "fst y" "fst (snd y)" "snd (snd y)"]
    by (auto simp: cfg_def ShutDown_panics)
qed

lemma stopped_steps:
  assumes "(sched_step E)\<^sup>*\<^sup>* x y" and "s_stopped (snd (snd x))"
  shows "s_stopped (snd (snd y))"
  using assms
proof (induction rule: rtranclp_induct)
  case (step y z)
  then show ?case
    using cfg_step [of E "fst y" "fst (snd y)" "snd (snd y)" "fst z" "fst (snd z)" "snd (snd z)"]
    by (auto simp: cfg_def ShutDown_def Let_def)
qed

lemma fold_cancel_ctxs:
  assumes "c < length (s_ctxs s)" and "s_ctxs s ! c \<or> (\<exists>tid r. (tid, r) \<in> set xs \<and> t_cancel (task_at s r) = Some c)"
  shows "s_ctxs (fold (\<lambda>(tid, r) s. call_cancel (t_cancel (task_at s r)) s) xs s) ! c"
  using assms
proof (induction xs arbitrary: s)
  case (Cons x xs)
  obtain tid r where x: "x = (tid, r)" by (cases x)
  let ?s = "call_cancel (t_cancel (task_at s r)) s"
  have u: "(s_ctxs s)[a := True] ! c \<longleftrightarrow> s_ctxs s ! c \<or> a = c" for a using Cons.prems(1) by (cases "a = c") simp_all
  have l: "length (s_ctxs ?s) = length (s_ctxs s)" by (simp add: call_cancel_def split: option.split)
  have "s_ctxs ?s ! c \<or> (\<exists>tid r. (tid, r) \<in> set xs \<and> t_cancel (task_at ?s r) = Some c)"
    using Cons.prems x u by (cases "t_cancel (task_at s r)") (auto simp: call_cancel_def task_at_def)
  then show ?case using Cons.IH [of ?s] Cons.prems(1) l x by simp
qed simp



end
