(* ===== verification/Scheduler_Timers.thy ===== *)
theory Scheduler_Timers
  imports Scheduler_Admin
begin

text \<open>
  Delayed work from end to end: what \<open>ScheduleOnceTask\<close> parks in the timing wheel is submitted when its
  time has come, and the callback of a recurring or cron schedule submits a fresh task and parks
  itself again.
\<close>

section \<open>Callbacks stay\<close>

text \<open>The wheel's store of entries grows at its end, and no entry changes its callback.\<close>

lemma Schedule_appends:
  "TimingWheel_Schedule tid at cb tw = Inr (er, tw') \<Longrightarrow> \<exists>cbs. tw_cbs tw' = tw_cbs tw @ cbs"
  by (auto simp: TimingWheel_Schedule_def go_bind_def schedule_index_cbs dest!: insert_cbs
    split: if_splits sum.splits option.splits)

lemma wheel_step_appends: "wheel_step x y \<Longrightarrow> \<exists>cbs. tw_cbs (snd y) = tw_cbs (snd x) @ cbs"
  by (induction rule: wheel_step.induct) (auto dest: Schedule_appends tickLoop_cbs)

lemma wheel_steps_append: "wheel_step\<^sup>*\<^sup>* x y \<Longrightarrow> \<exists>cbs. tw_cbs (snd y) = tw_cbs (snd x) @ cbs"
proof (induction rule: rtranclp_induct)
  case (step y z)
  then show ?case using wheel_step_appends [OF step(2)] by auto
qed simp

lemma callback_kept:
  assumes "wheel_step\<^sup>*\<^sup>* x y" and "e < length (tw_store (snd x))"
  shows "e_callback (tw_store (snd y) ! e) = e_callback (tw_store (snd x) ! e)"
proof -
  obtain cbs where c: "tw_cbs (snd y) = tw_cbs (snd x) @ cbs" using wheel_steps_append [OF assms(1)] by blast
  have "length (tw_cbs (snd x)) \<le> length (tw_cbs (snd y))" using c by simp
  then have "length (tw_store (snd x)) \<le> length (tw_store (snd y))" by (simp add: tw_cbs_def)
  then show ?thesis using arg_cong [OF c, of "\<lambda>l. l ! e"] assms(2) by (simp add: tw_cbs_def nth_append)
qed

section \<open>One-shot schedules\<close>

lemma schedule_track_fields:
  "s_wheel (schedule_track r s) = s_wheel s" "r < n_objs s \<Longrightarrow> t_id (task_at (schedule_track r s) r) = t_id (task_at s r)"
  by (simp_all add: schedule_track_def new_ctx_def task_at_def track_def upd_task_def)

text \<open>
  C21. A one-shot schedule is delivered. On a running scheduler \<open>ScheduleOnceTask\<close> returns the task's ID
  and makes one entry of the wheel; whatever the scheduler does then, unless the entry is cancelled, the
  tick loop that runs at the time or later has dispatched its callback, and this callback, if it has not run
  yet, submits the task: the scheduler can make that step.
\<close>

theorem once_delivered:
  assumes "sched_reach E (now, gone, s)" and "r < n_objs s" and "time_ok at" and "\<not> s_stopped s" and "\<not> tw_stopped (s_wheel s)"
    and "ScheduleOnceTask r at s = Inr (res, s1)" and "e = length (tw_store (s_wheel s))"
    and "(sched_step E)\<^sup>*\<^sup>* (now, gone, s1) (now2, gone2, s2)" and "\<not> tw_canc (s_wheel s2) e"
    and "tickLoop fuel (UnixMilli now2) (s_wheel s2) = Inr w" and "UnixMilli at \<le> UnixMilli now2" and "e \<notin> gone2"
  shows "res = Inr (t_id (task_at s r)) \<and> e \<in> set (tw_fired w) \<and>
    sched_step E (now2, gone2, s2\<lparr>s_wheel := w\<rparr>) (now2, insert e gone2, snd (Submit E r (s2\<lparr>s_wheel := w\<rparr>)))"
proof -
  note w0 = reach_wheel [OF assms(1)]
  obtain w1 where w1: "res = Inr (t_id (task_at s r))" "s_wheel s1 = w1" "scheduled (t_id (task_at s r)) (UnixMilli at) (s_wheel s) w1"
    "tw_cbs w1 = tw_cbs (s_wheel s) @ [CbOnce r]"
    using assms(4,5,6) wheel_Schedule_reach [of "schedule_track r s" at "t_id (task_at s r)" "CbOnce r"] w0(2-4) assms(2,3)
    by (auto simp: ScheduleOnceTask_def schedule_wheel_def go_bind_def schedule_track_fields)
  have e: "e < length (tw_store w1)" "tw_exp w1 e = UnixMilli at" using w1(3) by (simp_all add: scheduled_def assms(7) Let_def)
  have cb: "e_callback (tw_store w1 ! e) = CbOnce r"
    using arg_cong [OF w1(4), of "\<lambda>l. l ! e"] e(1) by (simp add: tw_cbs_def nth_append assms(7))
  have r1: "sched_reach E (now, gone, s1)" using sched_reach.step [OF assms(1) sched_step.once [OF assms(2,3,6)]] .
  have ok1: "sys_ok E (now, gone, s1)" using sched_reach_ok [OF r1] .
  note st = steps_wheel [OF assms(8) ok1]
  have "run_ok (UnixMilli now, w1)" using wheel_reach_run_ok reach_wheel(1) [OF r1] w1(2) by fastforce
  then have m: "step_mono w1 (s_wheel s2)" using wheel_steps_mono [OF conjunct2 [OF st]] w1(2) by simp
  have e2: "e < length (tw_store (s_wheel s2))" "tw_exp (s_wheel s2) e = UnixMilli at" "e_callback (tw_store (s_wheel s2) ! e) = CbOnce r"
    using m e callback_kept [OF conjunct2 [OF st], of e] cb w1(2) by (auto simp: step_mono_def)
  have wr: "wheel_reach (UnixMilli now2, s_wheel s2)" using st by (simp add: sys_ok_def)
  have f: "e \<in> set (tw_fired w)" using live_fires [OF wr e2(1) assms(9,10)] e2(2) assms(11) by simp
  have "e_callback (tw_store w ! e) = CbOnce r"
    using tickLoop_cbs [OF assms(10)] e2(1,3) by (metis length_map nth_map tw_cbs_def)
  then have "run_callback E now2 newid (e_callback (tw_store (s_wheel (s2\<lparr>s_wheel := w\<rparr>)) ! e)) (s2\<lparr>s_wheel := w\<rparr>) =
      Inr (snd (Submit E r (s2\<lparr>s_wheel := w\<rparr>)))" for newid by simp
  then show ?thesis using w1(1) f sched_step.callback [of e "s2\<lparr>s_wheel := w\<rparr>" gone2] assms(12) by auto
qed

text \<open>A task is scheduled for 30 ms later; the tick loop runs 60 ms later.\<close>

definition demo_later :: int where
  "demo_later = demo_now + 60000000"

definition demo_once :: demo_sched where
  "demo_once = snd (projr (ScheduleOnceTask 0 (demo_now + 30000000) demo_ready))"

lemma demo_once_result: "ScheduleOnceTask 0 (demo_now + 30000000) demo_ready = Inr (Inr ''t2'', demo_once)"
proof -
  let ?r = "ScheduleOnceTask 0 (demo_now + 30000000) demo_ready"
  have "\<not> isl ?r" "fst (projr ?r) = Inr ''t2''" by code_simp+
  then show ?thesis by (cases ?r) (auto simp: demo_once_def prod_eq_iff)
qed

definition demo_ticked :: "wheel_cb TimingWheel" where
  "demo_ticked = projr (tickLoop 9 (UnixMilli demo_later) (s_wheel demo_once))"

lemma demo_ticked_result: "tickLoop 9 (UnixMilli demo_later) (s_wheel demo_once) = Inr demo_ticked"
proof -
  have "\<not> isl (tickLoop 9 (UnixMilli demo_later) (s_wheel demo_once))" by code_simp
  then show ?thesis by (simp add: demo_ticked_def)
qed

lemma demo_later_ok: "now_ok demo_later" "demo_now \<le> demo_later" "time_ok (demo_now + 30000000)"
  by (simp_all add: demo_later_def demo_now_def now_ok_def time_ok_def)

theorem once_delivered_witness:
  "tw_fired (s_wheel demo_once) = [] \<and> 0 \<in> set (tw_fired demo_ticked) \<and>
    sched_step demo_env (demo_later, {}, demo_once\<lparr>s_wheel := demo_ticked\<rparr>)
      (demo_later, {0}, snd (Submit demo_env 0 (demo_once\<lparr>s_wheel := demo_ticked\<rparr>)))"
proof -
  have p: "\<not> s_stopped demo_ready" "\<not> tw_stopped (s_wheel demo_ready)" "0 = length (tw_store (s_wheel demo_ready))"
    "\<not> tw_canc (s_wheel demo_once) 0" "UnixMilli (demo_now + 30000000) \<le> UnixMilli demo_later"
    "tw_fired (s_wheel demo_once) = []" by code_simp+
  have "(sched_step demo_env)\<^sup>*\<^sup>* (demo_now, {}, demo_once) (demo_later, {}, demo_once)"
    by (rule r_into_rtranclp, rule sched_step.time [OF demo_later_ok(2,1)])
  from once_delivered [OF demo_ready_reach _ demo_later_ok(3) p(1,2) demo_once_result p(3) this p(4) demo_ticked_result p(5)]
  show ?thesis using p(6) by (simp add: demo_objs)
qed

section \<open>Recurring and cron schedules\<close>

text \<open>The template and the time of the next fire of a callback that parks itself again.\<close>

fun next_fire :: "('rs, 'st) env \<Rightarrow> int \<Rightarrow> wheel_cb \<Rightarrow> (task_ref \<times> int) option" where
  "next_fire E now (CbRecurring r iv) = Some (r, now + iv)"
| "next_fire E now (CbCron r fs) = Some (r, nextExecution (env_zone E) (TruncateMinute now) fs)"
| "next_fire E now cb = None"

lemma task_at_other:
  assumes "r \<noteq> r'"
  shows "task_at (upd_task r' f s) r = task_at s r"
  using assms by (simp add: task_at_def upd_task_def)

text \<open>\<open>Submit\<close> writes no task object but its own.\<close>

lemma task_at_unwritten [simp]:
  "task_at (push_queue q s) r = task_at s r" "task_at (track q s) r = task_at s r"
  "task_at (snd (store_call g s)) r = task_at s r"
  by (simp_all add: task_at_def push_queue_def track_def store_call_def split: prod.split)

lemma submit_enqueue_other [simp]: "task_at (snd (submit_enqueue q s)) r = task_at s r"
  by (simp add: submit_enqueue_def)

lemma submit_persist_other [simp]: "task_at (snd (submit_persist E q s)) r = task_at s r"
  by (simp add: submit_persist_def Let_def prod.case_eq_if split: option.split)

lemma submit_admit_other: "r \<noteq> q \<Longrightarrow> task_at (submit_admit q s) r = task_at s r"
  by (simp add: submit_admit_def task_at_other Let_def) (simp add: task_at_def)

lemma submit_link_other: "r \<noteq> q \<Longrightarrow> task_at (snd (submit_link q s)) r = task_at s r"
  by (simp add: submit_link_def task_at_other Let_def split: option.split)

lemma Submit_other: "r \<noteq> q \<Longrightarrow> task_at (snd (Submit E q s)) r = task_at s r"
  by (simp add: Submit_def submit_admit_other submit_link_other prod.case_eq_if split: option.split)

lemma submit_child_kept:
  assumes "r < n_objs s"
  shows "s_wheel (submit_child E newid r s) = s_wheel s" "task_at (submit_child E newid r s) r = task_at s r"
proof -
  have "task_at (snd (alloc_task t s)) r = task_at s r" for t using assms by (simp add: alloc_task_def task_at_def nth_append)
  then show "task_at (submit_child E newid r s) r = task_at s r"
    using assms by (simp add: submit_child_def prod.case_eq_if Submit_other) (simp add: alloc_task_def Submit_other)
qed simp

text \<open>The callback of a schedule that repeats, when the wheel has dispatched it.\<close>

lemma rearm:
  assumes "sched_reach E (now, gone, s)" and "e \<in> set (tw_fired (s_wheel s))" and "e_callback (tw_store (s_wheel s) ! e) = cb"
    and "next_fire E now cb = Some (r, at)" and "\<not> s_stopped s" and "\<not> tw_stopped (s_wheel s)"
  shows "\<exists>w. run_callback E now newid cb s =
      Inr ((snd (Submit E (n_objs s) (snd (alloc_task (child_task newid (task_at s r)) s))))\<lparr>s_wheel := w\<rparr>) \<and>
    scheduled (t_id (task_at s r)) (UnixMilli at) (s_wheel s) w \<and> tw_cbs w = tw_cbs (s_wheel s) @ [cb]"
proof -
  note w0 = reach_wheel [OF assms(1)] and c = reach_core [OF assms(1)]
  have e: "e < length (tw_store (s_wheel s))" using w0(2) assms(2) by (auto simp: wheel_ok_def)
  then have cb: "cb \<in> set (tw_cbs (s_wheel s))" using assms(3) by (auto simp: tw_cbs_def)
  have "cb_ref cb < n_objs s" using core_ok_cbs [OF c cb] .
  then have r: "r < n_objs s" using assms(4) by (cases cb) auto
  let ?s = "submit_child E newid r s"
  have s: "?s = snd (Submit E (n_objs s) (snd (alloc_task (child_task newid (task_at s r)) s)))"
    by (simp add: submit_child_def alloc_task_def)
  note k = submit_child_kept [OF r, of E newid]
  have i: "intervals_ok (s_wheel s)" using sched_reach_ok [OF assms(1)] by (simp add: sys_ok_def)
  have "time_ok at"
    using assms(4) cb i w0(5) time_ok_cron by (cases cb) (auto simp: intervals_ok_def intro!: time_ok_add)
  from wheel_Schedule_reach [of ?s at "t_id (task_at s r)" cb, unfolded k(1), OF w0(2-4) this]
  obtain w where "wheel_Schedule (t_id (task_at s r)) at cb ?s = Inr (None, ?s\<lparr>s_wheel := w\<rparr>)"
    "scheduled (t_id (task_at s r)) (UnixMilli at) (s_wheel s) w" "tw_cbs w = tw_cbs (s_wheel s) @ [cb]"
    using assms(6) by auto
  then show ?thesis using assms(4,5) k(2) by (cases cb) (auto simp: Let_def go_bind_def s [symmetric])
qed

text \<open>
  C22. A recurring schedule and a cron job go on: when the wheel has dispatched the callback and the
  scheduler runs, the callback returns; a fresh task built from the template was submitted, and apart from
  that only the wheel changed, which holds the same callback again under the ID of the schedule, for one
  interval later or for the next minute that matches.
\<close>

theorem recurring_rearms:
  assumes "sched_reach E (now, gone, s)" and "e \<in> set (tw_fired (s_wheel s))" and "e_callback (tw_store (s_wheel s) ! e) = cb"
    and "next_fire E now cb = Some (r, at)" and "\<not> s_stopped s" and "\<not> tw_stopped (s_wheel s)"
  shows "\<exists>w. run_callback E now newid cb s =
      Inr ((snd (Submit E (n_objs s) (snd (alloc_task (child_task newid (task_at s r)) s))))\<lparr>s_wheel := w\<rparr>) \<and>
    scheduled (t_id (task_at s r)) (UnixMilli at) (s_wheel s) w \<and> tw_cbs w = tw_cbs (s_wheel s) @ [cb]"
  by (rule rearm [OF assms])

text \<open>The same run with a recurring schedule of 30 ms.\<close>

definition demo_recur :: demo_sched where
  "demo_recur = snd (projr (ScheduleRecurringTask demo_now 0 30000000 demo_ready))"

lemma demo_recur_result: "ScheduleRecurringTask demo_now 0 30000000 demo_ready = Inr (Inr ''t2'', demo_recur)"
proof -
  let ?r = "ScheduleRecurringTask demo_now 0 30000000 demo_ready"
  have "\<not> isl ?r" "fst (projr ?r) = Inr ''t2''" by code_simp+
  then show ?thesis by (cases ?r) (auto simp: demo_recur_def prod_eq_iff)
qed

definition demo_recur_due :: demo_sched where
  "demo_recur_due = demo_recur\<lparr>s_wheel := projr (tickLoop 9 (UnixMilli demo_later) (s_wheel demo_recur))\<rparr>"

lemma demo_recur_due_reach: "sched_reach demo_env (demo_later, {}, demo_recur_due)"
  unfolding demo_recur_due_def
proof (rule sched_reach.step [OF _ sched_step.wheel_tick])
  have "sched_reach demo_env (demo_now, {}, demo_recur)"
    by (rule sched_reach.step [OF demo_ready_reach sched_step.recurring [OF _ _ demo_recur_result]])
      (simp_all add: demo_objs delay_ok_def)
  then show "sched_reach demo_env (demo_later, {}, demo_recur)"
    by (rule sched_reach.step) (rule sched_step.time [OF demo_later_ok(2,1)])
  have "\<not> isl (tickLoop 9 (UnixMilli demo_later) (s_wheel demo_recur))" by code_simp
  then show "tickLoop 9 (UnixMilli demo_later) (s_wheel demo_recur) =
      Inr (projr (tickLoop 9 (UnixMilli demo_later) (s_wheel demo_recur)))" by simp
qed

theorem recurring_rearms_witness:
  "\<exists>s w. run_callback demo_env demo_later ''x'' (CbRecurring 0 30000000) demo_recur_due = Inr (s\<lparr>s_wheel := w\<rparr>) \<and>
    scheduled ''t2'' (UnixMilli (demo_later + 30000000)) (s_wheel demo_recur_due) w"
proof -
  have "0 \<in> set (tw_fired (s_wheel demo_recur_due))" "\<not> s_stopped demo_recur_due"
    "\<not> tw_stopped (s_wheel demo_recur_due)" "e_callback (tw_store (s_wheel demo_recur_due) ! 0) = CbRecurring 0 30000000"
    "t_id (task_at demo_recur_due 0) = ''t2''" by code_simp+
  then show ?thesis
    using recurring_rearms [OF demo_recur_due_reach, of 0 "CbRecurring 0 30000000" 0 "demo_later + 30000000" "''x''"] by auto
qed

section \<open>Cancel after the dispatch\<close>

text \<open>
  A \<open>Cancel\<close> between the dispatch of a callback and its run comes too late, although it finalizes the
  task: the index of the wheel holds no entry for the ID at that moment. The one-shot task is queued after
  all, and the schedule that repeats parks itself again under an ID that is no longer tracked.
\<close>

lemma store_call_fields:
  "s_tasks (snd (store_call g s)) = s_tasks s" "s_objs (snd (store_call g s)) = s_objs s"
  "s_activeKeys (snd (store_call g s)) = s_activeKeys s" "s_queue (snd (store_call g s)) = s_queue s"
  by (simp_all add: store_call_def split_beta)

lemma TimingWheel_Cancel_fields:
  "tw_fired (TimingWheel_Cancel tid w) = tw_fired w" "tw_stopped (TimingWheel_Cancel tid w) = tw_stopped w"
  "e_callback (tw_store (TimingWheel_Cancel tid w) ! e) = e_callback (tw_store w ! e)"
proof -
  have "e_callback ((tw_store w)[x := (tw_store w ! x)\<lparr>e_cancelled := True\<rparr>] ! e) = e_callback (tw_store w ! e)" for x
    by (cases "x = e"; cases "x < length (tw_store w)") (simp_all add: list_update_beyond)
  then show "e_callback (tw_store (TimingWheel_Cancel tid w) ! e) = e_callback (tw_store w ! e)"
    by (simp add: TimingWheel_Cancel_def cancel_entry_def split: option.split)
qed (simp_all add: TimingWheel_Cancel_def cancel_entry_def split: option.split)

lemma inactive_cancelled:
  assumes "gm_get (s_tasks s) tid = Some r" and "r < n_objs s" and "t_typeName (task_at s r) = ''''"
    and "t_status (task_at s r) \<in> {StatusUnknown, StatusQueued, StatusRetrying}" and "s1 = snd (Cancel E tid s)"
  shows "s_tasks s1 = gm_del tid (s_tasks s)" "n_objs s1 = n_objs s" "s_queue s1 = s_queue s"
    "task_at s1 r = (task_at s r)\<lparr>t_status := StatusCancelled\<rparr>"
    "t_key (task_at s r) \<noteq> '''' \<Longrightarrow> gm_get (s_activeKeys s1) (t_key (task_at s r)) = None"
proof -
  let ?m = "call_cancel (t_cancel (task_at s r)) (upd_task r (\<lambda>t. t\<lparr>t_status := StatusCancelled\<rparr>) s)"
  have m: "cancel_mark tid s = (Some True, ?m)" using assms(1,4) by (auto simp: cancel_mark_def Let_def)
  have at: "task_at ?m r = (task_at s r)\<lparr>t_status := StatusCancelled\<rparr>" using assms(2) by (simp add: task_at_upd)
  have u: "s_tasks (untrack tid x) = gm_del tid (s_tasks x)" for x :: "('a, 'b, 'c) Scheduler" by (simp add: untrack_def)
  show "s_tasks s1 = gm_del tid (s_tasks s)" "n_objs s1 = n_objs s" "s_queue s1 = s_queue s"
    "task_at s1 r = (task_at s r)\<lparr>t_status := StatusCancelled\<rparr>"
    "t_key (task_at s r) \<noteq> '''' \<Longrightarrow> gm_get (s_activeKeys s1) (t_key (task_at s r)) = None"
    unfolding assms(5)
    using assms(1,3) m at
    by (simp_all add: Cancel_def Let_def cancel_finalize_def recordHistory_def store_call_fields u)
      (simp_all add: wheel_Cancel_def)
qed

theorem cancel_misses_once:
  assumes "sched_reach E (now, gone, s)" and "gm_get (s_tasks s) tid = Some r" and "t_typeName (task_at s r) = ''''"
    and "t_status (task_at s r) \<in> {StatusUnknown, StatusQueued, StatusRetrying}"
    and "e \<in> set (tw_fired (s_wheel s))" and "e \<notin> gone" and "e_callback (tw_store (s_wheel s) ! e) = CbOnce r"
    and "\<not> s_stopped s" and "gm_len (s_tasks s) \<le> s_maxQueueSize s"
    and "s1 = snd (Cancel E tid s)" and "s2 = snd (Submit E r s1)"
  shows "gm_get (s_tasks s1) tid = None \<and> sched_step E (now, gone, s1) (now, insert e gone, s2) \<and>
    Status tid s2 = StatusQueued \<and> r \<in> set (s_queue s2)"
proof -
  have r: "r < n_objs s" "t_id (task_at s r) = tid" using tracked_ref [OF reach_core [OF assms(1)] assms(2)] by simp_all
  note c = inactive_cancelled [OF assms(2) r(1) assms(3,4,10)]
  have w: "s_wheel s1 = TimingWheel_Cancel tid (s_wheel s)" by (simp add: assms(10) wheel_Cancel_frame)
  have e: "tw_fired (s_wheel s1) = tw_fired (s_wheel s)" "e_callback (tw_store (s_wheel s1) ! e) = CbOnce r"
    using assms(7) unfolding w by (simp_all add: TimingWheel_Cancel_fields)
  have "run_callback E now newid (e_callback (tw_store (s_wheel s1) ! e)) s1 = Inr s2" for newid
    unfolding e(2) assms(11) by simp
  then have st: "sched_step E (now, gone, s1) (now, insert e gone, s2)"
    using sched_step.callback [of e s1 gone] assms(5,6) e(1) by simp
  let ?t = "task_at s1 r" and ?a = "submit_admit r s1"
  have cf: "cfg s1 = cfg s" using cfg_Cancel unfolding assms(10) .
  have "length (gm_del tid (s_tasks s)) < length (s_tasks s)" using gm_len_del_less [OF assms(2)] .
  then have n: "submit_refuse ?t s1 = None" using cf assms(8,9) c(1,4,5) by (auto simp: submit_refuse_def cfg_def)
  have at: "task_at ?a r = ?t\<lparr>t_retryStrategy := (case t_retryStrategy ?t of None \<Rightarrow> s_retryStrategy s1 | rs \<Rightarrow> rs), t_status := StatusQueued\<rparr>"
    using r(1) c(2) by (simp add: submit_admit_def Let_def task_at_upd) (simp add: task_at_def)
  have sub: "s2 = push_queue r (track r ?a)"
    using n at c(4) assms(3,11) by (simp add: Submit_def submit_link_def submit_persist_def submit_enqueue_def Let_def)
  have "sched_reach E (now, gone, s1)" unfolding assms(10) by (rule sched_reach.step [OF assms(1) sched_step.cancel])
  then have o: "tq.ordered (prio (track r ?a)) (s_queue (track r ?a))"
    using core_ok_admit [OF reach_core, of E now gone s1 r] by (simp add: core_ok_def prio_def task_at_def track_def)
  have "r \<in> set (s_queue s2)" using taskHeap_Push(4) [OF o, of r] unfolding sub by (simp add: push_queue_def)
  moreover have "Status tid s2 = StatusQueued"
    using at c(4) r(2) unfolding sub by (simp add: Status_def push_queue_def track_def task_at_def)
  ultimately show ?thesis using st c(1) by simp
qed

theorem cancel_misses_recurring:
  assumes "sched_reach E (now, gone, s)" and "e \<in> set (tw_fired (s_wheel s))" and "e_callback (tw_store (s_wheel s) ! e) = cb"
    and "next_fire E now cb = Some (r, at)" and "\<not> s_stopped s" and "\<not> tw_stopped (s_wheel s)"
    and "gm_get (s_tasks s) tid = Some r" and "t_typeName (task_at s r) = ''''"
    and "t_status (task_at s r) \<in> {StatusUnknown, StatusQueued, StatusRetrying}" and "s1 = snd (Cancel E tid s)"
  shows "gm_get (s_tasks s1) tid = None \<and> (\<exists>s2 w. run_callback E now newid cb s1 = Inr (s2\<lparr>s_wheel := w\<rparr>) \<and>
    scheduled tid (UnixMilli at) (s_wheel s1) w \<and> tw_cbs w = tw_cbs (s_wheel s1) @ [cb])"
proof -
  have r: "r < n_objs s" "t_id (task_at s r) = tid" using tracked_ref [OF reach_core [OF assms(1)] assms(7)] by simp_all
  note c = inactive_cancelled [OF assms(7) r(1) assms(8,9,10)]
  have w: "s_wheel s1 = TimingWheel_Cancel tid (s_wheel s)" by (simp add: assms(10) wheel_Cancel_frame)
  have e: "tw_fired (s_wheel s1) = tw_fired (s_wheel s)" "e_callback (tw_store (s_wheel s1) ! e) = cb"
    "tw_stopped (s_wheel s1) = tw_stopped (s_wheel s)"
    using assms(3) unfolding w by (simp_all add: TimingWheel_Cancel_fields)
  have "cfg s1 = cfg s" using cfg_Cancel unfolding assms(10) .
  then have "\<not> s_stopped s1" using assms(5) by (simp add: cfg_def)
  moreover have "sched_reach E (now, gone, s1)" unfolding assms(10) by (rule sched_reach.step [OF assms(1) sched_step.cancel])
  ultimately show ?thesis
    using rearm [of E now gone s1 e cb r at newid] e assms(2,4,6) c(1,4) r(2) by auto
qed

end
