(* ===== verification/Pool_Machine.thy ===== *)
theory Pool_Machine
  imports Scheduler_Admin "HOL-Library.Sublist"
begin

text \<open>
  The hand-over from the dequeue loop to the workers as a machine of its own: the workers, the slot of the
  dequeue loop and the channels of the pools. Every step of the scheduler is one of its moves or none, so
  what the machine guarantees holds of the scheduler.
\<close>

section \<open>The machine\<close>

record pools =
  p_workers :: "worker list"
  p_slot :: "(task_ref \<times> string) option"
  p_chans :: "string \<rightharpoonup> chan"
  p_stop :: bool

definition put_worker :: "nat \<Rightarrow> worker_state \<Rightarrow> pools \<Rightarrow> pools" where
  "put_worker i st P = P\<lparr>p_workers := (p_workers P)[i := (p_workers P ! i)\<lparr>w_state := st\<rparr>]\<rparr>"

definition put_chan :: "string \<Rightarrow> chan \<Rightarrow> pools \<Rightarrow> pools" where
  "put_chan p ch P = P\<lparr>p_chans := (p_chans P)(p \<mapsto> ch)\<rparr>"

definition fresh_worker :: "string \<Rightarrow> worker" where
  "fresh_worker p = \<lparr>w_pool = p, w_state = WStarting\<rparr>"

text \<open>A worker that took the task \<open>r\<close> runs it, or is idle again at once when the task was cancelled.\<close>

definition took :: "task_ref \<Rightarrow> worker_state \<Rightarrow> bool" where
  "took r st \<longleftrightarrow> st = WIdle True \<or> (\<exists>rn. st = WRunning True rn \<and> r_task rn = r)"

inductive pool_move :: "pools \<Rightarrow> pools \<Rightarrow> bool" where
  rest: "pool_move P P"
| ready: "i < length (p_workers P) \<Longrightarrow> w_state (p_workers P ! i) = WStarting \<Longrightarrow>
    pool_move P (put_worker i (WIdle (p_chans P (w_pool (p_workers P ! i)) \<noteq> None)) P)"
| receive: "i < length (p_workers P) \<Longrightarrow> w_state (p_workers P ! i) = WIdle True \<Longrightarrow> w_pool (p_workers P ! i) = p \<Longrightarrow>
    p_chans P p = Some ch \<Longrightarrow> ch_buf ch = r # rs \<Longrightarrow> (\<And>r'. p_slot P \<noteq> Some (r', p)) \<Longrightarrow> took r st \<Longrightarrow>
    pool_move P (put_worker i st (put_chan p (ch\<lparr>ch_buf := rs\<rparr>) P))"
| refill: "i < length (p_workers P) \<Longrightarrow> w_state (p_workers P ! i) = WIdle True \<Longrightarrow> w_pool (p_workers P ! i) = p \<Longrightarrow>
    p_chans P p = Some ch \<Longrightarrow> ch_buf ch = r # rs \<Longrightarrow> p_slot P = Some (r', p) \<Longrightarrow> took r st \<Longrightarrow>
    pool_move P (put_worker i st (put_chan p (ch\<lparr>ch_buf := rs @ [r']\<rparr>) (P\<lparr>p_slot := None\<rparr>)))"
| handover: "i < length (p_workers P) \<Longrightarrow> w_state (p_workers P ! i) = WIdle True \<Longrightarrow> w_pool (p_workers P ! i) = p \<Longrightarrow>
    p_chans P p = Some ch \<Longrightarrow> ch_buf ch = [] \<Longrightarrow> p_slot P = Some (r, p) \<Longrightarrow> took r st \<Longrightarrow>
    pool_move P (put_worker i st (P\<lparr>p_slot := None\<rparr>))"
| finish: "i < length (p_workers P) \<Longrightarrow> w_state (p_workers P ! i) = WRunning b rn \<Longrightarrow> pool_move P (put_worker i (WIdle b) P)"
| leave: "i < length (p_workers P) \<Longrightarrow> w_state (p_workers P ! i) = WIdle b \<Longrightarrow> pool_move P (put_worker i WExited P)"
| dispatch: "p_slot P = None \<Longrightarrow> p_chans P p = Some ch \<Longrightarrow> pool_move P (P\<lparr>p_slot := Some (r, p)\<rparr>)"
| dispatch_open: "p_slot P = None \<Longrightarrow> p_chans P p = None \<Longrightarrow>
    pool_move P (put_chan p (make_chan 0) P\<lparr>p_slot := Some (r, p), p_workers := p_workers P @ [fresh_worker p]\<rparr>)"
| send: "p_slot P = Some (r, p) \<Longrightarrow> p_chans P p = Some ch \<Longrightarrow> length (ch_buf ch) < ch_cap ch \<Longrightarrow>
    pool_move P (put_chan p (ch\<lparr>ch_buf := ch_buf ch @ [r]\<rparr>) (P\<lparr>p_slot := None\<rparr>))"
| scale: "p_chans P p = Some ch \<Longrightarrow> pool_move P (P\<lparr>p_workers := p_workers P @ replicate n (fresh_worker p)\<rparr>)"
| scale_open: "p_chans P p = None \<Longrightarrow>
    pool_move P (put_chan p (make_chan 0) P\<lparr>p_workers := p_workers P @ replicate n (fresh_worker p)\<rparr>)"
| stop: "pool_move P (P\<lparr>p_slot := None, p_chans := (\<lambda>p. map_option (\<lambda>ch. ch\<lparr>ch_closed := True\<rparr>) (p_chans P p)), p_stop := True\<rparr>)"

section \<open>The scheduler makes its moves\<close>

definition pools_of :: "('job, 'rs, 'st) Scheduler \<Rightarrow> pools" where
  "pools_of s = \<lparr>p_workers = s_workers s, p_slot = s_dispatch s, p_chans = gm_get (s_poolQueues s), p_stop = s_stop s\<rparr>"

lemma pools_of_pv: "pv s' = pv s \<Longrightarrow> pools_of s' = pools_of s"
  by (simp add: pools_of_def pv_def)

lemma pools_of_calm: "calm s s' \<Longrightarrow> pools_of s' = pools_of s"
  by (rule pools_of_pv) (simp add: calm_def)

lemma pools_of_set_worker: "pools_of (set_worker i st s) = put_worker i st (pools_of s)"
  by (simp add: pools_of_def set_worker_def put_worker_def)

lemma pools_of_fields [simp]:
  "p_workers (pools_of s) = s_workers s" "p_slot (pools_of s) = s_dispatch s" "p_chans (pools_of s) = gm_get (s_poolQueues s)"
  "p_stop (pools_of s) = s_stop s"
  by (simp_all add: pools_of_def)

lemma spawn_fields [simp]:
  "s_workers (spawnWorkersForPoolLocked p n s) = s_workers s @ replicate (nat n) (fresh_worker p)"
  "s_dispatch (spawnWorkersForPoolLocked p n s) = s_dispatch s" "s_poolQueues (spawnWorkersForPoolLocked p n s) = s_poolQueues s"
  "s_stop (spawnWorkersForPoolLocked p n s) = s_stop s"
  by (simp_all add: spawnWorkersForPoolLocked_def fresh_worker_def Let_def split: option.split)

lemma take_move:
  assumes "worker_take E i s = Some s'" and "i < length (s_workers s)" and "w_state (s_workers s ! i) = WIdle True"
  shows "pool_move (pools_of s) (pools_of s')"
proof -
  let ?p = "w_pool (s_workers s ! i)"
  obtain r s1 where c: "chan_recv ?p s = Some (r, s1)" using assms(1) by (auto simp: worker_take_def split: option.splits)
  let ?s = "upd_tracked (t_id (task_at s1 r)) (\<lambda>t. t\<lparr>t_status := StatusRunning\<rparr>) s1"
  obtain rn s2 where s2: "runTask_start E r ?s = (rn, s2)" by (cases "runTask_start E r ?s")
  have "aux s2 = aux s1" using aux_start [of E r ?s] s2 by simp
  then have p2: "pools_of s2 = pools_of s1" by (intro pools_of_pv pv_aux)
  define st where "st = (case rn of None \<Rightarrow> WIdle True | Some n \<Rightarrow> WRunning True n)"
  have s': "s' = set_worker i st s2" using assms(1) c s2 by (auto simp: worker_take_def st_def Let_def split: option.splits)
  have t: "took r st" using start_ref s2 by (auto simp: took_def st_def split: option.split)
  have eq: "pools_of s' = put_worker i st (pools_of s1)" using s' p2 by (simp add: pools_of_set_worker)
  obtain ch where ch: "gm_get (s_poolQueues s) ?p = Some ch" using c by (auto simp: chan_recv_def split: option.splits)
  show ?thesis
  proof (cases "ch_buf ch")
    case Nil
    then have "s_dispatch s = Some (r, ?p)" "s1 = s\<lparr>s_dispatch := None\<rparr>"
      using c ch by (auto simp: chan_recv_def split: option.splits prod.splits if_splits)
    then show ?thesis
      using pool_move.handover [of i "pools_of s" ?p ch r st] assms(2,3) ch Nil t eq by (simp add: pools_of_def)
  next
    case (Cons x rs)
    show ?thesis
    proof (cases "\<exists>r'. s_dispatch s = Some (r', ?p)")
      case True
      then obtain r' where d: "s_dispatch s = Some (r', ?p)" by blast
      then have "r = x" "s1 = s\<lparr>s_poolQueues := gm_put ?p (ch\<lparr>ch_buf := rs @ [r']\<rparr>) (s_poolQueues s), s_dispatch := None\<rparr>"
        using c ch Cons by (auto simp: chan_recv_def)
      then have "pools_of s1 = put_chan ?p (ch\<lparr>ch_buf := rs @ [r']\<rparr>) ((pools_of s)\<lparr>p_slot := None\<rparr>)" "r = x"
        by (simp_all add: pools_of_def put_chan_def fun_eq_iff)
      then show ?thesis
        using pool_move.refill [of i "pools_of s" ?p ch r rs r' st] assms(2,3) ch Cons t eq d by simp
    next
      case False
      then have "r = x" "s1 = s\<lparr>s_poolQueues := gm_put ?p (ch\<lparr>ch_buf := rs\<rparr>) (s_poolQueues s)\<rparr>"
        using c ch Cons by (auto simp: chan_recv_def split: option.splits prod.splits if_splits)
      then have "pools_of s1 = put_chan ?p (ch\<lparr>ch_buf := rs\<rparr>) (pools_of s)" "r = x"
        by (simp_all add: pools_of_def put_chan_def fun_eq_iff)
      then show ?thesis
        using pool_move.receive [of i "pools_of s" ?p ch r rs st] assms(2,3) ch Cons t eq False by simp
    qed
  qed
qed

lemma dispatch_move:
  assumes "s_dispatch s = None"
  shows "pool_move (pools_of s) (pools_of (dispatchTask r s))"
proof -
  let ?p = "if t_pool (task_at s r) = '''' then ''default'' else t_pool (task_at s r)"
  show ?thesis
  proof (cases "gm_get (s_poolQueues s) ?p")
    case None
    have "pools_of (dispatchTask r s) = put_chan ?p (make_chan 0) (pools_of s)\<lparr>p_slot := Some (r, ?p),
        p_workers := s_workers s @ [fresh_worker ?p]\<rparr>"
      unfolding dispatchTask_def Let_def None
      by (simp add: pools_of_def put_chan_def fun_eq_iff)
    then show ?thesis using pool_move.dispatch_open [of "pools_of s" ?p r] None assms by simp
  next
    case (Some ch)
    have "pools_of (dispatchTask r s) = (pools_of s)\<lparr>p_slot := Some (r, ?p)\<rparr>"
      unfolding dispatchTask_def Let_def Some by (simp add: pools_of_def)
    then show ?thesis using pool_move.dispatch [of "pools_of s" ?p ch r] Some assms by simp
  qed
qed

lemma dequeue_move:
  assumes "s_dispatch s = None"
  shows "pool_move (pools_of s) (pools_of (dequeue_round E s))"
proof -
  obtain r s1 where p: "pop_queue s = (r, s1)" by (cases "pop_queue s")
  obtain r2 s2 where d: "dequeue_storage E s1 = (r2, s2)" by (cases "dequeue_storage E s1")
  have a1: "aux s1 = aux s" using aux_pop [of s] p by simp
  have a2: "aux s2 = aux s1" using aux_dequeue_storage [of E s1] d by simp
  note q = pools_of_pv [OF pv_aux [OF a1]] pools_of_pv [OF pv_aux [OF a2]]
  have n: "s_dispatch s1 = None" "s_dispatch s2 = None" using auxD(3) [OF a1] auxD(3) [OF a2] assms by simp_all
  show ?thesis
    using p d q dispatch_move [OF n(1)] dispatch_move [OF n(2)] pool_move.rest [of "pools_of s"]
    by (auto simp: dequeue_round_def split: option.split)
qed

lemma send_move:
  assumes "dispatch_send s = Some s'"
  shows "pool_move (pools_of s) (pools_of s')"
proof -
  obtain r p ch where d: "s_dispatch s = Some (r, p)" "gm_get (s_poolQueues s) p = Some ch" "length (ch_buf ch) < ch_cap ch"
    "s' = s\<lparr>s_poolQueues := gm_put p (ch\<lparr>ch_buf := ch_buf ch @ [r]\<rparr>) (s_poolQueues s), s_dispatch := None\<rparr>"
    using assms by (auto simp: dispatch_send_def split: option.splits if_splits)
  have "pools_of s' = put_chan p (ch\<lparr>ch_buf := ch_buf ch @ [r]\<rparr>) ((pools_of s)\<lparr>p_slot := None\<rparr>)"
    by (simp add: d(4) pools_of_def put_chan_def fun_eq_iff)
  then show ?thesis using pool_move.send [of "pools_of s" r p ch] d(1-3) by simp
qed

lemma scale_move: "pool_move (pools_of s) (pools_of (ScalePool p n s))"
proof -
  obtain k where k: "pools_of (ScalePool p n s) = (case gm_get (s_poolQueues s) p of
      Some _ \<Rightarrow> pools_of s | None \<Rightarrow> put_chan p (make_chan 0) (pools_of s))\<lparr>p_workers := s_workers s @ replicate k (fresh_worker p)\<rparr>"
  proof
    let ?n = "if (if n < 0 then 0 else n) > 100 then 100 else (if n < 0 then 0 else n)"
    let ?k = "if ?n > poolWorkers_get s p then nat (?n - poolWorkers_get s p) else 0"
    show "pools_of (ScalePool p n s) = (case gm_get (s_poolQueues s) p of
      Some _ \<Rightarrow> pools_of s | None \<Rightarrow> put_chan p (make_chan 0) (pools_of s))\<lparr>p_workers := s_workers s @ replicate ?k (fresh_worker p)\<rparr>"
      by (simp add: ScalePool_def Let_def pools_of_def put_chan_def fun_eq_iff split: option.split)
  qed
  show ?thesis
    using pool_move.scale [of "pools_of s" p _ k] pool_move.scale_open [of "pools_of s" p k]
    by (cases "gm_get (s_poolQueues s) p") (simp_all add: k)
qed

lemma stop_move: "pool_move (pools_of s) (pools_of (ShutDown s))"
proof (cases "s_stopped s")
  case False
  let ?m = "map (\<lambda>(k, ch). (k, ch\<lparr>ch_closed := True\<rparr>)) (s_poolQueues s)"
  let ?s = "s\<lparr>s_stopped := True, s_stop := True, s_wheel := TimingWheel_Stop (s_wheel s), s_dispatch := None, s_poolQueues := ?m\<rparr>"
  have "gm_get ?m = (\<lambda>p. map_option (\<lambda>ch. ch\<lparr>ch_closed := True\<rparr>) (gm_get (s_poolQueues s) p))"
    by (simp add: fun_eq_iff map_of_map)
  moreover have "pools_of (ShutDown s) = pools_of ?s"
    using fold_call_cancel(1) [of "s_tasks s" ?s, THEN pv_aux, THEN pools_of_pv] False by (simp add: ShutDown_def Let_def)
  ultimately show ?thesis using pool_move.stop [of "pools_of s"] by (simp add: pools_of_def)
qed (simp add: ShutDown_def pool_move.rest)

lemma move_pv: "pv t = pv s \<Longrightarrow> pool_move (pools_of s) (pools_of t)"
  using pools_of_pv [of t s] pool_move.rest by simp

text \<open>Every step of the scheduler is a move of the machine, or none.\<close>

lemma step_move:
  assumes "sched_step E (now, gone, s) (now', gone', s')"
  shows "pool_move (pools_of s) (pools_of s')"
proof -
  have calm: "pool_move (pools_of s) (pools_of s')" if "calm s s'" using pools_of_calm [OF that] pool_move.rest by simp
  show ?thesis
    using assms
  proof cases
    case (once r at res)
    then show ?thesis by (auto simp: ScheduleOnceTask_def dest!: calm_schedule split: if_splits intro: calm pool_move.rest)
  next
    case (recurring r iv res)
    then show ?thesis by (auto simp: ScheduleRecurringTask_def dest!: calm_schedule split: if_splits intro: calm pool_move.rest)
  next
    case (cron r spec res)
    then show ?thesis
      by (auto simp: ScheduleCronTask_def Let_def dest!: calm_schedule split: if_splits intro: calm pool_move.rest)
  next
    case cancel
    then show ?thesis using calm_Cancel calm by blast
  next
    case (callback e newid)
    then show ?thesis using calm_callback calm by blast
  next
    case dequeue
    then show ?thesis using dequeue_move by simp
  next
    case send
    then show ?thesis using send_move by blast
  next
    case (start_worker i)
    then show ?thesis using pool_move.ready [of i "pools_of s"] by (simp add: worker_start_def pools_of_set_worker)
  next
    case (take i)
    then show ?thesis using take_move by blast
  next
    case (control i b)
    then have "pools_of s' = put_worker i WExited (pools_of s)"
      by (auto simp: worker_control_def Let_def set_worker_def pools_of_def put_worker_def split: option.splits nat.splits)
    then show ?thesis using pool_move.leave [of i "pools_of s" b] control by simp
  next
    case (stop_worker i b)
    then show ?thesis using pool_move.leave [of i "pools_of s" b] by (simp add: pools_of_set_worker)
  next
    case (finish i b rn newid failed s1)
    have "pools_of s1 = pools_of s" using calm_done [OF finish(7)] by (rule pools_of_calm)
    then show ?thesis using pool_move.finish [of i "pools_of s" b rn] finish by (simp add: pools_of_set_worker)
  next
    case (ctx_done i b rn canceled newid s1)
    have "pools_of s1 = pools_of s" using calm_ctxDone [OF ctx_done(8)] by (rule pools_of_calm)
    then show ?thesis using pool_move.finish [of i "pools_of s" b rn] ctx_done by (simp add: pools_of_set_worker)
  next
    case (scale pool n)
    then show ?thesis using scale_move by simp
  next
    case shutdown
    then show ?thesis using stop_move by simp
  qed (auto intro!: move_pv simp: RegisterJob_def Use_def Pause_def Resume_def cleanup_tick_def)
qed

lemma steps_move:
  assumes "(sched_step E)\<^sup>*\<^sup>* (now, gone, s) (now', gone', s')"
  shows "pool_move\<^sup>*\<^sup>* (pools_of s) (pools_of s')"
  using assms
proof (induction "(now', gone', s')" arbitrary: now' gone' s' rule: rtranclp_induct)
  case (step y)
  obtain n g t where y: "y = (n, g, t)" by (cases y)
  show ?case using step(3) [OF y] step_move [of E n g t now' gone' s'] step(2) y by (meson rtranclp.rtrancl_into_rtrancl)
qed simp

section \<open>A pool nobody serves\<close>

text \<open>
  The slot holds a task for a pool whose channel is full (or has no buffer) and which has no worker that
  reads it: all are gone, or wait on a nil channel.
\<close>

definition blocked :: "string \<Rightarrow> task_ref \<Rightarrow> pools \<Rightarrow> bool" where
  "blocked p r P \<longleftrightarrow> p_slot P = Some (r, p) \<and> (\<exists>ch. p_chans P p = Some ch \<and> ch_cap ch \<le> length (ch_buf ch)) \<and>
     (\<forall>w \<in> set (p_workers P). w_pool w = p \<longrightarrow> w_state w \<in> {WIdle False, WExited})"

definition chan_tasks :: "pools \<Rightarrow> string \<Rightarrow> task_ref list" where
  "chan_tasks P p = (case p_chans P p of None \<Rightarrow> [] | Some ch \<Rightarrow> ch_buf ch)"

text \<open>Workers stay in the list, in their pool; what is stopped stays stopped.\<close>

lemma map_pool_update: "map w_pool (ws[i := (ws ! i)\<lparr>w_state := st\<rparr>]) = map w_pool ws"
  by (cases "i < length ws") (simp_all add: map_update list_update_same_conv list_update_beyond)

lemma put_worker_fields [simp]:
  "map w_pool (p_workers (put_worker i st P)) = map w_pool (p_workers P)" "p_slot (put_worker i st P) = p_slot P"
  "p_chans (put_worker i st P) = p_chans P" "p_stop (put_worker i st P) = p_stop P"
  by (simp_all add: put_worker_def map_pool_update del: map_update)

lemma put_chan_fields [simp]:
  "p_workers (put_chan p ch P) = p_workers P" "p_slot (put_chan p ch P) = p_slot P"
  "p_chans (put_chan p ch P) = (p_chans P)(p \<mapsto> ch)" "p_stop (put_chan p ch P) = p_stop P"
  by (simp_all add: put_chan_def)

lemma move_grows:
  "pool_move P Q \<Longrightarrow> prefix (map w_pool (p_workers P)) (map w_pool (p_workers Q)) \<and> (p_stop P \<longrightarrow> p_stop Q)"
  by (induction rule: pool_move.induct) auto

abbreviation members :: "string \<Rightarrow> pools \<Rightarrow> nat" where
  "members p P \<equiv> count_list (map w_pool (p_workers P)) p"

lemma members_grow: "pool_move P Q \<Longrightarrow> members p P \<le> members p Q"
  using move_grows [of P Q] by (auto simp: prefix_def)

lemma put_worker_all:
  "\<forall>w \<in> set (p_workers P). A w \<Longrightarrow> A ((p_workers P ! i)\<lparr>w_state := st\<rparr>) \<Longrightarrow> \<forall>w \<in> set (p_workers (put_worker i st P)). A w"
  using set_update_subset_insert [of "p_workers P" i] by (auto simp: put_worker_def)

lemma count_replicate: "count_list (replicate n x) y = (if x = y then n else 0)"
  by (induction n) auto

lemma blocked_move:
  assumes "pool_move P Q" and "blocked p r P" and "\<not> p_stop Q" and "members p Q = members p P"
  shows "blocked p r Q \<and> suffix (chan_tasks Q q) (chan_tasks P q)"
proof -
  define unread where "unread w \<longleftrightarrow> (w_pool w = p \<longrightarrow> w_state w \<in> {WIdle False, WExited})" for w :: worker
  have b: "p_slot P = Some (r, p)" "\<forall>w \<in> set (p_workers P). unread w"
    "\<exists>ch. p_chans P p = Some ch \<and> ch_cap ch \<le> length (ch_buf ch)"
    using assms(2) by (simp_all add: blocked_def unread_def)
  have at: "unread (p_workers P ! i)" if "i < length (p_workers P)" for i using b(2) that by simp
  have "p_slot Q = Some (r, p) \<and> (\<forall>w \<in> set (p_workers Q). unread w) \<and>
      (\<exists>ch. p_chans Q p = Some ch \<and> ch_cap ch \<le> length (ch_buf ch)) \<and> suffix (chan_tasks Q q) (chan_tasks P q)"
    using assms(1)
  proof cases
    case (ready i)
    then show ?thesis using b at [of i] put_worker_all [OF b(2), where i = i] by (auto simp: unread_def chan_tasks_def)
  next
    case (receive i p' ch x xs st)
    then have "p' \<noteq> p" using at [of i] by (auto simp: unread_def)
    then show ?thesis
      using receive b at [of i] put_worker_all [of "put_chan p' (ch\<lparr>ch_buf := xs\<rparr>) P" unread, where i = i and st = st]
      by (auto simp: unread_def chan_tasks_def suffix_Cons)
  next
    case (finish i b rn)
    then show ?thesis using b at [of i] put_worker_all [OF b(2), where i = i] by (auto simp: unread_def chan_tasks_def)
  next
    case (leave i b)
    then show ?thesis using b at [of i] put_worker_all [OF b(2), where i = i] by (auto simp: unread_def chan_tasks_def)
  qed (use assms(3,4) b at in \<open>auto simp: unread_def chan_tasks_def count_replicate fresh_worker_def make_chan_def
    split: if_splits\<close>)
  then show ?thesis by (simp add: blocked_def unread_def)
qed

lemma blocked_moves:
  assumes "pool_move\<^sup>*\<^sup>* P Q" and "blocked p r P" and "\<not> p_stop Q" and "members p Q = members p P"
  shows "blocked p r Q \<and> suffix (chan_tasks Q q) (chan_tasks P q)"
  using assms
proof (induction rule: rtranclp_induct)
  case (step Q R)
  have "members p P \<le> members p Q" using step(1) by (induction rule: rtranclp_induct) (auto dest: members_grow intro: order_trans)
  then have m: "members p Q = members p P" "members p R = members p Q" using members_grow [OF step(2), of p] step(6) by auto
  have "\<not> p_stop Q" using move_grows [OF step(2)] step(5) by blast
  then have "blocked p r Q" "suffix (chan_tasks Q q) (chan_tasks P q)" using step(3) step(4) m(1) by blast+
  then show ?case using blocked_move [OF step(2) _ step(5) m(2)] suffix_order.trans by blast
qed simp

end
