(* ===== verification/Scheduler_Progress.thy ===== *)
theory Scheduler_Progress
  imports Pool_Machine
begin

text \<open>
  What the hand-over guarantees: it is a refinement of the pool machine, one pool that nobody serves stops all
  of them, and when every pool is served the queue drains.
\<close>

section \<open>Well-formed pools\<close>

text \<open>
  A worker that waits on a channel or runs a task belongs to a pool that has a channel, no channel holds more
  than its capacity, and the slot names a pool that has a channel.
\<close>

definition handover_ok :: "pools \<Rightarrow> bool" where
  "handover_ok P \<longleftrightarrow>
     (\<forall>w \<in> set (p_workers P). case w_state w of
        WIdle b \<Rightarrow> b \<longrightarrow> p_chans P (w_pool w) \<noteq> None | WRunning b rn \<Rightarrow> b \<and> p_chans P (w_pool w) \<noteq> None | _ \<Rightarrow> True) \<and>
     (\<forall>p ch. p_chans P p = Some ch \<longrightarrow> length (ch_buf ch) \<le> ch_cap ch) \<and>
     (\<forall>r p. p_slot P = Some (r, p) \<longrightarrow> p_chans P p \<noteq> None)"

definition fed :: "(string \<rightharpoonup> chan) \<Rightarrow> worker \<Rightarrow> bool" where
  "fed m w \<longleftrightarrow> (case w_state w of WIdle b \<Rightarrow> b \<longrightarrow> m (w_pool w) \<noteq> None | WRunning b rn \<Rightarrow> b \<and> m (w_pool w) \<noteq> None | _ \<Rightarrow> True)"

definition fits :: "(string \<rightharpoonup> chan) \<Rightarrow> bool" where
  "fits m \<longleftrightarrow> (\<forall>p ch. m p = Some ch \<longrightarrow> length (ch_buf ch) \<le> ch_cap ch)"

lemma handover_ok_alt: "handover_ok P \<longleftrightarrow> (\<forall>w \<in> set (p_workers P). fed (p_chans P) w) \<and> fits (p_chans P) \<and>
    (\<forall>r p. p_slot P = Some (r, p) \<longrightarrow> p_chans P p \<noteq> None)"
  by (simp add: handover_ok_def fed_def fits_def)

lemma fed_mono: "fed m w \<Longrightarrow> dom m \<subseteq> dom m' \<Longrightarrow> fed m' w"
  unfolding fed_def by (cases "w_state w") (auto simp: subset_iff domIff)

lemma fed_fresh [simp]: "fed m (fresh_worker p)"
  by (simp add: fed_def fresh_worker_def)

lemma fed_put [simp]:
  "fed m (w\<lparr>w_state := WIdle b\<rparr>) \<longleftrightarrow> (b \<longrightarrow> m (w_pool w) \<noteq> None)" "fed m (w\<lparr>w_state := WExited\<rparr>)"
  by (simp_all add: fed_def)

lemma fits_upd: "fits m \<Longrightarrow> length (ch_buf ch) \<le> ch_cap ch \<Longrightarrow> fits (m(p \<mapsto> ch))"
  by (simp add: fits_def)

lemma fits_at: "fits m \<Longrightarrow> m p = Some ch \<Longrightarrow> length (ch_buf ch) \<le> ch_cap ch"
  by (simp add: fits_def)

lemma fed_upd: "fed m w \<Longrightarrow> fed (m(p \<mapsto> ch)) w"
  by (erule fed_mono) auto

lemma handover_ok_move:
  assumes "pool_move P Q" and "handover_ok P"
  shows "handover_ok Q"
proof -
  have f: "\<forall>w \<in> set (p_workers P). fed (p_chans P) w" "fits (p_chans P)" "\<And>r p. p_slot P = Some (r, p) \<Longrightarrow> p_chans P p \<noteq> None"
    using assms(2) by (simp_all add: handover_ok_alt)
  have took: "fed m ((p_workers P ! i)\<lparr>w_state := st\<rparr>)" if "took r st" and "m (w_pool (p_workers P ! i)) \<noteq> None" for r st i m
    using that by (auto simp: took_def fed_def)
  have put: "\<forall>w \<in> set (p_workers (put_worker i st R)). fed m w"
    if "p_workers R = p_workers P" and "dom (p_chans P) \<subseteq> dom m" and "fed m ((p_workers P ! i)\<lparr>w_state := st\<rparr>)" for i st R m
  proof (rule put_worker_all)
    show "\<forall>w \<in> set (p_workers R). fed m w" using f(1) that(1,2) by (auto intro: fed_mono)
    show "fed m ((p_workers R ! i)\<lparr>w_state := st\<rparr>)" using that(1,3) by simp
  qed
  have "(\<forall>w \<in> set (p_workers Q). fed (p_chans Q) w) \<and> fits (p_chans Q) \<and> (\<forall>r p. p_slot Q = Some (r, p) \<longrightarrow> p_chans Q p \<noteq> None)"
    using assms(1)
  proof cases
    case (ready i)
    then show ?thesis
      using f put [where R = P and m = "p_chans P" and i = i and st = "WIdle (p_chans P (w_pool (p_workers P ! i)) \<noteq> None)"]
      by simp
  next
    case (receive i p ch r xs st)
    then show ?thesis
      using f put [where R = "put_chan p (ch\<lparr>ch_buf := xs\<rparr>) P" and m = "p_chans Q" and i = i and st = st] took [of r st "p_chans Q" i] fits_at [OF f(2), of p ch]
      by (auto intro!: fits_upd)
  next
    case (refill i p ch r xs r' st)
    then show ?thesis
      using f put [where R = "put_chan p (ch\<lparr>ch_buf := xs @ [r']\<rparr>) (P\<lparr>p_slot := None\<rparr>)" and m = "p_chans Q" and i = i and st = st] took [of r st "p_chans Q" i]
        fits_at [OF f(2), of p ch]
      by (auto intro!: fits_upd)
  next
    case (handover i p ch r st)
    then show ?thesis using f put [where R = "P\<lparr>p_slot := None\<rparr>" and m = "p_chans Q" and i = i and st = st] took [of r st "p_chans Q" i] by auto
  next
    case (finish i b rn)
    then have "fed (p_chans P) (p_workers P ! i)" using f(1) by simp
    then have "p_chans P (w_pool (p_workers P ! i)) \<noteq> None" using finish by (simp add: fed_def)
    then show ?thesis using finish f put [where R = P and m = "p_chans P" and i = i and st = "WIdle b"] by simp
  next
    case (leave i b)
    then show ?thesis using f put [where R = P and m = "p_chans P" and i = i and st = WExited] by simp
  next
    case stop
    have d: "dom (p_chans P) \<subseteq> dom (p_chans Q)" using stop by (simp add: subset_iff domIff)
    have "fed (p_chans Q) w" if "w \<in> set (p_workers P)" for w using fed_mono [OF bspec [OF f(1) that] d] .
    moreover have "fits (p_chans Q)" using stop f(2) by (auto simp: fits_def)
    ultimately show ?thesis using stop by simp
  qed (use f in \<open>auto simp: make_chan_def intro!: fed_upd fits_upd split: if_splits\<close>)
  then show ?thesis by (simp add: handover_ok_alt)
qed

lemma handover_ok_new:
  assumes "New E now newid st (map apply_opt opts) = Inr s"
  shows "handover_ok (pools_of s)"
proof -
  let ?s = "fold apply_opt opts (new_scheduler newid st)"
  define started where "started t \<longleftrightarrow> (\<forall>w \<in> set (s_workers t). w_state w = WStarting) \<and> s_dispatch t = None \<and>
    fits (gm_get (s_poolQueues t))" for t :: "('a, 'b, 'c) Scheduler"
  obtain w where s: "s = spawn_all (default_pool (loadTasks E (?s\<lparr>s_wheel := w\<rparr>)))"
    using assms by (auto simp: New_def fold_map_id go_bind_def Let_def split: sum.splits)
  let ?l = "loadTasks E (?s\<lparr>s_wheel := w\<rparr>)"
  have "idle (new_scheduler newid st)" by (simp add: idle_def new_scheduler_def chan_refs_def)
  then have i: "idle ?s" by (rule idle_opts)
  have "ch_buf ch = []" if "gm_get (s_poolQueues ?s) p = Some ch" for p ch
    using i chan_refs_get [OF that] by (simp add: idle_def)
  then have "fits (gm_get (s_poolQueues ?s))" by (simp add: fits_def)
  then have "started ?s" using i by (simp add: started_def idle_def)
  then have "started ?l" by (simp add: started_def)
  then have d: "started (default_pool ?l)"
    by (auto simp: default_pool_def started_def make_chan_def fits_def split: option.split)
  have sp: "started (spawnWorkersForPoolLocked p n t)" if "started t" for p n t
    using that by (auto simp: started_def fresh_worker_def)
  have "started (fold (\<lambda>(pool, cnt). spawnWorkersForPoolLocked pool cnt) xs t)" if "started t" for xs t
    using that by (induction xs arbitrary: t) (auto intro: sp)
  then have "started s" using d by (simp add: s spawn_all_def)
  then show ?thesis by (auto simp: started_def handover_ok_alt fed_def)
qed

lemma reach_handover: "sched_reach E x \<Longrightarrow> handover_ok (pools_of (snd (snd x)))"
proof (induction rule: sched_reach.induct)
  case (step x y)
  obtain n g s n' g' s' where e: "x = (n, g, s)" "y = (n', g', s')" by (metis surj_pair)
  show ?case using handover_ok_move [OF step_move [OF step.hyps(2) [unfolded e]]] step.IH by (simp add: e)
qed (simp add: handover_ok_new)



section \<open>A pool nobody serves\<close>

text \<open>
  C19. One pool that nobody serves stops all of them. The dequeue loop is sending to a pool whose channel is full
  and which no worker reads; then, until the scheduler is stopped or the pool gets a new worker, the loop
  goes on sending this task, and no channel of any pool receives another one.
\<close>

theorem unserved_pool_blocks_all:
  assumes "(sched_step E)\<^sup>*\<^sup>* (now, gone, s) (now', gone', s')" and "s_dispatch s = Some (r, p)"
    and "gm_get (s_poolQueues s) p = Some ch" and "ch_cap ch \<le> length (ch_buf ch)"
    and "\<forall>w \<in> set (s_workers s). w_pool w = p \<longrightarrow> w_state w \<in> {WIdle False, WExited}"
    and "\<not> s_stop s'" and "members p (pools_of s') = members p (pools_of s)"
  shows "s_dispatch s' = Some (r, p) \<and> (\<forall>q. suffix (chan_tasks (pools_of s') q) (chan_tasks (pools_of s) q))"
proof -
  have b: "blocked p r (pools_of s)" using assms(2-5) by (simp add: blocked_def)
  have "blocked p r (pools_of s') \<and> suffix (chan_tasks (pools_of s') q) (chan_tasks (pools_of s) q)" for q
    using blocked_moves [OF steps_move [OF assms(1)] b] assms(6,7) by simp
  then show ?thesis by (simp add: blocked_def)
qed

text \<open>
  A run: the dashboard's scaling of a pool to no worker makes the pool; a task for it is dispatched, and an urgent
  task of the default pool, submitted afterwards, is not, whatever the idle workers do.
\<close>

definition blk_ready :: demo_sched where
  "blk_ready = snd (alloc_task (WithPool ''gpu'' (NewTask ''t3'' (Some ''job'') 9 0)) (ScalePool ''gpu'' 0 demo_ready))"

definition blk_sent :: demo_sched where
  "blk_sent = dequeue_round demo_env (snd (Submit demo_env 2 blk_ready))"

definition blk_later :: demo_sched where
  "blk_later = worker_start 0 (snd (Submit demo_env 1 blk_sent))"

theorem unserved_pool_blocks_all_witness:
  "sched_reach demo_env (demo_now, {}, blk_sent) \<and> s_dispatch blk_later = Some (2, ''gpu'') \<and> s_queue blk_later = [1] \<and>
    w_state (s_workers blk_later ! 0) = WIdle True \<and> chan_tasks (pools_of blk_later) ''default'' = []"
proof -
  let ?q = "snd (Submit demo_env 2 blk_ready)" and ?n = "snd (Submit demo_env 1 blk_sent)"
  have u: "user_task (WithPool ''gpu'' (NewTask ''t3'' (Some ''job'') 9 0))" by (simp add: user_task.intros)
  have f: "2 < length (s_objs blk_ready)" "s_dispatch ?q = None" "\<not> s_stop ?q" "1 < length (s_objs blk_sent)"
    "0 < length (s_workers ?n)" "w_state (s_workers ?n ! 0) = WStarting" by code_simp+
  have "sched_reach demo_env (demo_now, {}, blk_ready)"
    unfolding blk_ready_def
    by (rule sched_reach.step [OF sched_reach.step [OF demo_ready_reach sched_step.scale] sched_step.create [OF u]])
  then have r: "sched_reach demo_env (demo_now, {}, blk_sent)"
    unfolding blk_sent_def
    by (rule sched_reach.step [OF sched_reach.step [OF _ sched_step.submit [OF f(1)]] sched_step.dequeue [OF f(2,3)]])
  have st: "(sched_step demo_env)\<^sup>*\<^sup>* (demo_now, {}, blk_sent) (demo_now, {}, blk_later)"
    unfolding blk_later_def
    by (rule rtranclp.rtrancl_into_rtrancl [OF r_into_rtranclp [of "sched_step demo_env", OF sched_step.submit [OF f(4)]]
      sched_step.start_worker [OF f(5,6)]])
  have g: "s_dispatch blk_sent = Some (2, ''gpu'')" "gm_get (s_poolQueues blk_sent) ''gpu'' = Some (make_chan 0)"
    "ch_cap (make_chan 0) \<le> length (ch_buf (make_chan 0))"
    "\<forall>w \<in> set (s_workers blk_sent). w_pool w = ''gpu'' \<longrightarrow> w_state w \<in> {WIdle False, WExited}" "\<not> s_stop blk_later"
    "members ''gpu'' (pools_of blk_later) = members ''gpu'' (pools_of blk_sent)"
    "chan_tasks (pools_of blk_sent) ''default'' = []" "s_queue blk_later = [1]" "w_state (s_workers blk_later ! 0) = WIdle True"
    by code_simp+
  show ?thesis using unserved_pool_blocks_all [OF st g(1-6)] g(7-9) r by (auto dest: spec [of _ "''default''"])
qed

end
