(* ===== verification/Scheduler_Drain.thy ===== *)
theory Scheduler_Drain
  imports Scheduler_Progress
begin

text \<open>
  Progress: when every pool that a queued task names has an idle worker, the queue drains.
\<close>

section \<open>What a run leaves of the tasks\<close>

definition pool_of :: "('job, 'rs) task \<Rightarrow> string" where
  "pool_of t = (if t_pool t = '''' then ''default'' else t_pool t)"

definition frozen :: "('job, 'rs) task \<Rightarrow> string \<times> string \<times> string \<times> int \<times> 'rs option \<times> int" where
  "frozen t = (t_id t, t_pool t, t_typeName t, t_priority t, t_retryStrategy t, t_attempts t)"

definition tshape :: "('job, 'rs, 'st) Scheduler \<Rightarrow> (string \<times> string \<times> string \<times> int \<times> 'rs option \<times> int) list" where
  "tshape s = map frozen (s_objs s)"

lemma tshape_upd: "(\<And>t. frozen (f t) = frozen t) \<Longrightarrow> tshape (upd_task r f s) = tshape s"
  unfolding tshape_def upd_task_def by (cases "r < length (s_objs s)") (simp_all add: map_update list_update_same_conv list_update_beyond)

lemma tshape_tracked: "(\<And>t. frozen (f t) = frozen t) \<Longrightarrow> tshape (upd_tracked k f s) = tshape s"
  by (simp add: upd_tracked_def tshape_upd split: option.split)

lemma tshape_frame [simp]:
  "tshape (untrack k s) = tshape s" "tshape (release_key k s) = tshape s" "tshape (call_cancel c s) = tshape s"
  "tshape (store_do g s) = tshape s" "tshape (recordHistory E r s) = tshape s" "tshape (set_worker i w s) = tshape s"
  "tshape (snd (new_ctx s)) = tshape s" "tshape (s\<lparr>s_successCount := n\<rparr>) = tshape s" "tshape (s\<lparr>s_dispatch := d\<rparr>) = tshape s"
  "tshape (s\<lparr>s_queue := q, s_queueSize := n\<rparr>) = tshape s"
  by (simp_all add: tshape_def recordHistory_def set_worker_def new_ctx_def)

lemma tshape_evict [simp]: "tshape (runTask_evict rn s) = tshape s"
  by (simp add: runTask_evict_def Let_def)

lemma frozen_upds [simp]:
  "frozen (t\<lparr>t_status := a\<rparr>) = frozen t" "frozen (t\<lparr>t_status := a, t_progress := b\<rparr>) = frozen t"
  "frozen (t\<lparr>t_cancel := c, t_status := a\<rparr>) = frozen t"
  by (simp_all add: frozen_def)

lemma tshape_running: "tshape (upd_task x (\<lambda>t. t\<lparr>t_cancel := c, t_status := StatusRunning\<rparr>) s) = tshape s"
  by (rule tshape_upd) (simp add: frozen_def)

lemma tshape_start: "tshape (snd (runTask_start E r s)) = tshape s"
  by (simp add: runTask_start_def Let_def prod.case_eq_if tshape_running split: option.split)

lemma tshape_success:
  assumes "t_typeName (task_at s r) = ''''"
  shows "tshape (finish_success E r s) = tshape s"
  using assms by (simp add: finish_success_def Let_def tshape_upd tshape_tracked)

lemma tshape_task:
  assumes "tshape s' = tshape s" and "r < n_objs s"
  shows "r < n_objs s'" "frozen (task_at s' r) = frozen (task_at s r)"
proof -
  show n: "r < n_objs s'" using arg_cong [OF assms(1), of length] assms(2) by (simp add: tshape_def)
  show "frozen (task_at s' r) = frozen (task_at s r)"
    using arg_cong [OF assms(1), of "\<lambda>l. l ! r"] assms(2) n by (simp add: tshape_def task_at_def)
qed

lemma frozen_fields:
  assumes "frozen t' = frozen t"
  shows "pool_of t' = pool_of t" "t_typeName t' = t_typeName t" "retry_ok E t' = retry_ok E t" "t_id t' = t_id t"
  using assms by (auto simp: frozen_def pool_of_def retry_ok_def retry_decision_def split: option.split)

section \<open>What else a run leaves\<close>

text \<open>The queue, the switches and the pools.\<close>

definition ctl :: "('job, 'rs, 'st) Scheduler \<Rightarrow> taskQueue \<times> bool \<times> bool" where
  "ctl s = (s_queue s, s_paused s, s_stop s)"

lemma ctl_frame [simp]:
  "ctl (untrack k s) = ctl s" "ctl (release_key k s) = ctl s" "ctl (call_cancel c s) = ctl s"
  "ctl (store_do g s) = ctl s" "ctl (recordHistory E r s) = ctl s" "ctl (set_worker i w s) = ctl s"
  "ctl (snd (new_ctx s)) = ctl s" "ctl (s\<lparr>s_successCount := n\<rparr>) = ctl s" "ctl (s\<lparr>s_dispatch := d\<rparr>) = ctl s"
  "ctl (upd_task r f s) = ctl s" "ctl (upd_tracked k f s) = ctl s"
  by (auto simp: ctl_def recordHistory_def set_worker_def new_ctx_def untrack_def release_key_def call_cancel_def
    store_do_def store_call_def upd_task_def upd_tracked_def split: option.split prod.split)

lemma ctl_start: "ctl (snd (runTask_start E r s)) = ctl s"
  by (simp add: runTask_start_def Let_def prod.case_eq_if split: option.split)

lemma ctl_evict [simp]: "ctl (runTask_evict rn s) = ctl s"
  by (simp add: runTask_evict_def Let_def)

lemma ctl_success: "t_typeName (task_at s r) = '''' \<Longrightarrow> ctl (finish_success E r s) = ctl s"
  by (simp add: finish_success_def Let_def)

section \<open>One task\<close>

text \<open>
  \<open>s\<close> dispatches \<open>r\<close> to its pool, worker \<open>i\<close> of the pool takes it, and begins to run it when it is tracked.
\<close>

definition hands_over :: "('rs, 'st) env \<Rightarrow> task_ref \<Rightarrow> ('job, 'rs, 'st) sys \<Rightarrow> ('job, 'rs, 'st) sys \<Rightarrow> bool" where
  "hands_over E r x y \<longleftrightarrow> (case (x, y) of ((now, gone, s), (now', gone', s')) \<Rightarrow>
     sched_step E x y \<and> s_dispatch s = Some (r, pool_of (task_at s r)) \<and> s_dispatch s' = None \<and>
     (\<exists>i < length (s_workers s). w_pool (s_workers s ! i) = pool_of (task_at s r) \<and>
        w_state (s_workers s ! i) = WIdle True \<and> took r (w_state (s_workers s' ! i)) \<and>
        (gm_get (s_tasks s) (t_id (task_at s r)) \<noteq> None \<longrightarrow> w_state (s_workers s' ! i) \<noteq> WIdle True)))"

text \<open>Every queued task is of a kind that the loop can serve now.\<close>

definition served :: "('rs, 'st) env \<Rightarrow> ('job, 'rs, 'st) Scheduler \<Rightarrow> task_ref \<Rightarrow> bool" where
  "served E s r \<longleftrightarrow> r < n_objs s \<and> t_typeName (task_at s r) = '''' \<and> retry_ok E (task_at s r) \<and>
     (\<exists>i < length (s_workers s). w_pool (s_workers s ! i) = pool_of (task_at s r) \<and> w_state (s_workers s ! i) = WIdle True) \<and>
     (\<exists>ch. gm_get (s_poolQueues s) (pool_of (task_at s r)) = Some ch \<and> ch_buf ch = [])"

lemma served_cong:
  assumes "tshape s' = tshape s" and "s_workers s' = s_workers s" and "s_poolQueues s' = s_poolQueues s" and "served E s r"
  shows "served E s' r"
proof -
  have r: "r < n_objs s" using assms(4) by (simp add: served_def)
  show ?thesis
    using assms(4) tshape_task [OF assms(1) r] frozen_fields(1,2) [OF tshape_task(2) [OF assms(1) r]] frozen_fields(3) [OF tshape_task(2) [OF assms(1) r], of E] assms(2,3)
    by (simp add: served_def)
qed

lemma pop_some:
  assumes "core_ok s" and "s_queue s \<noteq> []"
  obtains r q where "pop_queue s = (Some r, s\<lparr>s_queue := q, s_queueSize := s_queueSize s - 1\<rparr>)" "r \<in> set (s_queue s)"
    "mset (s_queue s) = add_mset r (mset q)"
proof -
  have o: "tq.ordered (prio s) (s_queue s)" using assms(1) by (simp add: core_ok_def)
  obtain r q where p: "heap_Pop (taskHeap (prio s)) (s_queue s) = Some (r, q)"
    using taskHeap_Pop_None [OF o] assms(2) by (cases "heap_Pop (taskHeap (prio s)) (s_queue s)") auto
  show thesis using that [of r q] taskHeap_Pop [OF o p] p by (simp add: pop_queue_def)
qed

text \<open>A tracked task that a worker received is run: \<open>worker\<close> makes it Running before \<open>runTask\<close> looks.\<close>

lemma start_tracked:
  assumes "gm_get (s_tasks s) (t_id (task_at s r)) = Some r'" and "r' < n_objs s" and "r < n_objs s"
  defines "v \<equiv> upd_tracked (t_id (task_at s r)) (\<lambda>t. t\<lparr>t_status := StatusRunning\<rparr>) s"
  shows "fst (runTask_start E r v) \<noteq> None"
proof -
  have v: "v = upd_task r' (\<lambda>t. t\<lparr>t_status := StatusRunning\<rparr>) s" using assms(1) by (simp add: v_def upd_tracked_def)
  have "t_id (task_at v r) = t_id (task_at s r)" "t_status (task_at v r') = StatusRunning"
    using assms(2,3) by (auto simp: v task_at_upd)
  then show ?thesis using assms(1) by (simp add: runTask_start_def Let_def prod.case_eq_if v)
qed

text \<open>A worker that is idle takes the task in the slot and, unless it was refused, runs it with success.\<close>

lemma take_and_run:
  assumes "core_ok s" and "s_dispatch s = Some (r, p)" and "i < length (s_workers s)" and "w_pool (s_workers s ! i) = p"
    and "w_state (s_workers s ! i) = WIdle True" and "gm_get (s_poolQueues s) p = Some ch" and "ch_buf ch = []"
    and "r < n_objs s" and "t_typeName (task_at s r) = ''''" and "retry_ok E (task_at s r)" and "pool_of (task_at s r) = p"
  obtains s2 s' where "hands_over E r (now, gone, s) (now, gone, s2)" "(sched_step E)\<^sup>*\<^sup>* (now, gone, s2) (now, gone, s')"
    "tshape s' = tshape s" "ctl s' = ctl s" "s_workers s' = s_workers s" "s_poolQueues s' = s_poolQueues s" "s_dispatch s' = None"
proof -
  define u where "u = s\<lparr>s_dispatch := None\<rparr>"
  define v where "v = upd_tracked (t_id (task_at u r)) (\<lambda>t. t\<lparr>t_status := StatusRunning\<rparr>) u"
  obtain rn w where w: "runTask_start E r v = (rn, w)" by (cases "runTask_start E r v")
  define st where "st = (case rn of None \<Rightarrow> WIdle True | Some n \<Rightarrow> WRunning True n)"
  define s2 where "s2 = set_worker i st w"
  have recv: "chan_recv (w_pool (s_workers s ! i)) s = Some (r, u)" using assms(2,4,6,7) by (simp add: chan_recv_def u_def)
  have take: "worker_take E i s = Some s2"
    using recv w by (simp add: worker_take_def Let_def v_def s2_def st_def split: option.split)
  have step: "sched_step E (now, gone, s) (now, gone, s2)" using sched_step.take [OF assms(3,5) take] .
  have "aux w = aux v" using aux_start [of E r v] unfolding w snd_conv .
  then have a: "aux w = aux u" by (simp add: v_def)
  have sh: "tshape w = tshape s" "ctl w = ctl s"
    using tshape_start [of E r v] ctl_start [of E r v] w by (simp_all add: v_def tshape_tracked u_def)
  have wk: "s_workers w = s_workers s" "s_poolQueues w = s_poolQueues s" "s_dispatch w = None"
    using auxD [OF a] by (simp_all add: u_def)
  have tk: "took r st" using start_ref w by (auto simp: took_def st_def split: option.split)
  have wi: "s_workers s2 ! i = (s_workers s ! i)\<lparr>w_state := st\<rparr>" using assms(3) wk by (simp add: s2_def set_worker_def)
  have run: "st \<noteq> WIdle True" if "gm_get (s_tasks s) (t_id (task_at s r)) = Some r'" for r'
    using start_tracked [of u r r' E] tracked_ref [OF assms(1) that] assms(8) that w by (auto simp: u_def v_def st_def task_at_def)
  have ho: "hands_over E r (now, gone, s) (now, gone, s2)"
    using step assms(2-5,11) tk wi run wk by (auto simp: hands_over_def s2_def set_worker_def)
  show thesis
  proof (cases rn)
    case None
    then have "s_workers s2 = s_workers s"
      using wk assms(3,5) by (simp add: s2_def st_def set_worker_def list_update_same_conv)
    then show thesis using that [OF ho rtranclp.rtrancl_refl] sh wk by (simp add: s2_def) (simp add: set_worker_def)
  next
    case (Some n)
    then have n: "r_task n = r" "st = WRunning True n" using start_ref w by (auto simp: st_def)
    define k where "k = release_key (t_key (task_at s2 r)) s2"
    define e where "e = runTask_evict n (finish_success E r k)"
    have sh2: "tshape k = tshape s" "ctl k = ctl s" using sh by (simp_all add: k_def s2_def)
    have k2: "tshape s2 = tshape s" using sh by (simp add: s2_def)
    have fr: "t_typeName (task_at k r) = ''''" "retry_ok E (task_at s2 r)"
      using frozen_fields(2) [OF tshape_task(2) [OF sh2(1) assms(8)]] assms(9,10)
        frozen_fields(3) [OF tshape_task(2) [OF k2 assms(8)], of E] by simp_all
    have "aux e = aux s2" by (simp add: e_def k_def)
    then have wk2: "s_workers e = s_workers s2" "s_poolQueues e = s_poolQueues s" "s_dispatch e = None"
      using auxD [of e s2] wk by (simp_all add: s2_def) (simp_all add: set_worker_def)
    have "runTask_done E now '''' n False s2 = Inr e" by (simp add: runTask_done_def Let_def go_bind_def n(1) e_def k_def)
    then have "sched_step E (now, gone, s2) (now, gone, set_worker i (WIdle True) e)"
      by (rule sched_step.finish [of i s2 True n, rotated 3]) (use assms(3) wk wi n fr(2) in \<open>simp_all add: s2_def set_worker_def\<close>)
    moreover have "s_workers (set_worker i (WIdle True) e) = s_workers s"
      using wk2 wk assms(3,5) by (simp add: set_worker_def s2_def list_update_same_conv)
    moreover have "tshape e = tshape s" "ctl e = ctl s" using sh2 fr(1) by (simp_all add: e_def tshape_success ctl_success)
    ultimately show thesis
      using that [OF ho r_into_rtranclp] wk2 by (simp add: set_worker_def tshape_def ctl_def)
  qed
qed

lemma served_at:
  assumes "served E s r"
  obtains i ch where "i < length (s_workers s)" "w_pool (s_workers s ! i) = pool_of (task_at s r)"
    "w_state (s_workers s ! i) = WIdle True" "gm_get (s_poolQueues s) (pool_of (task_at s r)) = Some ch" "ch_buf ch = []"
  using assms by (auto simp: served_def)

text \<open>One round: the first task of the queue is dispatched, taken and done.\<close>

lemma serve_one:
  assumes "sched_reach E (now, gone, s)" and "\<not> s_paused s" and "\<not> s_stop s" and "s_dispatch s = None" and "s_queue s \<noteq> []"
    and "\<forall>r \<in> set (s_queue s). served E s r"
  obtains r s1 s2 s' where "sched_step E (now, gone, s) (now, gone, s1)" "hands_over E r (now, gone, s1) (now, gone, s2)"
    "(sched_step E)\<^sup>*\<^sup>* (now, gone, s2) (now, gone, s')" "mset (s_queue s) = add_mset r (mset (s_queue s'))"
    "tshape s' = tshape s" "s_workers s' = s_workers s" "s_poolQueues s' = s_poolQueues s" "s_dispatch s' = None"
    "s_paused s' = s_paused s" "s_stop s' = s_stop s"
proof -
  obtain r q where p: "pop_queue s = (Some r, s\<lparr>s_queue := q, s_queueSize := s_queueSize s - 1\<rparr>)" and r: "r \<in> set (s_queue s)"
    and m: "mset (s_queue s) = add_mset r (mset q)" by (rule pop_some [OF reach_core [OF assms(1)] assms(5)])
  have sv: "served E s r" using assms(6) r by blast
  obtain i ch where w: "i < length (s_workers s)" "w_pool (s_workers s ! i) = pool_of (task_at s r)"
    "w_state (s_workers s ! i) = WIdle True" "gm_get (s_poolQueues s) (pool_of (task_at s r)) = Some ch" "ch_buf ch = []"
    by (rule served_at [OF sv])
  define s1 where "s1 = s\<lparr>s_queue := q, s_queueSize := s_queueSize s - 1, s_dispatch := Some (r, pool_of (task_at s r))\<rparr>"
  have d: "dequeue_round E s = s1"
    using p w(4) assms(2) by (simp add: dequeue_round_def dispatchTask_def Let_def pool_of_def task_at_def s1_def split: if_splits)
  have st: "sched_step E (now, gone, s) (now, gone, s1)" unfolding d [symmetric] by (rule sched_step.dequeue [OF assms(4,3)])
  have c1: "core_ok s1" using reach_core [OF sched_reach.step [OF assms(1) st]] .
  have t1: "task_at s1 x = task_at s x" for x by (simp add: task_at_def s1_def)
  obtain s2 s' where h: "hands_over E r (now, gone, s1) (now, gone, s2)" "(sched_step E)\<^sup>*\<^sup>* (now, gone, s2) (now, gone, s')"
    "tshape s' = tshape s1" "ctl s' = ctl s1" "s_workers s' = s_workers s1" "s_poolQueues s' = s_poolQueues s1" "s_dispatch s' = None"
    by (rule take_and_run [OF c1, of r "pool_of (task_at s r)" i ch E now gone])
      (use w sv in \<open>simp_all add: s1_def task_at_def served_def\<close>)
  show thesis using that [OF st h(1,2)] h(3-7) m by (simp add: s1_def tshape_def ctl_def)
qed

section \<open>The whole queue\<close>


text \<open>The two queued tasks of the demonstration, with one worker started.\<close>

definition drain_start :: demo_sched where
  "drain_start = worker_start 0 demo_queued"


end
