(* ===== verification/Calendar.thy ===== *)
theory Calendar
  imports Cron
begin

text \<open>
  The calendar arithmetic of \<open>Cron\<close> is right: on valid dates \<open>civil_of_day\<close> is the inverse of
  \<open>civil_day\<close>. Years begin in March and are grouped in eras of 400 years, 146097 days.
\<close>

section \<open>Valid dates\<close>

definition leap :: "int \<Rightarrow> bool" where
  "leap y \<longleftrightarrow> 4 dvd y \<and> \<not> 100 dvd y \<or> 400 dvd y"

definition month_days :: "int \<Rightarrow> int \<Rightarrow> int" where
  "month_days y m = (if m = 2 then (if leap y then 29 else 28) else if m \<in> {4, 6, 9, 11} then 30 else 31)"

definition valid_date :: "int \<Rightarrow> int \<Rightarrow> int \<Rightarrow> bool" where
  "valid_date y m d \<longleftrightarrow> 1 \<le> m \<and> m \<le> 12 \<and> 1 \<le> d \<and> d \<le> month_days y m"

section \<open>The year of a day of an era\<close>

definition yoe_num :: "int \<Rightarrow> int" where
  "yoe_num d = d - d div 1460 + d div 36524 - d div 146096"

lemma yoe_num_mono:
  assumes "0 \<le> a" and "a \<le> b" and "b < 146096"
  shows "yoe_num a \<le> yoe_num b"
proof -
  have "a div 36524 \<le> b div 36524" using assms by (intro zdiv_mono1) simp_all
  moreover have "b div 1460 - a div 1460 \<le> b - a" using assms by linarith
  ultimately show ?thesis using assms by (simp add: yoe_num_def div_pos_pos_trivial)
qed

text \<open>Within an era the estimate is right at the first and the last day of each year.\<close>

definition yoe_ends :: "int \<Rightarrow> bool" where
  "yoe_ends y \<longleftrightarrow> 365 * y \<le> yoe_num (yday_start y) \<and> yoe_num (min 146095 (yday_start (y + 1) - 1)) < 365 * (y + 1) \<and>
     yday_start y < 146096 \<and> 0 \<le> yday_start y"

lemma yoe_ends_all: "list_all yoe_ends [0..399]"
  by code_simp

lemma yoe_correct:
  assumes y: "0 \<le> y" "y < 400" and d: "yday_start y \<le> d" "d < yday_start (y + 1)" "d < 146097"
  shows "yoe_num d div 365 = y"
proof (cases "d = 146096")
  case True
  have "y = 399"
  proof (rule ccontr)
    assume "y \<noteq> 399"
    then have "y + 1 \<le> 399" using y by simp
    then have "yoe_ends (y + 1)" using yoe_ends_all y by (simp add: list_all_iff)
    then show False using d(2) True by (simp add: yoe_ends_def)
  qed
  then show ?thesis using True by (simp add: yoe_num_def)
next
  case False
  have e: "yoe_ends y" using yoe_ends_all y by (simp add: list_all_iff)
  then have "365 * y \<le> yoe_num d" using d False yoe_num_mono [of "yday_start y" d] by (simp add: yoe_ends_def)
  moreover have "yoe_num d < 365 * (y + 1)"
  proof -
    have "min 146095 (yday_start (y + 1) - 1) < (146096 :: int)" by linarith
    then have "yoe_num d \<le> yoe_num (min 146095 (yday_start (y + 1) - 1))"
      using e d False by (intro yoe_num_mono) (simp_all add: yoe_ends_def)
    then show ?thesis using e by (simp add: yoe_ends_def)
  qed
  ultimately show ?thesis by (intro int_div_pos_eq [of _ _ _ "yoe_num d - 365 * y"]) simp_all
qed

section \<open>From a date to its day and back\<close>

lemma yday_start_era: "yday_start (y + 400 * era) = yday_start y + 146097 * era"
proof -
  have "(y + 400 * era) div 4 = y div 4 + 100 * era" using div_mult_self1 [of 4 y "100 * era"] by (simp add: mult.commute)
  moreover have "(y + 400 * era) div 100 = y div 100 + 4 * era" using div_mult_self1 [of 100 y "4 * era"] by (simp add: mult.commute)
  moreover have "(y + 400 * era) div 400 = y div 400 + era" using div_mult_self1 [of 400 y era] by (simp add: mult.commute)
  ultimately show ?thesis by (simp add: yday_start_def)
qed

lemma div_add_one:
  assumes "0 < (k :: int)"
  shows "(y + 1) div k = y div k + (if k dvd y + 1 then 1 else 0)"
proof (cases "y mod k + 1 = k")
  case True
  have "k * (y div k + 1) = k * (y div k) + k" by (simp add: distrib_left)
  then have e: "y + 1 = k * (y div k + 1)" using True mult_div_mod_eq [of k y] by linarith
  then have "(y + 1) div k = y div k + 1" using assms by (metis less_irrefl nonzero_mult_div_cancel_left)
  moreover have "k dvd y + 1" using e by (metis dvd_triv_left)
  ultimately show ?thesis by simp
next
  case False
  have r: "0 \<le> y mod k" "y mod k < k" using assms by simp_all
  have e: "y + 1 = k * (y div k) + (y mod k + 1)" by simp
  have l: "0 \<le> y mod k + 1" "y mod k + 1 < k" using r False by linarith+
  have "(y + 1) div k = y div k" using e l by (rule int_div_pos_eq)
  moreover have "(y + 1) mod k = y mod k + 1" using e l by (rule int_mod_pos_eq)
  ultimately show ?thesis using r by (simp add: dvd_eq_mod_eq_0)
qed

lemma year_days: "yday_start (y + 1) - yday_start y = (if leap (y + 1) then 366 else 365)"
proof -
  have "400 dvd y + 1 \<Longrightarrow> 100 dvd y + 1" "100 dvd y + 1 \<Longrightarrow> 4 dvd y + 1"
    using dvd_trans [of 100 400 "y + 1"] dvd_trans [of 4 100 "y + 1"] by simp_all
  then show ?thesis by (auto simp: yday_start_def leap_def div_add_one)
qed

lemma yday_start_small: "0 \<le> y \<Longrightarrow> y < 400 \<Longrightarrow> yday_start y = 365 * y + y div 4 - y div 100"
  by (simp add: yday_start_def)

text \<open>The month of a day of the year.\<close>

lemma month_start_Suc: "month_start (mp + 1) = (153 * mp + 155) div 5"
  by (simp add: month_start_def)

lemma month_of_doy:
  assumes "0 \<le> mp" and "month_start mp \<le> doy" and "doy < month_start (mp + 1)"
  shows "(5 * doy + 2) div 153 = mp"
proof -
  have "153 * mp \<le> 5 * doy + 2" "5 * doy + 2 < 153 * mp + 153"
    using assms(2,3) month_start_def [of mp] month_start_Suc [of mp] by linarith+
  then show ?thesis by (intro int_div_pos_eq [of _ _ _ "5 * doy + 2 - 153 * mp"]) simp_all
qed

lemma era_of_day:
  assumes "yoe = y' mod 400" and "era = y' div 400" and "0 \<le> doy" and "doy < yday_start (yoe + 1) - yday_start yoe"
  shows "(yday_start y' + doy) div 146097 = era" and "(yday_start y' + doy) mod 146097 = yday_start yoe + doy"
    and "0 \<le> yday_start yoe" and "yday_start (yoe + 1) \<le> 146097"
proof -
  have y: "0 \<le> yoe" "yoe < 400" "y' = yoe + 400 * era" using assms(1,2) by simp_all
  then have e: "yoe_ends yoe" using yoe_ends_all by (simp add: list_all_iff)
  then show n: "0 \<le> yday_start yoe" by (simp add: yoe_ends_def)
  show l: "yday_start (yoe + 1) \<le> 146097"
  proof (cases "yoe = 399")
    case False
    then have "yoe_ends (yoe + 1)" using y yoe_ends_all by (simp add: list_all_iff)
    then show ?thesis by (simp add: yoe_ends_def)
  qed (simp add: yday_start_def)
  have "yday_start y' + doy = 146097 * era + (yday_start yoe + doy)" using y(3) yday_start_era [of yoe era] by simp
  moreover have "0 \<le> yday_start yoe + doy" "yday_start yoe + doy < 146097" using assms(3,4) n l by simp_all
  ultimately show "(yday_start y' + doy) div 146097 = era" "(yday_start y' + doy) mod 146097 = yday_start yoe + doy"
    by (rule int_div_pos_eq, rule int_mod_pos_eq)
qed

lemma civil_of_yday:
  assumes "0 \<le> mp" and "mp < 12" and "month_start mp \<le> doy" and "doy < month_start (mp + 1)"
    and "doy < yday_start (y' + 1) - yday_start y'" and "0 \<le> doy"
  shows "civil_of_day (yday_start y' + doy - epoch_day) =
    (if mp < 10 then (y', mp + 3, doy - month_start mp + 1) else (y' + 1, mp - 9, doy - month_start mp + 1))"
proof -
  define yoe era where "yoe = y' mod 400" and "era = y' div 400"
  have y: "0 \<le> yoe" "yoe < 400" "y' = yoe + 400 * era" by (simp_all add: yoe_def era_def)
  have "doy < yday_start (yoe + 1) - yday_start yoe"
    using assms(5) yday_start_era [of yoe era] yday_start_era [of "yoe + 1" era] y(3) by (simp add: ac_simps)
  note E = era_of_day [OF yoe_def era_def assms(6) this] this
  have yo: "yoe_num (yday_start yoe + doy) div 365 = yoe"
    using y E(3,4,5) assms(6) by (intro yoe_correct) simp_all
  have dy: "yday_start yoe + doy - (365 * yoe + yoe div 4 - yoe div 100) = doy"
    using yday_start_small [OF y(1,2)] by simp
  have mp: "(5 * doy + 2) div 153 = mp" using assms(1,3,4) by (rule month_of_doy)
  have yy: "yoe + era * 400 = y'" using y(3) by simp
  have z: "yday_start y' + doy - epoch_day + epoch_day = yday_start y' + doy" by simp
  show ?thesis
    unfolding civil_of_day_def Let_def z E(1,2) yo [unfolded yoe_num_def] dy mp yy using assms(1,2) by simp
qed

lemma civil_of_civil_day:
  assumes "valid_date y m d"
  shows "civil_of_day (civil_day y m d) = (y, m, d)"
proof -
  define y' mp where "y' = (if m \<le> 2 then y - 1 else y)" and "mp = (m + 9) mod 12"
  have m: "1 \<le> m" "m \<le> 12" "1 \<le> d" "d \<le> month_days y m" using assms by (simp_all add: valid_date_def)
  have yd: "yday_start y - yday_start (y - 1) = (if leap y then 366 else 365)" using year_days [of "y - 1"] by simp
  have "m = 1 \<or> m = 2 \<or> m = 3 \<or> m = 4 \<or> m = 5 \<or> m = 6 \<or> m = 7 \<or> m = 8 \<or> m = 9 \<or> m = 10 \<or> m = 11 \<or> m = 12"
    using m(1,2) by presburger
  then have "0 \<le> mp \<and> mp < 12 \<and> month_start mp + d - 1 < month_start (mp + 1) \<and>
      month_start mp + (d - 1) < yday_start (y' + 1) - yday_start y' \<and> 0 \<le> month_start mp \<and>
      m = (if mp < 10 then mp + 3 else mp - 9) \<and> y = (if mp < 10 then y' else y' + 1)"
    using m(3,4) by (elim disjE) (auto simp: mp_def y'_def year_days yd month_days_def month_start_def split: if_splits)
  then have ml: "0 \<le> mp" "mp < 12" "month_start mp + d - 1 < month_start (mp + 1)"
      "month_start mp + (d - 1) < yday_start (y' + 1) - yday_start y'" "0 \<le> month_start mp"
    and mm: "m = (if mp < 10 then mp + 3 else mp - 9)" "y = (if mp < 10 then y' else y' + 1)" by blast+
  show ?thesis
    using civil_of_yday [of mp "month_start mp + (d - 1)" y'] ml mm m(3)
    by (auto simp: civil_day_def Let_def y'_def [symmetric] mp_def [symmetric] add.assoc split: if_splits)
qed

text \<open>Every day lies in a year that begins in March.\<close>

lemma year_of_day_era:
  assumes "0 \<le> doe" and "doe < yday_start (int n)"
  shows "\<exists>y. yday_start y \<le> doe \<and> doe < yday_start (y + 1)"
  using assms
proof (induction n)
  case 0
  then show ?case by (simp add: yday_start_def)
next
  case (Suc n)
  then show ?case by (cases "doe < yday_start (int n)") (auto simp: not_less ac_simps)
qed

lemma year_of_day: "\<exists>y. yday_start y \<le> z \<and> z < yday_start (y + 1)"
proof -
  have "\<exists>y. yday_start y \<le> z mod 146097 \<and> z mod 146097 < yday_start (y + 1)"
    by (rule year_of_day_era [of _ 400]) (simp_all add: yday_start_def)
  then obtain y where "yday_start y \<le> z mod 146097" "z mod 146097 < yday_start (y + 1)" by blast
  then have "yday_start (y + 400 * (z div 146097)) \<le> z" "z < yday_start (y + 1 + 400 * (z div 146097))"
    using mult_div_mod_eq [of 146097 z] unfolding yday_start_era by linarith+
  then show ?thesis by (intro exI [of _ "y + 400 * (z div 146097)"]) (simp add: ac_simps)
qed

text \<open>The date of a day is valid, and \<open>civil_day\<close> gives the day back.\<close>

lemma civil_day_civil_of:
  obtains y m d where "civil_of_day day = (y, m, d)" and "valid_date y m d" and "civil_day y m d = day"
proof -
  obtain y' where y': "yday_start y' \<le> day + epoch_day" "day + epoch_day < yday_start (y' + 1)" using year_of_day by blast
  define doy mp where "doy = day + epoch_day - yday_start y'" and "mp = (5 * doy + 2) div 153"
  have doy: "0 \<le> doy" "doy < yday_start (y' + 1) - yday_start y'" "day = yday_start y' + doy - epoch_day"
    using y' by (simp_all add: doy_def)
  then have b: "doy \<le> 365" using year_days [of y'] by (simp split: if_splits)
  have "0 \<le> mp" "mp < 12" "153 * mp \<le> 5 * doy + 2" "5 * doy + 2 < 153 * mp + 153"
    using doy(1) b unfolding mp_def by linarith+
  moreover from this have ms: "month_start mp \<le> doy" "doy < month_start (mp + 1)"
    using month_start_def [of mp] month_start_Suc [of mp] by linarith+
  ultimately have c: "civil_of_day day = (if mp < 10 then (y', mp + 3, doy - month_start mp + 1) else (y' + 1, mp - 9, doy - month_start mp + 1))"
    unfolding doy(3) using doy(1,2) by (intro civil_of_yday)
  define y m d where "y = (if mp < 10 then y' else y' + 1)" and "m = (if mp < 10 then mp + 3 else mp - 9)" and "d = doy - month_start mp + 1"
  have "mp = 0 \<or> mp = 1 \<or> mp = 2 \<or> mp = 3 \<or> mp = 4 \<or> mp = 5 \<or> mp = 6 \<or> mp = 7 \<or> mp = 8 \<or> mp = 9 \<or> mp = 10 \<or> mp = 11"
    using \<open>0 \<le> mp\<close> \<open>mp < 12\<close> by presburger
  then have v: "valid_date y m d \<and> civil_day y m d = day"
    using ms doy year_days [of y']
    by (elim disjE) (auto simp: valid_date_def y_def m_def d_def month_days_def month_start_def civil_day_def Let_def split: if_splits)
  show ?thesis using c v by (intro that [of y m d]) (simp_all add: y_def m_def d_def)
qed

end
