(* ===== verification/Cron_Props.thy ===== *)
theory Cron_Props
  imports Calendar
begin

text \<open>
  The properties of the cron matcher: the meaning of a field, and what the search for the next
  execution returns, for every specification and time zone.
\<close>

section \<open>The search for the next execution\<close>

text \<open>
  C25. \<open>nextExecution\<close> always returns, with a later time at a distance of whole minutes and at most
  365 days. Either it is the first matching minute after the start; or no minute of the next 365 days
  matches, and it is the last of them.
\<close>

theorem nextExecution_first_match:
  "\<exists>k. 0 < k \<and> k \<le> 525600 \<and> nextExecution zone start fs = start + k * minute_ns \<and>
     (\<forall>j. 0 < j \<and> j < k \<longrightarrow> \<not> cron_match zone (start + j * minute_ns) fs) \<and>
     (cron_match zone (start + k * minute_ns) fs \<or> k = 525600)"
proof (cases "nextExecution_loop zone fs 0 (start + minute_ns)")
  case None
  have n: "\<not> cron_match zone (start + j * minute_ns) fs" if "0 < j" "j \<le> 525600" for j
  proof -
    have e: "start + minute_ns + (j - 1) * minute_ns = start + j * minute_ns" by (simp add: algebra_simps)
    show ?thesis using nextExecution_loop_None [OF None, of "j - 1", unfolded e] that by simp
  qed
  then show ?thesis
    using None by (intro exI [of _ 525600]) (simp add: nextExecution_def)
next
  case (Some u)
  then obtain k where k: "0 \<le> k" "k < 525600" "u = start + minute_ns + k * minute_ns" "cron_match zone u fs"
    "\<forall>j. 0 \<le> j \<and> j < k \<longrightarrow> \<not> cron_match zone (start + minute_ns + j * minute_ns) fs"
    using nextExecution_loop_Some [OF Some] by auto
  have "\<not> cron_match zone (start + j * minute_ns) fs" if "0 < j" "j < k + 1" for j
  proof -
    have "start + minute_ns + (j - 1) * minute_ns = start + j * minute_ns" by (simp add: algebra_simps)
    then show ?thesis using k(5) that by (metis diff_ge_0_iff_ge diff_less_eq int_one_le_iff_zero_less)
  qed
  then show ?thesis
    using Some k by (intro exI [of _ "k + 1"]) (auto simp: nextExecution_def algebra_simps)
qed

text \<open>Five past every hour, from the epoch on.\<close>

definition demo_fields :: "string list" where
  "demo_fields = Fields ''5 * * * *''"

theorem nextExecution_first_match_witness:
  "\<exists>k. nextExecution (\<lambda>_. 0) 0 demo_fields = k * minute_ns \<and> k = 5 \<and>
     (\<forall>j. 0 < j \<and> j < k \<longrightarrow> \<not> cron_match (\<lambda>_. 0) (j * minute_ns) demo_fields)"
proof -
  have n: "nextExecution (\<lambda>_. 0) 0 demo_fields = 5 * minute_ns" by code_simp
  obtain k where k: "nextExecution (\<lambda>_. 0) 0 demo_fields = 0 + k * minute_ns"
    "\<forall>j. 0 < j \<and> j < k \<longrightarrow> \<not> cron_match (\<lambda>_. 0) (0 + j * minute_ns) demo_fields"
    using nextExecution_first_match by blast
  then have "k = 5" using n by (simp add: minute_ns_def)
  then show ?thesis using k by simp
qed

section \<open>The meaning of a field\<close>

text \<open>
  A field written as a comma-separated list of numbers, the way the documentation describes it,
  matches a value of the clock exactly when the value is one of these numbers; \<open>*\<close> matches everything.
\<close>

theorem matchField_list:
  assumes "ns \<noteq> []" and "list_all (\<lambda>n. 0 \<le> n) ns" and "0 \<le> v"
  shows "(matchField (Itoa v) (Join CHR '','' (map Itoa ns)) \<longleftrightarrow> v \<in> set ns) \<and> matchField (Itoa v) ''*''"
  using matchField_numbers [OF assms(1) _ assms(3)] assms(2) by (simp add: matchField_iff list_all_iff)

theorem matchField_list_witness:
  "Join CHR '','' (map Itoa [0, 15, 30]) = ''0,15,30'' \<and> matchField (Itoa 15) ''0,15,30'' \<and> \<not> matchField (Itoa 5) ''0,15,30''"
proof -
  have j: "Join CHR '','' (map Itoa [0, 15, 30]) = ''0,15,30''" by code_simp
  show ?thesis
    using matchField_list [of "[0, 15, 30]" 15] matchField_list [of "[0, 15, 30]" 5] unfolding j by auto
qed

section \<open>Matching a date\<close>



section \<open>Specifications no date satisfies\<close>

definition never_fields :: "string list" where
  "never_fields = Fields ''0 0 31 2 *''"

lemma never_matches: "\<not> cron_match zone t never_fields"
proof -
  obtain y m d where c: "civil_of_day (local_sec zone t div 86400) = (y, m, d)" "valid_date y m d"
    using civil_day_civil_of by blast
  have f: "never_fields ! 2 = Join CHR '','' (map Itoa [31])" "never_fields ! 3 = Join CHR '','' (map Itoa [2])" by code_simp+
  have "\<not> (matchField (Itoa d) (never_fields ! 2) \<and> matchField (Itoa m) (never_fields ! 3))"
    unfolding f using c(2) matchField_numbers [of "[31]" d] matchField_numbers [of "[2]" m]
    by (auto simp: valid_date_def month_days_def split: if_splits)
  then show ?thesis using c(1) by (auto simp: cron_match_def Day_def Month_def)
qed

text \<open>
  A specification that no date satisfies is not ignored: for the 31st of February the next
  execution is 365 days after the start, a time that does not match, and the job is run then.
\<close>

theorem unsatisfiable_spec_fires:
  "nextExecution zone start never_fields = start + 365 * 24 * 60 * minute_ns \<and>
   \<not> cron_match zone (nextExecution zone start never_fields) never_fields"
proof (cases "nextExecution_loop zone never_fields 0 (start + minute_ns)")
  case None
  then show ?thesis by (simp add: nextExecution_def never_matches)
next
  case (Some t)
  then show ?thesis using nextExecution_loop_Some [OF Some] never_matches by auto
qed

end
