(* ===== verification/Retry_Props.thy ===== *)
theory Retry_Props
  imports Retry
begin

text \<open>The properties of the retry strategies.\<close>

section \<open>Exponential backoff\<close>

text \<open>
  C27. The floating-point computation of \<open>ExponentialBackoff.NextDelay\<close> is exact: with no jitter, a base
  delay below 2 ^ 53 ns (104 days) and a product that fits in 64 bits, the delay is the integer
  \<open>BaseDelay * 2 ^ attempt\<close>, capped at \<open>MaxDelay\<close>; from \<open>MaxAttempts\<close> on there is no retry.
\<close>

theorem backoff_exact:
  assumes "0 \<le> eb_BaseDelay eb" and "eb_BaseDelay eb < 2 ^ 53" and "0 \<le> attempt" and "attempt \<le> 900"
    and "eb_BaseDelay eb * 2 ^ nat attempt < 2 ^ 63" and "\<not> f64_pos (eb_Jitter eb)"
  shows "ExponentialBackoff_NextDelay conv rnd eb attempt =
    (if attempt < eb_MaxAttempts eb then (min (eb_BaseDelay eb * 2 ^ nat attempt) (eb_MaxDelay eb), True) else (0, False))"
proof (cases "attempt < eb_MaxAttempts eb")
  case True
  then show ?thesis using eb_delay_exact [OF assms(1-5) True assms(6)] by simp
qed (simp add: ExponentialBackoff_NextDelay_def)

definition demo_backoff :: ExponentialBackoff where
  "demo_backoff = NewExponentialBackoff 50 1000000000 60000000000 (Fin 0 0)"

theorem backoff_exact_witness: "ExponentialBackoff_NextDelay (\<lambda>_. 0) (Fin 0 0) demo_backoff 3 = (8000000000, True)"
proof -
  have f: "eb_BaseDelay demo_backoff = 1000000000" "eb_MaxAttempts demo_backoff = 50" "eb_MaxDelay demo_backoff = 60000000000"
    "\<not> f64_pos (eb_Jitter demo_backoff)" by code_simp+
  show ?thesis using backoff_exact [of demo_backoff 3] f by simp
qed


definition demo_jitter :: ExponentialBackoff where
  "demo_jitter = NewExponentialBackoff 50 1000000000 60000000000 (Fin 1 (-1))"


text \<open>
  The cap is not an upper bound on what is returned. With jitter the delay can be above
  \<open>MaxDelay\<close>: one minute becomes 75 seconds for the random number 3/4. And without jitter, once the product
  leaves the range of \<open>int64\<close> (attempt 40 of a base delay of one second) the conversion of the
  amd64 processors yields the least integer, which passes the comparison with \<open>MaxDelay\<close>: the delay is
  negative and the retry is immediate.
\<close>

theorem backoff_cap_exceeded:
  "ExponentialBackoff_NextDelay (\<lambda>_. - (2 ^ 63)) (Fin 3 (-2)) demo_jitter 10 = (75000000000, True) \<and>
   eb_MaxDelay demo_jitter = 60000000000 \<and>
   ExponentialBackoff_NextDelay (\<lambda>_. - (2 ^ 63)) (Fin 0 0) demo_backoff 40 = (- (2 ^ 63), True)"
proof (intro conjI)
  have d: "f64_mul (f64_of_int 1000000000) (f64_pow2 10) = Fin 1000000000 10" "f64_of_int 60000000000 = Fin 60000000000 0"
    "f64_mul (f64_of_int 1000000000) (f64_pow2 40) = Fin 1000000000 40"
    using pow2_mul [of 1000000000 10] pow2_mul [of 1000000000 40] by (simp_all add: f64_of_int_def f64_norm_small)
  show "ExponentialBackoff_NextDelay (\<lambda>_. - (2 ^ 63)) (Fin 3 (-2)) demo_jitter 10 = (75000000000, True)"
    by (simp add: demo_jitter_def NewExponentialBackoff_def ExponentialBackoff_NextDelay_def Let_def eb_jitter_def d
      f64_to_int64_def f64_norm_small in_int64_def add64_exact)
  show "eb_MaxDelay demo_jitter = 60000000000" by code_simp
  show "ExponentialBackoff_NextDelay (\<lambda>_. - (2 ^ 63)) (Fin 0 0) demo_backoff 40 = (- (2 ^ 63), True)"
    by (simp add: demo_backoff_def NewExponentialBackoff_def ExponentialBackoff_NextDelay_def Let_def d
      f64_to_int64_def in_int64_def)
qed

end
