(* ===== verification/Storage_Props.thy ===== *)
theory Storage_Props
  imports Storage
begin

text \<open>The properties of the in-memory storage: the history it keeps and how it is queried.\<close>

definition im_record :: "TaskInfo list \<Rightarrow> int \<Rightarrow> InMemoryStorage \<Rightarrow> InMemoryStorage" where
  "im_record infos retention s = fold (\<lambda>t s. snd (im_AddToHistory t retention s)) infos s"

lemma im_history_record: "im_history s = take 100 h \<Longrightarrow> im_history (im_record infos retention s) = take 100 (rev infos @ h)"
proof (induction infos arbitrary: s h)
  case (Cons t infos)
  have "im_history (snd (im_AddToHistory t retention s)) = take 100 (t # h)"
    using Cons.prems by (simp add: im_AddToHistory_def Let_def min_def)
  from Cons.IH [OF this] show ?case by (simp add: im_record_def)
qed (simp add: im_record_def)

text \<open>
  After any sequence of recorded tasks, a history query is answered with the most recent 100 of
  them, newest first, restricted to the ones that the filter admits, and cut at \<open>Limit\<close> when that is
  positive: the loop with its early exit equals this specification.
\<close>

theorem history_query:
  "im_GetHistory f (im_record infos retention \<lparr>im_history = []\<rparr>) =
   (Inr ((if f_Limit f > 0 then take (nat (f_Limit f)) else id)
      (filter (\<lambda>t. (f_ID f = '''' \<or> i_ID t = f_ID f) \<and> (f_Type f = '''' \<or> i_Type t = f_Type f) \<and>
         (f_Status f = '''' \<or> i_Status t = f_Status f)) (take 100 (rev infos)))),
    im_record infos retention \<lparr>im_history = []\<rparr>)"
proof -
  have h: "im_history (im_record infos retention \<lparr>im_history = []\<rparr>) = take 100 (rev infos)"
    using im_history_record [of "\<lparr>im_history = []\<rparr>" "[]"] by simp
  have p: "(\<lambda>t. \<not> im_skip f t) = (\<lambda>t. (f_ID f = '''' \<or> i_ID t = f_ID f) \<and> (f_Type f = '''' \<or> i_Type t = f_Type f) \<and>
      (f_Status f = '''' \<or> i_Status t = f_Status f))" by (auto simp: im_skip_def)
  show ?thesis
    using history_loop_unlimited [of "f_Limit f" "im_skip f" "[]"] history_loop_limited [of "f_Limit f" "[]" "im_skip f"]
    by (simp add: im_GetHistory_def h p)
qed

end
