(* ===== verification/Go_Strings.thy ===== *)
theory Go_Strings
  imports Cron
begin

text \<open>
  More of Go's \<open>strings\<close> package, as the storage, the dashboard and its request handlers use it, on
  ASCII strings.
\<close>

text \<open>\<open>unicode.ToLower\<close> on ASCII characters.\<close>

definition lower_char :: "char \<Rightarrow> char" where
  "lower_char c = (let n = (of_char c :: nat) in if 65 \<le> n \<and> n \<le> 90 then char_of (n + 32) else c)"

definition ToLower :: "string \<Rightarrow> string" where
  "ToLower s = map lower_char s"

fun HasPrefix :: "string \<Rightarrow> string \<Rightarrow> bool" where
  "HasPrefix s [] = True"
| "HasPrefix [] (p # ps) = False"
| "HasPrefix (c # cs) (p # ps) = (c = p \<and> HasPrefix cs ps)"

fun Contains :: "string \<Rightarrow> string \<Rightarrow> bool" where
  "Contains [] q = (q = [])"
| "Contains (c # cs) q = (HasPrefix (c # cs) q \<or> Contains cs q)"

definition TrimSuffix :: "string \<Rightarrow> string \<Rightarrow> string" where
  "TrimSuffix s suf = (if HasPrefix (rev s) (rev suf) then take (length s - length suf) s else s)"

lemma HasPrefix_iff: "HasPrefix s p \<longleftrightarrow> (\<exists>rest. s = p @ rest)"
  by (induction s p rule: HasPrefix.induct) auto

lemma Contains_iff: "Contains s q \<longleftrightarrow> (\<exists>l r. s = l @ q @ r)"
proof (induction s)
  case (Cons c cs)
  show ?case
  proof
    assume "Contains (c # cs) q"
    then show "\<exists>l r. c # cs = l @ q @ r"
      using Cons by (auto simp: HasPrefix_iff) (metis append_Cons append_Nil)+
  next
    assume "\<exists>l r. c # cs = l @ q @ r"
    then obtain l r where lr: "c # cs = l @ q @ r" by blast
    show "Contains (c # cs) q"
    proof (cases l)
      case Nil
      then have "HasPrefix (c # cs) q" using lr by (auto simp: HasPrefix_iff)
      then show ?thesis by simp
    qed (use lr Cons in auto)
  qed
qed simp

lemma lower_char_idem: "lower_char (lower_char c) = lower_char c"
  by (auto simp: lower_char_def Let_def)

lemma ToLower_idem [simp]: "ToLower (ToLower s) = ToLower s"
  by (simp add: ToLower_def lower_char_idem)

end
