(* ===== verification/Redis_Storage.thy ===== *)
theory Redis_Storage
  imports Storage Go_Strings Retry
begin

text \<open>
  The Redis storage of \<open>storage.go\<close>: every method of \<open>RedisStorage\<close> and the five Lua scripts.

  The Redis server and its Go client are not part of the repository: a record \<open>'db Redis\<close> of the
  commands that the code sends, on a state \<open>'db\<close> of the server, stands for them, and every definition
  takes it as an argument. A reply is an error or a value; the reply \<open>redis.Nil\<close> is \<open>None\<close>. The
  JSON encoders (Go's and the one of the scripts) are the record \<open>Json\<close>. The wall clock is read from
  the server's state.

  A script runs atomically on the server: it is a sequence of commands, ended by the first command that
  fails, whose earlier effects stay. A pipeline sends all its commands and reports the first error.
\<close>

section \<open>The client\<close>

record 'db Redis =
  rd_SET :: "string \<Rightarrow> string \<Rightarrow> 'db \<Rightarrow> (error + unit) \<times> 'db"
  rd_SETEX :: "string \<Rightarrow> string \<Rightarrow> int \<Rightarrow> 'db \<Rightarrow> (error + unit) \<times> 'db"
  rd_SETNX :: "string \<Rightarrow> string \<Rightarrow> int \<Rightarrow> 'db \<Rightarrow> (error + string option) \<times> 'db"
  rd_GET :: "string \<Rightarrow> 'db \<Rightarrow> (error + string option) \<times> 'db"
  rd_DEL :: "string \<Rightarrow> 'db \<Rightarrow> (error + unit) \<times> 'db"
  rd_EXISTS :: "string \<Rightarrow> 'db \<Rightarrow> (error + int) \<times> 'db"
  rd_EXPIRE :: "string \<Rightarrow> int \<Rightarrow> 'db \<Rightarrow> (error + int) \<times> 'db"
  rd_KEYS :: "string \<Rightarrow> 'db \<Rightarrow> (error + string list) \<times> 'db"
  rd_DECR :: "string \<Rightarrow> 'db \<Rightarrow> (error + int) \<times> 'db"
  rd_SADD :: "string \<Rightarrow> string \<Rightarrow> 'db \<Rightarrow> (error + unit) \<times> 'db"
  rd_SREM :: "string \<Rightarrow> string \<Rightarrow> 'db \<Rightarrow> (error + unit) \<times> 'db"
  rd_SMEMBERS :: "string \<Rightarrow> 'db \<Rightarrow> (error + string list) \<times> 'db"
  rd_ZADD :: "string \<Rightarrow> float64 \<Rightarrow> string \<Rightarrow> 'db \<Rightarrow> (error + unit) \<times> 'db"
  rd_ZREM :: "string \<Rightarrow> string list \<Rightarrow> 'db \<Rightarrow> (error + unit) \<times> 'db"
  rd_ZPOPMAX :: "string \<Rightarrow> 'db \<Rightarrow> (error + string option) \<times> 'db"
  rd_ZRANGEBYSCORE :: "string \<Rightarrow> int \<Rightarrow> int \<Rightarrow> int \<Rightarrow> 'db \<Rightarrow> (error + string list) \<times> 'db"
  rd_ZREVRANGE :: "string \<Rightarrow> int \<Rightarrow> int \<Rightarrow> 'db \<Rightarrow> (error + string list) \<times> 'db"
  rd_ZREMRANGEBYSCORE :: "string \<Rightarrow> int \<Rightarrow> 'db \<Rightarrow> (error + unit) \<times> 'db"
  rd_ZREMRANGEBYRANK :: "string \<Rightarrow> int \<Rightarrow> int \<Rightarrow> 'db \<Rightarrow> (error + unit) \<times> 'db"
  rd_PUBLISH :: "string \<Rightarrow> string \<Rightarrow> 'db \<Rightarrow> (error + unit) \<times> 'db"
  rd_clock :: "'db \<Rightarrow> int"

text \<open>
  \<open>SETEX\<close> and \<open>SETNX\<close> are \<open>SET\<close> with an expiry (\<open>EX\<close>, in seconds, or the client's duration) and with
  \<open>NX\<close> and an expiry; \<open>ZRANGEBYSCORE\<close> has the bounds and the limit; \<open>ZREMRANGEBYSCORE\<close> removes up to a
  score.
\<close>

record Json =
  js_Marshal :: "PersistentTask \<Rightarrow> error + string"
  js_Unmarshal :: "string \<Rightarrow> error + PersistentTask"
  js_MarshalInfo :: "TaskInfo \<Rightarrow> error + string"
  js_UnmarshalInfo :: "string \<Rightarrow> error + TaskInfo"
  cjson_decode :: "string \<Rightarrow> error + (string \<times> int)"

text \<open>\<open>cjson_decode\<close> is the script's \<open>cjson.decode\<close>, with the fields \<open>id\<close> and \<open>priority\<close>.\<close>

record 'db RedisStorage =
  rs_client :: "'db Redis"
  rs_json :: Json
  rs_prefix :: string

definition NewRedisStorage :: "'db Redis \<Rightarrow> Json \<Rightarrow> string \<Rightarrow> 'db RedisStorage" where
  "NewRedisStorage rdb J prefix =
     \<lparr>rs_client = rdb, rs_json = J, rs_prefix = (if prefix = '''' then ''skedulr:task:'' else prefix)\<rparr>"

section \<open>Sequencing\<close>

definition rbind ::
  "(error + 'a) \<times> 'db \<Rightarrow> ('a \<Rightarrow> 'db \<Rightarrow> (error + 'b) \<times> 'db) \<Rightarrow> (error + 'b) \<times> 'db" where
  "rbind p f = (case p of (Inl err, db) \<Rightarrow> (Inl err, db) | (Inr a, db) \<Rightarrow> f a db)"

text \<open>A pipeline: run all commands, report the first error.\<close>

fun pipe_Exec :: "('db \<Rightarrow> (error + unit) \<times> 'db) list \<Rightarrow> 'db \<Rightarrow> error option \<times> 'db" where
  "pipe_Exec [] db = (None, db)"
| "pipe_Exec (c # cs) db =
     (case c db of (r, db1) \<Rightarrow>
        (case pipe_Exec cs db1 of (er, db2) \<Rightarrow> (case r of Inl e \<Rightarrow> Some e | Inr _ \<Rightarrow> er, db2)))"

text \<open>The error of a command whose value is not used.\<close>

definition cmd_Err :: "(error + unit) \<times> 'db \<Rightarrow> error option \<times> 'db" where
  "cmd_Err p = (case p of (Inl e, db) \<Rightarrow> (Some e, db) | (Inr _, db) \<Rightarrow> (None, db))"

text \<open>\<open>fmt.Errorf("what: %w", err)\<close>\<close>

definition wrap_err :: "string \<Rightarrow> (error + 'a) \<times> 'db \<Rightarrow> (error + 'a) \<times> 'db" where
  "wrap_err what p = (case p of (Inl e, db) \<Rightarrow> (Inl (ErrWrap what e), db) | (Inr a, db) \<Rightarrow> (Inr a, db))"

text \<open>\<open>int(d.Seconds())\<close> of a duration in nanoseconds (exact for durations below 97 days).\<close>

definition lease_secs :: "int \<Rightarrow> int" where
  "lease_secs d = (if d < 0 then - ((- d) div 1000000000) else d div 1000000000)"

text \<open>The tasks of the strings that decode; the others are skipped.\<close>

fun decode_tasks :: "Json \<Rightarrow> string list \<Rightarrow> PersistentTask list" where
  "decode_tasks J [] = []"
| "decode_tasks J (d # ds) =
     (case js_Unmarshal J d of Inl e \<Rightarrow> decode_tasks J ds | Inr t \<Rightarrow> t # decode_tasks J ds)"

section \<open>The scripts\<close>

definition luaHeartbeat :: "'db Redis \<Rightarrow> string \<Rightarrow> string \<Rightarrow> int \<Rightarrow> 'db \<Rightarrow> (error + int) \<times> 'db" where
  "luaHeartbeat R key inst secs db =
     rbind (rd_GET R key db) (\<lambda>val db1. if val = Some inst then rd_EXPIRE R key secs db1 else (Inr 0, db1))"

text \<open>The loop over the children: \<open>ready\<close> is the table built so far.\<close>

fun lua_children :: "'db Redis \<Rightarrow> string \<Rightarrow> string list \<Rightarrow> string list \<Rightarrow> 'db \<Rightarrow> (error + string list) \<times> 'db" where
  "lua_children R pre ready [] db = (Inr ready, db)"
| "lua_children R pre ready (c # cs) db =
     rbind (rd_DECR R (pre @ c @ '':deps_count'') db) (\<lambda>rem db1.
       if rem = 0 then
         rbind (rd_GET R (pre @ c) db1) (\<lambda>data db2.
           case data of
             None \<Rightarrow> lua_children R pre ready cs db2
           | Some d \<Rightarrow> rbind (rd_DEL R (pre @ c @ '':deps_count'') db2) (\<lambda>_ db3. lua_children R pre (ready @ [d]) cs db3))
       else lua_children R pre ready cs db1)"

definition luaResolveDeps :: "'db Redis \<Rightarrow> string \<Rightarrow> string \<Rightarrow> 'db \<Rightarrow> (error + string list) \<times> 'db" where
  "luaResolveDeps R children pre db =
     rbind (rd_SMEMBERS R children db) (\<lambda>ids db1.
       rbind (lua_children R pre [] ids db1) (\<lambda>ready db2.
         rbind (rd_DEL R children db2) (\<lambda>_ db3. (Inr ready, db3))))"

definition luaDequeue :: "'db Redis \<Rightarrow> Json \<Rightarrow> string \<Rightarrow> string \<Rightarrow> string \<Rightarrow> int \<Rightarrow> 'db \<Rightarrow> (error + string option) \<times> 'db" where
  "luaDequeue R J queueKey pre inst secs db =
     rbind (rd_ZPOPMAX R queueKey db) (\<lambda>res db1.
       case res of
         None \<Rightarrow> (Inr None, db1)
       | Some data \<Rightarrow>
           (case cjson_decode J data of
              Inl err \<Rightarrow> (Inl err, db1)
            | Inr (tid, priority) \<Rightarrow>
                rbind (rd_SETEX R (pre @ tid @ '':lease'') inst secs db1) (\<lambda>_ db2.
                  rbind (rd_SADD R (pre @ ''processing'') tid db2) (\<lambda>_ db3. (Inr (Some data), db3)))))"

fun lua_bodies :: "'db Redis \<Rightarrow> string \<Rightarrow> string list \<Rightarrow> 'db \<Rightarrow> (error + string list) \<times> 'db" where
  "lua_bodies R pre [] db = (Inr [], db)"
| "lua_bodies R pre (tid # ids) db =
     rbind (rd_GET R (pre @ tid) db) (\<lambda>data db1.
       rbind (lua_bodies R pre ids db1) (\<lambda>rest db2.
         (Inr (case data of None \<Rightarrow> rest | Some d \<Rightarrow> d # rest), db2)))"

definition luaPopDueDelayed :: "'db Redis \<Rightarrow> string \<Rightarrow> int \<Rightarrow> int \<Rightarrow> string \<Rightarrow> 'db \<Rightarrow> (error + string list) \<times> 'db" where
  "luaPopDueDelayed R key now batch pre db =
     rbind (rd_ZRANGEBYSCORE R key 0 now batch db) (\<lambda>due db1.
       if due = [] then (Inr [], db1)
       else rbind (rd_ZREM R key due db1) (\<lambda>_ db2. lua_bodies R pre due db2))"

fun lua_orphans :: "'db Redis \<Rightarrow> Json \<Rightarrow> string \<Rightarrow> string \<Rightarrow> string \<Rightarrow> int \<Rightarrow> string list \<Rightarrow> 'db \<Rightarrow> (error + int) \<times> 'db" where
  "lua_orphans R J procKey pre queueKey recovered [] db = (Inr recovered, db)"
| "lua_orphans R J procKey pre queueKey recovered (tid # ids) db =
     rbind (rd_EXISTS R (pre @ tid @ '':lease'') db) (\<lambda>n db1.
       if n = 0 then
         rbind (rd_GET R (pre @ tid) db1) (\<lambda>data db2.
           case data of
             None \<Rightarrow> rbind (rd_SREM R procKey tid db2) (\<lambda>_ db3. lua_orphans R J procKey pre queueKey recovered ids db3)
           | Some d \<Rightarrow>
               (case cjson_decode J d of
                  Inl err \<Rightarrow> (Inl err, db2)
                | Inr (i, priority) \<Rightarrow>
                    rbind (rd_ZADD R queueKey (f64_of_int priority) d db2) (\<lambda>_ db3.
                      rbind (rd_SREM R procKey tid db3) (\<lambda>_ db4.
                        lua_orphans R J procKey pre queueKey (recovered + 1) ids db4))))
       else lua_orphans R J procKey pre queueKey recovered ids db1)"

definition luaRecover :: "'db Redis \<Rightarrow> Json \<Rightarrow> string \<Rightarrow> string \<Rightarrow> string \<Rightarrow> 'db \<Rightarrow> (error + int) \<times> 'db" where
  "luaRecover R J procKey pre queueKey db =
     rbind (rd_SMEMBERS R procKey db) (\<lambda>ids db1. lua_orphans R J procKey pre queueKey 0 ids db1)"

section \<open>The methods\<close>

definition rs_Save :: "'db RedisStorage \<Rightarrow> PersistentTask \<Rightarrow> 'db \<Rightarrow> error option \<times> 'db" where
  "rs_Save S t db =
     (case js_Marshal (rs_json S) t of
        Inl e \<Rightarrow> (Some (ErrWrap ''failed to marshal task'' e), db)
      | Inr data \<Rightarrow> cmd_Err (rd_SET (rs_client S) (rs_prefix S @ p_ID t) data db))"

definition rs_Delete :: "'db RedisStorage \<Rightarrow> string \<Rightarrow> 'db \<Rightarrow> error option \<times> 'db" where
  "rs_Delete S tid db =
     pipe_Exec [rd_DEL (rs_client S) (rs_prefix S @ tid), rd_DEL (rs_client S) (rs_prefix S @ tid @ '':lease''),
       rd_SREM (rs_client S) (rs_prefix S @ ''processing'') tid] db"

definition rs_CompleteTask :: "'db RedisStorage \<Rightarrow> string \<Rightarrow> 'db \<Rightarrow> error option \<times> 'db" where
  "rs_CompleteTask S tid db = rs_Delete S tid db"

text \<open>The loop over the keys: a \<open>GET\<close> that fails or finds nothing, and a value that does not decode, are skipped.\<close>

fun load_keys :: "'db RedisStorage \<Rightarrow> string list \<Rightarrow> 'db \<Rightarrow> PersistentTask list \<times> 'db" where
  "load_keys S [] db = ([], db)"
| "load_keys S (key # ks) db =
     (case rd_GET (rs_client S) key db of
        (r, db1) \<Rightarrow>
          (case load_keys S ks db1 of
             (ts, db2) \<Rightarrow>
               (case r of
                  Inr (Some data) \<Rightarrow> (case js_Unmarshal (rs_json S) data of Inl e \<Rightarrow> ts | Inr t \<Rightarrow> t # ts)
                | _ \<Rightarrow> ts, db2)))"

definition rs_LoadAll :: "'db RedisStorage \<Rightarrow> 'db \<Rightarrow> (error + PersistentTask list) \<times> 'db" where
  "rs_LoadAll S db =
     rbind (wrap_err ''failed to list keys'' (rd_KEYS (rs_client S) (rs_prefix S @ ''*'') db))
       (\<lambda>ks db1. case load_keys S ks db1 of (ts, db2) \<Rightarrow> (Inr ts, db2))"

definition rs_Claim :: "'db RedisStorage \<Rightarrow> string \<Rightarrow> string \<Rightarrow> int \<Rightarrow> 'db \<Rightarrow> (error + bool) \<times> 'db" where
  "rs_Claim S tid inst d db =
     (case rd_SETNX (rs_client S) (rs_prefix S @ tid @ '':lease'') inst d db of
        (Inl e, db1) \<Rightarrow> (Inl (ErrWrap (''failed to claim task '' @ tid) e), db1)
      | (Inr None, db1) \<Rightarrow> (Inr False, db1)
      | (Inr (Some res), db1) \<Rightarrow> (Inr (res = ''OK''), db1))"

definition rs_Heartbeat :: "'db RedisStorage \<Rightarrow> string \<Rightarrow> string \<Rightarrow> int \<Rightarrow> 'db \<Rightarrow> error option \<times> 'db" where
  "rs_Heartbeat S tid inst d db =
     (case luaHeartbeat (rs_client S) (rs_prefix S @ tid @ '':lease'') inst (lease_secs d) db of
        (Inl e, db1) \<Rightarrow> (Some (ErrWrap (''heartbeat failed for '' @ tid) e), db1)
      | (Inr res, db1) \<Rightarrow> (if res = 0 then Some (ErrLeaseLost tid) else None, db1))"

definition childrenKey :: "string \<Rightarrow> string \<Rightarrow> TaskStatus \<Rightarrow> string" where
  "childrenKey pre parentID st = pre @ parentID @ '':children:'' @ Itoa (int (TaskStatus_int st))"

text \<open>\<open>Dependencies\<close> and the legacy \<open>DependsOn\<close> together.\<close>

definition allDeps :: "PersistentTask \<Rightarrow> TaskDependency list" where
  "allDeps t = p_Dependencies t @ map (\<lambda>pid. \<lparr>ParentID = pid, Trigger = StatusSucceeded\<rparr>) (p_DependsOn t)"

text \<open>The errors of the commands are not looked at.\<close>

definition rs_SaveWaiting :: "'db RedisStorage \<Rightarrow> PersistentTask \<Rightarrow> 'db \<Rightarrow> error option \<times> 'db" where
  "rs_SaveWaiting S t db =
     (case js_Marshal (rs_json S) t of
        Inl e \<Rightarrow> (Some e, db)
      | Inr data \<Rightarrow>
          (let db1 = snd (rd_SET (rs_client S) (rs_prefix S @ p_ID t) data db);
               db2 = fold (\<lambda>dep db. snd (rd_SADD (rs_client S) (childrenKey (rs_prefix S) (ParentID dep) (Trigger dep)) (p_ID t) db))
                       (allDeps t) db1
           in (None, snd (rd_SET (rs_client S) (rs_prefix S @ p_ID t @ '':deps_count'') (Itoa (int (length (allDeps t)))) db2))))"

definition rs_ResolveDependencies ::
  "'db RedisStorage \<Rightarrow> string \<Rightarrow> TaskStatus \<Rightarrow> 'db \<Rightarrow> (error + PersistentTask list) \<times> 'db" where
  "rs_ResolveDependencies S parentID status db =
     rbind (wrap_err ''failed to resolve dependencies''
       (luaResolveDeps (rs_client S) (childrenKey (rs_prefix S) parentID status) (rs_prefix S) db))
       (\<lambda>res db1. (Inr (decode_tasks (rs_json S) res), db1))"

definition rs_PublishCancel :: "'db RedisStorage \<Rightarrow> string \<Rightarrow> 'db \<Rightarrow> error option \<times> 'db" where
  "rs_PublishCancel S tid db = cmd_Err (rd_PUBLISH (rs_client S) (rs_prefix S @ ''cmd:cancel'') tid db)"

text \<open>
  \<open>SubscribeCancel\<close>: the goroutine calls its handler with the payload of every message that arrives on the
  channel, until the subscription is closed. \<open>msgs\<close> are the messages published meanwhile, of all
  channels, in their order.
\<close>

definition rs_SubscribeCancel ::
  "'db RedisStorage \<Rightarrow> (string \<Rightarrow> 's \<Rightarrow> 's) \<Rightarrow> (string \<times> string) list \<Rightarrow> 's \<Rightarrow> 's" where
  "rs_SubscribeCancel S handler msgs s =
     (let channel = rs_prefix S @ ''cmd:cancel''
      in fold (\<lambda>(ch, payload) s. if ch = channel then handler payload s else s) msgs s)"

text \<open>The two readings of the clock are one.\<close>

definition rs_AddToHistory :: "'db RedisStorage \<Rightarrow> TaskInfo \<Rightarrow> int \<Rightarrow> 'db \<Rightarrow> error option \<times> 'db" where
  "rs_AddToHistory S t retention db =
     (case js_MarshalInfo (rs_json S) t of
        Inl e \<Rightarrow> (Some e, db)
      | Inr data \<Rightarrow>
          (let key = rs_prefix S @ ''history''; now = rd_clock (rs_client S) db
           in pipe_Exec [rd_ZADD (rs_client S) key (f64_of_int now) data,
                if retention > 0 then rd_ZREMRANGEBYSCORE (rs_client S) key (now - retention)
                else rd_ZREMRANGEBYRANK (rs_client S) key 0 (-101)] db))"

definition rs_Enqueue :: "'db RedisStorage \<Rightarrow> PersistentTask \<Rightarrow> 'db \<Rightarrow> error option \<times> 'db" where
  "rs_Enqueue S t db =
     (case js_Marshal (rs_json S) t of
        Inl e \<Rightarrow> (Some e, db)
      | Inr data \<Rightarrow> cmd_Err (rd_ZADD (rs_client S) (rs_prefix S @ ''queue'') (f64_of_int (p_Priority t)) data db))"

definition rs_Dequeue :: "'db RedisStorage \<Rightarrow> string \<Rightarrow> int \<Rightarrow> 'db \<Rightarrow> (error + PersistentTask option) \<times> 'db" where
  "rs_Dequeue S inst d db =
     (case luaDequeue (rs_client S) (rs_json S) (rs_prefix S @ ''queue'') (rs_prefix S) inst (lease_secs d) db of
        (Inl e, db1) \<Rightarrow> (Inl (ErrWrap ''dequeue failed'' e), db1)
      | (Inr None, db1) \<Rightarrow> (Inr None, db1)
      | (Inr (Some data), db1) \<Rightarrow>
          (case js_Unmarshal (rs_json S) data of
             Inl e \<Rightarrow> (Inl (ErrWrap ''failed to unmarshal task'' e), db1)
           | Inr t \<Rightarrow> (Inr (Some t), db1)))"

text \<open>The mark expires after 24 hours.\<close>

definition rs_MarkCancelled :: "'db RedisStorage \<Rightarrow> string \<Rightarrow> 'db \<Rightarrow> error option \<times> 'db" where
  "rs_MarkCancelled S tid db =
     cmd_Err (rd_SETEX (rs_client S) (rs_prefix S @ ''cancelled:'' @ tid) ''1'' (24 * 3600) db)"

definition rs_IsCancelled :: "'db RedisStorage \<Rightarrow> string \<Rightarrow> 'db \<Rightarrow> (error + bool) \<times> 'db" where
  "rs_IsCancelled S tid db =
     rbind (rd_EXISTS (rs_client S) (rs_prefix S @ ''cancelled:'' @ tid) db) (\<lambda>n db1. (Inr (n > 0), db1))"

definition delayedKey :: "'db RedisStorage \<Rightarrow> string" where
  "delayedKey S = rs_prefix S @ ''delayed''"

definition rs_ScheduleDelayed ::
  "'db RedisStorage \<Rightarrow> string \<Rightarrow> int \<Rightarrow> PersistentTask option \<Rightarrow> 'db \<Rightarrow> error option \<times> 'db" where
  "rs_ScheduleDelayed S tid fireAtMs t db =
     (if tid = '''' then (Some ErrEmptyTaskID, db)
      else let add = rd_ZADD (rs_client S) (delayedKey S) (f64_of_int fireAtMs) tid
           in case t of
                None \<Rightarrow> pipe_Exec [add] db
              | Some pt \<Rightarrow>
                  (case js_Marshal (rs_json S) pt of
                     Inl e \<Rightarrow> (Some (ErrWrap ''ScheduleDelayed marshal'' e), db)
                   | Inr data \<Rightarrow> pipe_Exec [rd_SET (rs_client S) (rs_prefix S @ tid) data, add] db))"

definition rs_UnscheduleDelayed :: "'db RedisStorage \<Rightarrow> string \<Rightarrow> 'db \<Rightarrow> error option \<times> 'db" where
  "rs_UnscheduleDelayed S tid db =
     (if tid = '''' then (None, db) else cmd_Err (rd_ZREM (rs_client S) (delayedKey S) [tid] db))"

text \<open>\<open>now\<close> is in nanoseconds.\<close>

definition rs_PopDueDelayed :: "'db RedisStorage \<Rightarrow> int \<Rightarrow> int \<Rightarrow> 'db \<Rightarrow> (error + PersistentTask list) \<times> 'db" where
  "rs_PopDueDelayed S now batch db =
     (let batch = (if batch \<le> 0 then 100 else batch)
      in rbind (wrap_err ''PopDueDelayed''
           (luaPopDueDelayed (rs_client S) (delayedKey S) (now div 1000000) batch (rs_prefix S) db))
           (\<lambda>res db1. (Inr (decode_tasks (rs_json S) res), db1)))"

definition rs_RecoverOrphaned :: "'db RedisStorage \<Rightarrow> 'db \<Rightarrow> (error + int) \<times> 'db" where
  "rs_RecoverOrphaned S db =
     wrap_err ''recovery failed''
       (luaRecover (rs_client S) (rs_json S) (rs_prefix S @ ''processing'') (rs_prefix S) (rs_prefix S @ ''queue'') db)"

section \<open>History\<close>

definition fetchLimit :: "HistoryFilter \<Rightarrow> int" where
  "fetchLimit f =
     (if f_Type f \<noteq> '''' \<or> f_Status f \<noteq> '''' \<or> f_ID f \<noteq> '''' \<or> f_Query f \<noteq> '''' then 500
      else if f_Limit f \<le> 0 then 100 else f_Limit f)"

text \<open>The \<open>continue\<close> conditions; \<open>query\<close> is the lower-case query.\<close>

definition rs_skip :: "HistoryFilter \<Rightarrow> string \<Rightarrow> TaskInfo \<Rightarrow> bool" where
  "rs_skip f query t \<longleftrightarrow> f_ID f \<noteq> '''' \<and> i_ID t \<noteq> f_ID f \<or> f_Type f \<noteq> '''' \<and> i_Type t \<noteq> f_Type f \<or>
     f_Status f \<noteq> '''' \<and> i_Status t \<noteq> f_Status f \<or>
     query \<noteq> '''' \<and> \<not> (Contains (ToLower (i_ID t)) query \<or> Contains (ToLower (i_Type t)) query)"

fun rs_history_loop :: "Json \<Rightarrow> HistoryFilter \<Rightarrow> string \<Rightarrow> TaskInfo list \<Rightarrow> string list \<Rightarrow> TaskInfo list" where
  "rs_history_loop J f query res [] = res"
| "rs_history_loop J f query res (d # ds) =
     (case js_UnmarshalInfo J d of
        Inl e \<Rightarrow> rs_history_loop J f query res ds
      | Inr t \<Rightarrow>
          if rs_skip f query t then rs_history_loop J f query res ds
          else let res1 = res @ [t]
               in if f_Limit f > 0 \<and> int (length res1) \<ge> f_Limit f then res1 else rs_history_loop J f query res1 ds)"

definition rs_GetHistory :: "'db RedisStorage \<Rightarrow> HistoryFilter \<Rightarrow> 'db \<Rightarrow> (error + TaskInfo list) \<times> 'db" where
  "rs_GetHistory S f db =
     rbind (rd_ZREVRANGE (rs_client S) (rs_prefix S @ ''history'') 0 (fetchLimit f - 1) db)
       (\<lambda>data db1. (Inr (rs_history_loop (rs_json S) f (ToLower (f_Query f)) [] data), db1))"

section \<open>The storage interface\<close>

definition redis_Storage :: "'db RedisStorage \<Rightarrow> 'db Storage" where
  "redis_Storage S = \<lparr>st_Save = rs_Save S, st_Delete = rs_Delete S, st_LoadAll = rs_LoadAll S,
     st_Claim = rs_Claim S, st_Heartbeat = rs_Heartbeat S, st_PublishCancel = rs_PublishCancel S,
     st_SaveWaiting = rs_SaveWaiting S, st_ResolveDependencies = rs_ResolveDependencies S,
     st_Enqueue = rs_Enqueue S, st_Dequeue = rs_Dequeue S, st_AddToHistory = rs_AddToHistory S,
     st_GetHistory = rs_GetHistory S, st_MarkCancelled = rs_MarkCancelled S,
     st_IsCancelled = rs_IsCancelled S, st_CompleteTask = rs_CompleteTask S,
     st_RecoverOrphaned = rs_RecoverOrphaned S, st_ScheduleDelayed = rs_ScheduleDelayed S,
     st_UnscheduleDelayed = rs_UnscheduleDelayed S, st_PopDueDelayed = rs_PopDueDelayed S\<rparr>"

end
