(* ===== verification/Redis_Server.thy ===== *)
theory Redis_Server
  imports Redis_Storage
begin

text \<open>
  What the storage relies on of the Redis server: the documented effect of each command when it
  replies, as a locale over a view of the keys. A command that fails may have any effect, except that
  setting a key with an expiry that is not positive is refused. \<open>Mini_Redis\<close>
  interprets the locale by a small server.
\<close>

section \<open>The view of a database\<close>

datatype rval = RStr string | RSet "string set" | RZSet "string \<rightharpoonup> float64"

type_synonym rview = "string \<rightharpoonup> rval"

definition members :: "rview \<Rightarrow> string \<Rightarrow> string set" where
  "members v k = (case v k of Some (RSet A) \<Rightarrow> A | _ \<Rightarrow> {})"

definition scores :: "rview \<Rightarrow> string \<Rightarrow> string \<rightharpoonup> float64" where
  "scores v k = (case v k of Some (RZSet z) \<Rightarrow> z | _ \<Rightarrow> Map.empty)"

text \<open>A set that becomes empty is no longer a key.\<close>

definition put_set :: "string \<Rightarrow> string set \<Rightarrow> rview \<Rightarrow> rview" where
  "put_set k A v = v(k := (if A = {} then None else Some (RSet A)))"

definition put_zset :: "string \<Rightarrow> (string \<rightharpoonup> float64) \<Rightarrow> rview \<Rightarrow> rview" where
  "put_zset k z v = v(k := (if z = Map.empty then None else Some (RZSet z)))"

lemma put_simps [simp]:
  "members (put_set k A v) k = A" "k' \<noteq> k \<Longrightarrow> members (put_set k A v) k' = members v k'"
  "k' \<noteq> k \<Longrightarrow> put_set k A v k' = v k'" "k' \<noteq> k \<Longrightarrow> scores (put_set k A v) k' = scores v k'"
  "scores (put_zset k z v) k = z" "k' \<noteq> k \<Longrightarrow> scores (put_zset k z v) k' = scores v k'"
  "k' \<noteq> k \<Longrightarrow> put_zset k z v k' = v k'" "k' \<noteq> k \<Longrightarrow> members (put_zset k z v) k' = members v k'"
  "k' \<noteq> k \<Longrightarrow> scores (v(k \<mapsto> RStr x)) k' = scores v k'" "k' \<noteq> k \<Longrightarrow> members (v(k \<mapsto> RStr x)) k' = members v k'"
  by (simp_all add: put_set_def put_zset_def members_def scores_def)

definition body :: "rview \<Rightarrow> string \<Rightarrow> string option" where
  "body v k = (case v k of Some (RStr d) \<Rightarrow> Some d | _ \<Rightarrow> None)"

text \<open>A string that is no pattern, as the argument of \<open>KEYS\<close>.\<close>

definition glob_free :: "string \<Rightarrow> bool" where
  "glob_free s \<longleftrightarrow> list_all (\<lambda>c. c \<notin> {CHR ''*'', CHR ''?'', CHR ''['', CHR 0x5C}) s"

text \<open>The order of finite doubles.\<close>

fun f64_le :: "float64 \<Rightarrow> float64 \<Rightarrow> bool" where
  "f64_le (Fin m e) (Fin n g) = (let k = min e g in m * 2 ^ nat (e - k) \<le> n * 2 ^ nat (g - k))"
| "f64_le NInf y = (y \<noteq> NaN)"
| "f64_le x PInf = (x \<noteq> NaN)"
| "f64_le x y = False"

text \<open>Keys of different kinds differ; an ID without a colon is no part of one.\<close>

abbreviation depsKey :: "string \<Rightarrow> string \<Rightarrow> string" where
  "depsKey pre c \<equiv> pre @ c @ '':deps_count''"

lemma status_digits: "Itoa (int (TaskStatus_int st)) \<noteq> [] \<and> last (Itoa (int (TaskStatus_int st))) \<noteq> CHR ''t''"
proof (cases st)
qed (simp only:, code_simp)+

lemma childrenKey_neq: "childrenKey pre pid st \<noteq> depsKey pre c"
proof
  assume "childrenKey pre pid st = depsKey pre c"
  then have "last (childrenKey pre pid st) = last (depsKey pre c)" by (rule arg_cong)
  then show False using status_digits [of st] by (simp add: childrenKey_def)
qed

lemma childrenKey_body: "CHR '':'' \<notin> set c \<Longrightarrow> childrenKey pre pid st \<noteq> pre @ c"
  by (auto simp: childrenKey_def)

lemma depsKey_body: "CHR '':'' \<notin> set c \<Longrightarrow> depsKey pre c' \<noteq> pre @ c"
  by auto

section \<open>The laws\<close>

locale redis_server =
  fixes R :: "'db Redis" and view :: "'db \<Rightarrow> rview"
  assumes SET: "rd_SET R k v db = (Inr u, db') \<Longrightarrow> view db' = (view db)(k \<mapsto> RStr v)"
    and SETEX: "rd_SETEX R k v secs db = (Inr u, db') \<Longrightarrow> view db' = (view db)(k \<mapsto> RStr v)"
    and SETEX_bad: "secs \<le> 0 \<Longrightarrow> \<exists>e db'. rd_SETEX R k v secs db = (Inl e, db') \<and> view db' = view db"
    and SETNX: "rd_SETNX R k v d db = (Inr r, db') \<Longrightarrow>
      (if view db k = None then r = Some ''OK'' \<and> view db' = (view db)(k \<mapsto> RStr v) else r = None \<and> view db' = view db)"
    and GET: "rd_GET R k db = (Inr r, db') \<Longrightarrow> view db' = view db \<and> view db k = map_option RStr r"
    and GET_view: "view (snd (rd_GET R k db)) = view db"
    and DEL: "rd_DEL R k db = (Inr u, db') \<Longrightarrow> view db' = (view db)(k := None)"
    and EXISTS: "rd_EXISTS R k db = (Inr n, db') \<Longrightarrow> view db' = view db \<and> (n = 0 \<longleftrightarrow> view db k = None)"
    and EXPIRE: "rd_EXPIRE R k secs db = (Inr n, db') \<Longrightarrow>
      (n = 0 \<longleftrightarrow> view db k = None) \<and> view db' = (if 0 < secs then view db else (view db)(k := None))"
    and KEYS: "glob_free pre \<Longrightarrow> rd_KEYS R (pre @ ''*'') db = (Inr ks, db') \<Longrightarrow>
      view db' = view db \<and> distinct ks \<and> set ks = {k \<in> dom (view db). HasPrefix k pre}"
    and DECR: "view db k = Some (RStr (Itoa n)) \<Longrightarrow> 0 < n \<Longrightarrow> rd_DECR R k db = (Inr i, db') \<Longrightarrow>
      i = n - 1 \<and> view db' = (view db)(k \<mapsto> RStr (Itoa (n - 1)))"
    and SADD: "rd_SADD R k m db = (Inr u, db') \<Longrightarrow> view db' = put_set k (insert m (members (view db) k)) (view db)"
    and SREM: "rd_SREM R k m db = (Inr u, db') \<Longrightarrow>
      view db' = put_set k (members (view db) k - {m}) (view db)"
    and SMEMBERS: "rd_SMEMBERS R k db = (Inr ms, db') \<Longrightarrow> view db' = view db \<and> distinct ms \<and> set ms = members (view db) k"
    and ZADD: "rd_ZADD R k s m db = (Inr u, db') \<Longrightarrow> view db' = put_zset k ((scores (view db) k)(m \<mapsto> s)) (view db)"
    and ZREM: "rd_ZREM R k ms db = (Inr u, db') \<Longrightarrow>
      view db' = put_zset k (scores (view db) k |` (- set ms)) (view db)"
    and ZPOPMAX: "rd_ZPOPMAX R k db = (Inr r, db') \<Longrightarrow>
      (case r of
         None \<Rightarrow> scores (view db) k = Map.empty \<and> view db' = view db
       | Some m \<Rightarrow> (\<exists>s. scores (view db) k m = Some s \<and> (\<forall>m' s'. scores (view db) k m' = Some s' \<longrightarrow> f64_le s' s)) \<and>
           view db' = put_zset k ((scores (view db) k)(m := None)) (view db))"
    and ZRANGEBYSCORE: "0 < cnt \<Longrightarrow> rd_ZRANGEBYSCORE R k lo hi cnt db = (Inr ms, db') \<Longrightarrow>
      view db' = view db \<and> distinct ms \<and> int (length ms) \<le> cnt \<and>
      set ms \<subseteq> {m. \<exists>s. scores (view db) k m = Some s \<and> f64_le (f64_of_int lo) s \<and> f64_le s (f64_of_int hi)} \<and>
      (int (length ms) < cnt \<longrightarrow>
        set ms = {m. \<exists>s. scores (view db) k m = Some s \<and> f64_le (f64_of_int lo) s \<and> f64_le s (f64_of_int hi)})"
begin

text \<open>Claiming a lease.\<close>

lemma claim:
  assumes "rs_client S = R" and "rs_Claim S tid inst d db = (Inr b, db')"
  shows "if view db (rs_prefix S @ tid @ '':lease'') = None
    then b \<and> view db' = (view db)(rs_prefix S @ tid @ '':lease'' \<mapsto> RStr inst) else \<not> b \<and> view db' = view db"
proof -
  obtain r where r: "rd_SETNX R (rs_prefix S @ tid @ '':lease'') inst d db = (Inr r, db')" "b = (r = Some ''OK'')"
    using assms by (auto simp: rs_Claim_def split: prod.splits sum.splits option.splits)
  show ?thesis using SETNX [OF r(1)] r(2) by (simp split: if_splits)
qed

text \<open>Keeping it.\<close>

lemma heartbeat:
  assumes "rs_client S = R" and "rs_Heartbeat S tid inst d db = (None, db')"
  shows "view db (rs_prefix S @ tid @ '':lease'') = Some (RStr inst) \<and>
    view db' = (if 0 < lease_secs d then view db else (view db)(rs_prefix S @ tid @ '':lease'' := None))"
proof -
  let ?k = "rs_prefix S @ tid @ '':lease''"
  obtain res where h: "luaHeartbeat R ?k inst (lease_secs d) db = (Inr res, db')" "res \<noteq> 0"
    using assms by (auto simp: rs_Heartbeat_def split: prod.splits sum.splits if_splits)
  then obtain db1 where g: "rd_GET R ?k db = (Inr (Some inst), db1)" "rd_EXPIRE R ?k (lease_secs d) db1 = (Inr res, db')"
    by (auto simp: luaHeartbeat_def rbind_def split: prod.splits sum.splits if_splits)
  show ?thesis using GET [OF g(1)] EXPIRE [OF g(2)] by simp
qed

lemma heartbeat_other:
  assumes "rs_client S = R" and "view db (rs_prefix S @ tid @ '':lease'') \<noteq> Some (RStr inst)"
    and "rs_Heartbeat S tid inst d db = (er, db')" and "rd_GET R (rs_prefix S @ tid @ '':lease'') db = (Inr g, db1)"
  shows "er = Some (ErrLeaseLost tid) \<and> view db' = view db"
proof -
  have "g \<noteq> Some inst" and v: "view db1 = view db" using GET [OF assms(4)] assms(2) by auto
  then show ?thesis using assms(1,3,4) by (auto simp: rs_Heartbeat_def luaHeartbeat_def rbind_def)
qed

lemma heartbeat_holder:
  assumes "rs_client S = R" and "view db (rs_prefix S @ tid @ '':lease'') = Some (RStr inst)"
    and "rs_Heartbeat S tid inst d db = (er, db')"
  shows "er \<noteq> Some (ErrLeaseLost tid)"
proof
  let ?k = "rs_prefix S @ tid @ '':lease''"
  assume "er = Some (ErrLeaseLost tid)"
  then have h: "luaHeartbeat R ?k inst (lease_secs d) db = (Inr 0, db')"
    using assms(1,3) by (auto simp: rs_Heartbeat_def split: prod.splits sum.splits if_splits)
  then obtain g db1 where g: "rd_GET R ?k db = (Inr g, db1)"
    by (auto simp: luaHeartbeat_def rbind_def split: prod.splits sum.splits)
  have "g = Some inst" "view db1 = view db" using GET [OF g] assms(2) by (cases g; simp)+
  moreover from this have "rd_EXPIRE R ?k (lease_secs d) db1 = (Inr 0, db')" using h g by (simp add: luaHeartbeat_def rbind_def)
  ultimately show False using EXPIRE assms(2) by (metis option.distinct(1))
qed

text \<open>Taking a task from the queue.\<close>

lemma dequeue:
  assumes "rs_client S = R" and "rs_Dequeue S inst d db = (Inr (Some t), db')"
  shows "\<exists>data tid pr s. js_Unmarshal (rs_json S) data = Inr t \<and> cjson_decode (rs_json S) data = Inr (tid, pr) \<and>
    scores (view db) (rs_prefix S @ ''queue'') data = Some s \<and>
    (\<forall>m' s'. scores (view db) (rs_prefix S @ ''queue'') m' = Some s' \<longrightarrow> f64_le s' s) \<and>
    scores (view db') (rs_prefix S @ ''queue'') = (scores (view db) (rs_prefix S @ ''queue''))(data := None) \<and>
    view db' (rs_prefix S @ tid @ '':lease'') = Some (RStr inst) \<and> 0 < lease_secs d \<and>
    tid \<in> members (view db') (rs_prefix S @ ''processing'')"
proof -
  let ?q = "rs_prefix S @ ''queue''" and ?p = "rs_prefix S @ ''processing''"
  obtain data where l: "luaDequeue R (rs_json S) ?q (rs_prefix S) inst (lease_secs d) db = (Inr (Some data), db')"
    "js_Unmarshal (rs_json S) data = Inr t"
    using assms by (auto simp: rs_Dequeue_def split: prod.splits sum.splits option.splits)
  obtain tid pr db1 db2 u1 u2 where z: "rd_ZPOPMAX R ?q db = (Inr (Some data), db1)" "cjson_decode (rs_json S) data = Inr (tid, pr)"
    "rd_SETEX R (rs_prefix S @ tid @ '':lease'') inst (lease_secs d) db1 = (Inr u1, db2)" "rd_SADD R ?p tid db2 = (Inr u2, db')"
    using l(1) by (auto simp: luaDequeue_def rbind_def split: prod.splits sum.splits option.splits)
  let ?l = "rs_prefix S @ tid @ '':lease''"
  have k: "?l \<noteq> ?q" "?l \<noteq> ?p" "?q \<noteq> ?p"
    by (auto simp: append_eq_Cons_conv Cons_eq_append_conv)
  have "0 < lease_secs d" using SETEX_bad [of "lease_secs d" ?l inst db1] z(3) by (cases "lease_secs d \<le> 0") auto
  moreover have "view db' = put_set ?p (insert tid (members (view db2) ?p)) ((view db1)(?l \<mapsto> RStr inst))"
    using SETEX [OF z(3)] SADD [OF z(4)] by simp
  then have "view db' ?l = Some (RStr inst)" "tid \<in> members (view db') ?p" "scores (view db') ?q = scores (view db1) ?q"
    using k by simp_all
  moreover obtain sc where "scores (view db) ?q data = Some sc" "\<forall>m' s'. scores (view db) ?q m' = Some s' \<longrightarrow> f64_le s' sc"
    "scores (view db1) ?q = (scores (view db) ?q)(data := None)" using ZPOPMAX [OF z(1)] by auto
  ultimately show ?thesis using l(2) z(2) by metis
qed

text \<open>A lease of less than a second: the script fails after the task has left the queue.\<close>

lemma dequeue_lost:
  assumes "rs_client S = R" and "lease_secs d \<le> 0" and "rd_ZPOPMAX R (rs_prefix S @ ''queue'') db = (Inr (Some data), db1)"
  shows "\<exists>err db'. rs_Dequeue S inst d db = (Inl err, db') \<and>
    view db' = put_zset (rs_prefix S @ ''queue'') ((scores (view db) (rs_prefix S @ ''queue''))(data := None)) (view db)"
proof (cases "cjson_decode (rs_json S) data")
  case (Inr r)
  obtain tid pr where r: "r = (tid, pr)" by (cases r)
  obtain e db2 where "rd_SETEX R (rs_prefix S @ tid @ '':lease'') inst (lease_secs d) db1 = (Inl e, db2)" "view db2 = view db1"
    using SETEX_bad [OF assms(2)] by blast
  then show ?thesis using ZPOPMAX [OF assms(3)] Inr r assms(1,3) by (simp add: rs_Dequeue_def luaDequeue_def rbind_def)
qed (use ZPOPMAX [OF assms(3)] assms in \<open>simp add: rs_Dequeue_def luaDequeue_def rbind_def\<close>)

lemma GET_body: "rd_GET R k db = (Inr r, db') \<Longrightarrow> view db' = view db \<and> r = body (view db) k"
  using GET by (cases r) (auto simp: body_def)

text \<open>The tasks that are due.\<close>

lemma bodies:
  "lua_bodies R pre ids db = (Inr ds, db') \<Longrightarrow>
   view db' = view db \<and> ds = List.map_filter (\<lambda>i. body (view db) (pre @ i)) ids"
proof (induction ids arbitrary: db ds db')
  case (Cons i ids)
  then obtain r db1 ds' where r: "rd_GET R (pre @ i) db = (Inr r, db1)" "lua_bodies R pre ids db1 = (Inr ds', db')"
    "ds = (case r of None \<Rightarrow> ds' | Some d \<Rightarrow> d # ds')"
    by (auto simp: rbind_def split: prod.splits sum.splits)
  show ?case using GET_body [OF r(1)] Cons.IH [OF r(2)] r(3) by (auto simp: List.map_filter_def split: option.splits)
qed (simp add: List.map_filter_def)

lemma pop_due:
  assumes "rs_client S = R" and "rs_PopDueDelayed S now batch db = (Inr ts, db')"
  defines "dk \<equiv> delayedKey S" and "cnt \<equiv> (if batch \<le> 0 then 100 else batch)"
  defines "due \<equiv> {m. \<exists>s. scores (view db) dk m = Some s \<and> f64_le (f64_of_int 0) s \<and> f64_le s (f64_of_int (now div 1000000))}"
  shows "\<exists>ms. distinct ms \<and> set ms \<subseteq> due \<and> int (length ms) \<le> cnt \<and> (int (length ms) < cnt \<longrightarrow> set ms = due) \<and>
    scores (view db') dk = scores (view db) dk |` (- set ms) \<and> (\<forall>k. k \<noteq> dk \<longrightarrow> view db' k = view db k) \<and>
    ts = decode_tasks (rs_json S) (List.map_filter (\<lambda>i. body (view db) (rs_prefix S @ i)) ms)"
proof -
  have cnt: "0 < cnt" by (simp add: cnt_def)
  obtain ds where l: "luaPopDueDelayed R dk (now div 1000000) cnt (rs_prefix S) db = (Inr ds, db')" "ts = decode_tasks (rs_json S) ds"
    using assms(1,2) unfolding dk_def cnt_def by (auto simp: rs_PopDueDelayed_def rbind_def wrap_err_def Let_def split: prod.splits sum.splits)
  obtain ms db1 where z: "rd_ZRANGEBYSCORE R dk 0 (now div 1000000) cnt db = (Inr ms, db1)"
    "(if ms = [] then (Inr [], db1) else rbind (rd_ZREM R dk ms db1) (\<lambda>_ db2. lua_bodies R (rs_prefix S) ms db2)) = (Inr ds, db')"
    using l(1) by (auto simp: luaPopDueDelayed_def rbind_def split: prod.splits sum.splits)
  note zr = ZRANGEBYSCORE [OF cnt z(1), folded due_def]
  show ?thesis
  proof (cases "ms = []")
    case True
    then have "ds = []" "db' = db1" using z(2) by simp_all
    then show ?thesis using zr True l(2) by (intro exI [of _ "[]"]) (simp add: List.map_filter_def restrict_map_def)
  next
    case False
    then obtain u db2 where b: "rd_ZREM R dk ms db1 = (Inr u, db2)" "lua_bodies R (rs_prefix S) ms db2 = (Inr ds, db')"
      using z(2) by (auto simp: rbind_def split: prod.splits sum.splits)
    have v: "view db' = put_zset dk (scores (view db) dk |` (- set ms)) (view db)" using bodies [OF b(2)] ZREM [OF b(1)] zr by simp
    obtain m where "m \<in> set ms" using False by (cases ms) auto
    then have "scores (view db) dk m \<noteq> None" using zr unfolding due_def by auto
    then have "body (view db) dk = None" by (auto simp: scores_def body_def split: option.splits rval.splits)
    then have "body (view db') k = body (view db) k" for k
      unfolding v by (cases "k = dk") (auto simp: body_def put_zset_def)
    moreover have "scores (view db') dk = scores (view db) dk |` (- set ms)" "\<forall>k. k \<noteq> dk \<longrightarrow> view db' k = view db k"
      by (simp_all add: v)
    ultimately show ?thesis using bodies [OF b(2)] zr l(2) by (intro exI [of _ ms]) simp
  qed
qed

text \<open>The orphans of the processing set.\<close>

lemma orphans:
  assumes "lua_orphans R J (pre @ ''processing'') pre (pre @ ''queue'') n ids db = (Inr n', db')"
    and "''queue'' \<notin> set ids" and "''processing'' \<notin> set ids"
  defines "orphan \<equiv> \<lambda>i. view db (pre @ i @ '':lease'') = None"
  shows "members (view db') (pre @ ''processing'') = members (view db) (pre @ ''processing'') - {i \<in> set ids. orphan i} \<and>
    n' = n + int (length (filter (\<lambda>i. orphan i \<and> body (view db) (pre @ i) \<noteq> None) ids)) \<and>
    (\<forall>k. k \<noteq> pre @ ''processing'' \<and> k \<noteq> pre @ ''queue'' \<longrightarrow> view db' k = view db k) \<and>
    dom (scores (view db') (pre @ ''queue'')) =
      dom (scores (view db) (pre @ ''queue'')) \<union> {d. \<exists>i \<in> set ids. orphan i \<and> body (view db) (pre @ i) = Some d}"
  using assms(1-3) unfolding orphan_def
proof (induction ids arbitrary: n db)
  case (Cons i ids)
  let ?p = "pre @ ''processing''" and ?q = "pre @ ''queue''" and ?l = "\<lambda>i. pre @ i @ '':lease''"
  have k: "?l j \<noteq> ?q" "?l j \<noteq> ?p" "?q \<noteq> ?p" for j by (auto simp: append_eq_Cons_conv Cons_eq_append_conv)
  have b: "pre @ j \<noteq> ?q \<and> pre @ j \<noteq> ?p" if "j \<in> set (i # ids)" for j using Cons.prems(2,3) that by auto
  have bc: "body v' (pre @ j) = body v (pre @ j)"
    if "\<forall>k. k \<noteq> ?p \<and> k \<noteq> ?q \<longrightarrow> v' k = v k" "j \<in> set ids" for v v' j using that b [of j] by (simp add: body_def)
  obtain e db1 where e: "rd_EXISTS R (?l i) db = (Inr e, db1)" using Cons.prems(1) by (auto simp: rbind_def split: prod.splits sum.splits)
  note v1 = EXISTS [OF e]
  show ?case
  proof (cases "e = 0")
    case False
    then have "lua_orphans R J ?p pre ?q n ids db1 = (Inr n', db')" using Cons.prems(1) e by (simp add: rbind_def)
    then show ?thesis using Cons.IH [of n db1] Cons.prems(2,3) v1 False by auto
  next
    case True
    obtain r db2 where g: "rd_GET R (pre @ i) db1 = (Inr r, db2)"
      using Cons.prems(1) e True by (auto simp: rbind_def split: prod.splits sum.splits)
    note v2 = GET_body [OF g]
    obtain m db4 where m: "lua_orphans R J ?p pre ?q m ids db4 = (Inr n', db')" "m = n + (if r = None then 0 else 1)"
      "\<forall>k. k \<noteq> ?p \<and> k \<noteq> ?q \<longrightarrow> view db4 k = view db k" "members (view db4) ?p = members (view db) ?p - {i}"
      "dom (scores (view db4) ?q) = dom (scores (view db) ?q) \<union> set_option r"
    proof (cases r)
      case None
      then obtain u db3 where s: "rd_SREM R ?p i db2 = (Inr u, db3)" "lua_orphans R J ?p pre ?q n ids db3 = (Inr n', db')"
        using Cons.prems(1) e True g by (auto simp: rbind_def split: prod.splits sum.splits)
      show ?thesis using that [of n db3] s(2) SREM [OF s(1)] v1 v2 k(3) None by simp
    next
      case (Some d)
      then obtain ji pr u db3 u' db4 where s: "cjson_decode J d = Inr (ji, pr)" "rd_ZADD R ?q (f64_of_int pr) d db2 = (Inr u, db3)"
        "rd_SREM R ?p i db3 = (Inr u', db4)" "lua_orphans R J ?p pre ?q (n + 1) ids db4 = (Inr n', db')"
        using Cons.prems(1) e True g by (auto simp: rbind_def split: prod.splits sum.splits)
      have "view db2 = view db" using v1 v2 by simp
      then have v4: "view db4 = put_set ?p (members (view db) ?p - {i})
          (put_zset ?q ((scores (view db) ?q)(d \<mapsto> f64_of_int pr)) (view db))"
        using ZADD [OF s(2)] SREM [OF s(3)] k(3) by simp
      show ?thesis
      proof (rule that [OF s(4)])
        show "n + 1 = n + (if r = None then 0 else 1)" using Some by simp
        show "dom (scores (view db4) ?q) = dom (scores (view db) ?q) \<union> set_option r" using v4 k(3) Some by simp
      qed (use v4 in simp_all)
    qed
    have l: "view db4 (?l j) = view db (?l j)" for j using m(3) k by blast
    have bb: "body (view db4) (pre @ j) = body (view db) (pre @ j)" if "j \<in> set ids" for j using bc m(3) that by blast
    have IH: "members (view db') ?p = members (view db4) ?p - {j \<in> set ids. view db4 (?l j) = None} \<and>
      n' = m + int (length (filter (\<lambda>j. view db4 (?l j) = None \<and> body (view db4) (pre @ j) \<noteq> None) ids)) \<and>
      (\<forall>k. k \<noteq> ?p \<and> k \<noteq> ?q \<longrightarrow> view db' k = view db4 k) \<and>
      dom (scores (view db') ?q) = dom (scores (view db4) ?q) \<union>
        {d. \<exists>j \<in> set ids. view db4 (?l j) = None \<and> body (view db4) (pre @ j) = Some d}"
      using Cons.IH [OF m(1)] Cons.prems(2,3) by simp
    have f: "filter (\<lambda>j. view db4 (?l j) = None \<and> body (view db4) (pre @ j) \<noteq> None) ids =
        filter (\<lambda>j. view db (?l j) = None \<and> body (view db) (pre @ j) \<noteq> None) ids"
      using l bb by (intro filter_cong) auto
    have r: "view db (?l i) = None" "r = body (view db) (pre @ i)" using v1 v2 True by simp_all
    show ?thesis using IH [unfolded f, unfolded l] m(2-5) r bb by (cases "body (view db) (pre @ i)") auto
  qed
qed simp

text \<open>Counting down the dependencies of the children.\<close>

lemma children:
  assumes "lua_children R pre ready cs db = (Inr ready', db')" and "distinct cs"
    and "\<And>c. c \<in> set cs \<Longrightarrow> CHR '':'' \<notin> set c \<and> 0 < cnt c \<and> view db (depsKey pre c) = Some (RStr (Itoa (cnt c)))"
  shows "ready' = ready @ List.map_filter (\<lambda>c. if cnt c = 1 then body (view db) (pre @ c) else None) cs \<and>
    (\<forall>c \<in> set cs. view db' (depsKey pre c) =
      (if cnt c = 1 \<and> body (view db) (pre @ c) \<noteq> None then None else Some (RStr (Itoa (cnt c - 1))))) \<and>
    (\<forall>k. k \<notin> depsKey pre ` set cs \<longrightarrow> view db' k = view db k)"
  using assms
proof (induction cs arbitrary: ready db)
  case (Cons c cs)
  have c: "CHR '':'' \<notin> set c" "0 < cnt c" "view db (depsKey pre c) = Some (RStr (Itoa (cnt c)))" using Cons.prems(3) by simp_all
  obtain i db1 where d: "rd_DECR R (depsKey pre c) db = (Inr i, db1)"
    using Cons.prems(1) by (auto simp: rbind_def split: prod.splits sum.splits)
  have v1: "i = cnt c - 1" "view db1 = (view db)(depsKey pre c \<mapsto> RStr (Itoa (cnt c - 1)))" using DECR [OF c(3,2) d] by simp_all
  obtain rd db3 where m: "lua_children R pre (ready @ rd) cs db3 = (Inr ready', db')"
    "rd = (if cnt c = 1 then case body (view db) (pre @ c) of None \<Rightarrow> [] | Some x \<Rightarrow> [x] else [])"
    "view db3 = (view db)(depsKey pre c := (if cnt c = 1 \<and> body (view db) (pre @ c) \<noteq> None then None else Some (RStr (Itoa (cnt c - 1)))))"
  proof (cases "i = 0")
    case True
    then obtain r db2 where g: "rd_GET R (pre @ c) db1 = (Inr r, db2)"
      using Cons.prems(1) d by (auto simp: rbind_def split: prod.splits sum.splits)
    have r: "view db2 = view db1" "r = body (view db) (pre @ c)"
      using GET_body [OF g] v1(2) depsKey_body [OF c(1), of pre c] by (auto simp: body_def)
    show ?thesis
    proof (cases r)
      case None
      then have "lua_children R pre (ready @ []) cs db2 = (Inr ready', db')" using Cons.prems(1) d g True by (simp add: rbind_def)
      then show ?thesis by (rule that) (use r v1 None True in simp_all)
    next
      case (Some x)
      then obtain u db3 where "rd_DEL R (depsKey pre c) db2 = (Inr u, db3)" "lua_children R pre (ready @ [x]) cs db3 = (Inr ready', db')"
        using Cons.prems(1) d g True by (auto simp: rbind_def split: prod.splits sum.splits)
      moreover from this have "view db3 = (view db)(depsKey pre c := None)" using DEL r(1) v1(2) by simp
      moreover have "body (view db) (pre @ c) = Some x" using r(2) Some by simp
      ultimately show ?thesis using v1(1) True by (intro that [of "[x]" db3]) simp_all
    qed
  next
    case False
    then have "lua_children R pre (ready @ []) cs db1 = (Inr ready', db')" using Cons.prems(1) d by (simp add: rbind_def)
    then show ?thesis by (rule that) (use v1 False in simp_all)
  qed
  have k: "depsKey pre x \<noteq> depsKey pre c" if "x \<in> set cs" for x using Cons.prems(2) that by auto
  have b: "body (view db3) (pre @ x) = body (view db) (pre @ x)" if "x \<in> set cs" for x
    using m(3) depsKey_body [of x pre c] Cons.prems(3) [of x] that by (simp add: body_def)
  have "view db3 (depsKey pre x) = view db (depsKey pre x)" if "x \<in> set cs" for x using k that by (simp add: m(3))
  then have IH: "ready' = (ready @ rd) @ List.map_filter (\<lambda>c. if cnt c = 1 then body (view db3) (pre @ c) else None) cs \<and>
      (\<forall>c \<in> set cs. view db' (depsKey pre c) =
        (if cnt c = 1 \<and> body (view db3) (pre @ c) \<noteq> None then None else Some (RStr (Itoa (cnt c - 1))))) \<and>
      (\<forall>k. k \<notin> depsKey pre ` set cs \<longrightarrow> view db' k = view db3 k)"
    using Cons.IH [OF m(1)] Cons.prems(2,3) by simp
  have f: "List.map_filter (\<lambda>c. if cnt c = 1 then body (view db3) (pre @ c) else None) cs =
      List.map_filter (\<lambda>c. if cnt c = 1 then body (view db) (pre @ c) else None) cs"
    using b by (induction cs) (auto simp: List.map_filter_def)
  have "depsKey pre c \<notin> depsKey pre ` set cs" using k by blast
  then have "view db' (depsKey pre c) = view db3 (depsKey pre c)" using IH by blast
  moreover have "ready' = ready @ List.map_filter (\<lambda>c. if cnt c = 1 then body (view db) (pre @ c) else None) (c # cs)"
    using IH f m(2) by (auto simp: List.map_filter_def split: option.splits)
  ultimately show ?case using IH b m(3) by auto
qed (simp add: List.map_filter_def)

lemma resolve:
  assumes "rs_client S = R" and "rs_ResolveDependencies S pid st db = (Inr ts, db')"
    and "\<And>c. c \<in> members (view db) (childrenKey (rs_prefix S) pid st) \<Longrightarrow>
      CHR '':'' \<notin> set c \<and> 0 < cnt c \<and> view db (depsKey (rs_prefix S) c) = Some (RStr (Itoa (cnt c)))"
  shows "\<exists>cs. distinct cs \<and> set cs = members (view db) (childrenKey (rs_prefix S) pid st) \<and>
    ts = decode_tasks (rs_json S) (List.map_filter (\<lambda>c. if cnt c = 1 then body (view db) (rs_prefix S @ c) else None) cs) \<and>
    (\<forall>c \<in> set cs. view db' (depsKey (rs_prefix S) c) =
      (if cnt c = 1 \<and> body (view db) (rs_prefix S @ c) \<noteq> None then None else Some (RStr (Itoa (cnt c - 1))))) \<and>
    view db' (childrenKey (rs_prefix S) pid st) = None"
proof -
  let ?ck = "childrenKey (rs_prefix S) pid st"
  obtain cs db1 res db2 u where r: "rd_SMEMBERS R ?ck db = (Inr cs, db1)" "lua_children R (rs_prefix S) [] cs db1 = (Inr res, db2)"
    "rd_DEL R ?ck db2 = (Inr u, db')" "ts = decode_tasks (rs_json S) res"
    using assms(1,2) by (auto simp: rs_ResolveDependencies_def luaResolveDeps_def rbind_def wrap_err_def split: prod.splits sum.splits)
  note v1 = SMEMBERS [OF r(1)]
  have c: "CHR '':'' \<notin> set c \<and> 0 < cnt c \<and> view db1 (depsKey (rs_prefix S) c) = Some (RStr (Itoa (cnt c)))" if "c \<in> set cs" for c
    using assms(3) v1 that by simp
  have e: "view db1 = view db" using v1 by simp
  note ch = children [OF r(2) _ c, unfolded e]
  have v2: "view db' = (view db2)(?ck := None)" using DEL [OF r(3)] .
  have "view db' (depsKey (rs_prefix S) c) = view db2 (depsKey (rs_prefix S) c)" for c
    using childrenKey_neq [of "rs_prefix S" pid st c] by (simp add: v2)
  then show ?thesis using ch v1 v2 r(4) by (intro exI [of _ cs]) simp
qed

text \<open>Loading what was saved.\<close>

lemma load_keys_view: "view (snd (load_keys S ks db)) = view db" if "rs_client S = R"
  by (induction ks arbitrary: db) (use that GET_view in \<open>simp_all add: split_beta\<close>)

lemma load_keys_mem:
  assumes "rs_client S = R" and "k \<in> set ks" and "view db k = Some (RStr data)" and "js_Unmarshal (rs_json S) data = Inr t"
    and "\<And>db'. view db' = view db \<Longrightarrow> \<exists>r db''. rd_GET R k db' = (Inr r, db'')"
  shows "t \<in> set (fst (load_keys S ks db))"
  using assms(2,3,5)
proof (induction ks arbitrary: db)
  case (Cons x ks)
  show ?case
  proof (cases "x = k")
    case True
    then obtain r db1 where "rd_GET R k db = (Inr r, db1)" using Cons.prems(3) by blast
    moreover from this have "r = Some data" using GET Cons.prems(2) by (cases r) auto
    ultimately have "rd_GET R k db = (Inr (Some data), db1)" by simp
    then show ?thesis using True assms(1,4) by (simp add: split_beta)
  next
    case False
    have v: "view (snd (rd_GET R x db)) = view db" by (rule GET_view)
    have "t \<in> set (fst (load_keys S ks (snd (rd_GET R x db))))"
      using Cons.IH [of "snd (rd_GET R x db)"] Cons.prems False v by simp
    then show ?thesis using assms(1) by (auto simp: split_beta split: sum.split option.split)
  qed
qed simp

lemma loads_saved:
  assumes "rs_client S = R" and "js_Marshal (rs_json S) t = Inr data" and "js_Unmarshal (rs_json S) data = Inr t"
    and "glob_free (rs_prefix S)" and "rs_Save S t db = (None, db1)" and "rs_LoadAll S db1 = (Inr ts, db2)"
    and "\<And>db k. \<exists>r db'. rd_GET R k db = (Inr r, db') \<or> body (view db) k = None"
  shows "t \<in> set ts"
proof -
  let ?k = "rs_prefix S @ p_ID t"
  obtain u where "rd_SET R ?k data db = (Inr u, db1)"
    using assms(1,2,5) by (auto simp: rs_Save_def cmd_Err_def split: prod.splits sum.splits)
  then have v: "view db1 = (view db)(?k \<mapsto> RStr data)" by (rule SET)
  obtain ks db3 where k: "rd_KEYS R (rs_prefix S @ ''*'') db1 = (Inr ks, db3)" "ts = fst (load_keys S ks db3)"
    using assms(1,6) by (auto simp: rs_LoadAll_def rbind_def wrap_err_def split: prod.splits sum.splits)
  note kk = KEYS [OF assms(4) k(1)]
  have "?k \<in> set ks" using kk v by (auto simp: HasPrefix_iff)
  moreover have "view db3 ?k = Some (RStr data)" using kk v by simp
  moreover have "\<exists>r db''. rd_GET R ?k db' = (Inr r, db'')" if "view db' = view db3" for db'
    using assms(7) [of ?k db'] that calculation(2) by (auto simp: body_def)
  ultimately show ?thesis unfolding k(2) by (intro load_keys_mem [OF assms(1) _ _ assms(3)])
qed

end

section \<open>A server that answers\<close>

text \<open>The commands that save a waiting task are answered, unless a key holds a value of another type.\<close>

definition set_key :: "rview \<Rightarrow> string \<Rightarrow> bool" where
  "set_key v k \<longleftrightarrow> (case v k of None \<Rightarrow> True | Some (RSet A) \<Rightarrow> True | _ \<Rightarrow> False)"

lemma distinct_singleton: "distinct xs \<Longrightarrow> set xs = {a} \<Longrightarrow> xs = [a]"
proof (cases xs)
  case (Cons x ys)
  assume "distinct xs" "set xs = {a}"
  then have "x = a" "set ys \<subseteq> {a}" "a \<notin> set ys" using Cons by auto
  then show ?thesis using Cons by (cases ys) auto
qed simp

locale live_redis_server = redis_server +
  assumes SET_ok: "\<exists>db'. rd_SET R k v db = (Inr (), db')"
    and SADD_ok: "set_key (view db) k \<Longrightarrow> \<exists>db'. rd_SADD R k m db = (Inr (), db')"
begin

lemma add_children:
  fixes tid :: string and deps :: "TaskDependency list"
  assumes "rs_client S = R" and "\<forall>dep \<in> set deps. set_key (view db) (childrenKey (rs_prefix S) (ParentID dep) (Trigger dep))"
  defines "cks \<equiv> (\<lambda>dep. childrenKey (rs_prefix S) (ParentID dep) (Trigger dep)) ` set deps"
  defines "db' \<equiv> fold (\<lambda>dep db. snd (rd_SADD (rs_client S) (childrenKey (rs_prefix S) (ParentID dep) (Trigger dep)) tid db)) deps db"
  shows "(\<forall>k. members (view db') k = (if k \<in> cks then insert tid (members (view db) k) else members (view db) k)) \<and> (\<forall>k. k \<notin> cks \<longrightarrow> view db' k = view db k)"
  using assms(2) unfolding cks_def db'_def
proof (induction deps arbitrary: db)
  case (Cons dep deps)
  let ?ck = "\<lambda>dep :: TaskDependency. childrenKey (rs_prefix S) (ParentID dep) (Trigger dep)"
  obtain db1 where a: "rd_SADD R (?ck dep) tid db = (Inr (), db1)" using SADD_ok Cons.prems by fastforce
  note v = SADD [OF a]
  have m: "members (view db1) k = (if k = ?ck dep then insert tid (members (view db) k) else members (view db) k)" for k
    by (simp add: v)
  have "\<forall>d \<in> set deps. set_key (view db1) (?ck d)"
    using Cons.prems by (auto simp: v set_key_def put_set_def)
  note IH = Cons.IH [OF this]
  have f: "k \<noteq> ?ck dep \<Longrightarrow> view db1 k = view db k" for k by (simp add: v)
  show ?case using IH f a assms(1) by (auto simp: m)
qed simp

lemma save_waiting:
  assumes "rs_client S = R" and "js_Marshal (rs_json S) t = Inr data" and "CHR '':'' \<notin> set (p_ID t)"
    and "\<forall>dep \<in> set (allDeps t). set_key (view db) (childrenKey (rs_prefix S) (ParentID dep) (Trigger dep))"
    and "rs_SaveWaiting S t db = (er, db')"
  shows "er = None \<and> view db' (rs_prefix S @ p_ID t) = Some (RStr data) \<and>
    view db' (depsKey (rs_prefix S) (p_ID t)) = Some (RStr (Itoa (int (length (allDeps t))))) \<and>
    (\<forall>dep \<in> set (allDeps t). members (view db') (childrenKey (rs_prefix S) (ParentID dep) (Trigger dep)) =
      insert (p_ID t) (members (view db) (childrenKey (rs_prefix S) (ParentID dep) (Trigger dep))))"
proof -
  let ?ck = "\<lambda>dep :: TaskDependency. childrenKey (rs_prefix S) (ParentID dep) (Trigger dep)"
  obtain db1 where s: "rd_SET R (rs_prefix S @ p_ID t) data db = (Inr (), db1)" using SET_ok by blast
  define db2 where "db2 = fold (\<lambda>dep db. snd (rd_SADD (rs_client S) (?ck dep) (p_ID t) db)) (allDeps t) db1"
  obtain db3 where s3: "rd_SET R (depsKey (rs_prefix S) (p_ID t)) (Itoa (int (length (allDeps t)))) db2 = (Inr (), db3)"
    using SET_ok by blast
  have r: "er = None" "db' = db3" using assms(1,2,5) s s3 by (simp_all add: rs_SaveWaiting_def Let_def db2_def)
  have ne: "?ck dep \<noteq> rs_prefix S @ p_ID t" "?ck dep \<noteq> depsKey (rs_prefix S) (p_ID t)" for dep
    using childrenKey_body [OF assms(3)] childrenKey_neq by blast+
  note v1 = SET [OF s]
  have "\<forall>dep \<in> set (allDeps t). set_key (view db1) (?ck dep)" using assms(4) by (simp add: v1 set_key_def ne)
  note v2 = add_children [OF assms(1) this, of "p_ID t", folded db2_def]
  have "view db2 (rs_prefix S @ p_ID t) = Some (RStr data)" using v2 ne(1) v1 by (metis (no_types, lifting) fun_upd_same imageE)
  moreover have "members (view db1) (?ck dep) = members (view db) (?ck dep)" for dep by (simp add: v1 ne)
  moreover have "rs_prefix S @ p_ID t \<noteq> depsKey (rs_prefix S) (p_ID t)" by simp
  ultimately show ?thesis using v2 by (simp add: r SET [OF s3] ne)
qed

text \<open>A waiting task is handed out by the last of its dependencies.\<close>

lemma released:
  assumes "rs_client S = R" and "js_Marshal (rs_json S) t = Inr data" and "js_Unmarshal (rs_json S) data = Inr t"
    and "CHR '':'' \<notin> set (p_ID t)" and "dep \<in> set (allDeps t)"
    and "\<forall>d \<in> set (allDeps t). set_key (view db) (childrenKey (rs_prefix S) (ParentID d) (Trigger d))"
    and "members (view db) (childrenKey (rs_prefix S) (ParentID dep) (Trigger dep)) = {}"
    and "rs_SaveWaiting S t db = (er, db1)" and "rs_ResolveDependencies S (ParentID dep) (Trigger dep) db1 = (Inr ts, db2)"
  shows "ts = (if length (allDeps t) = 1 then [t] else []) \<and>
    view db2 (depsKey (rs_prefix S) (p_ID t)) =
      (if length (allDeps t) = 1 then None else Some (RStr (Itoa (int (length (allDeps t)) - 1)))) \<and>
    view db2 (childrenKey (rs_prefix S) (ParentID dep) (Trigger dep)) = None"
proof -
  let ?n = "int (length (allDeps t))" and ?ck = "childrenKey (rs_prefix S) (ParentID dep) (Trigger dep)"
  note w = save_waiting [OF assms(1,2,4,6,8)]
  have m: "members (view db1) ?ck = {p_ID t}" using w assms(5,7) by simp
  have b: "body (view db1) (rs_prefix S @ p_ID t) = Some data" using w by (simp add: body_def)
  have "CHR '':'' \<notin> set c \<and> 0 < ?n \<and> view db1 (depsKey (rs_prefix S) c) = Some (RStr (Itoa ?n))"
    if "c \<in> members (view db1) ?ck" for c using that m w assms(4,5) by (auto simp: length_pos_if_in_set)
  from resolve [OF assms(1,9) this]
  obtain cs where r: "distinct cs" "set cs = {p_ID t}"
    "ts = decode_tasks (rs_json S) (List.map_filter (\<lambda>c. if ?n = 1 then body (view db1) (rs_prefix S @ c) else None) cs)"
    "\<forall>c \<in> set cs. view db2 (depsKey (rs_prefix S) c) =
      (if ?n = 1 \<and> body (view db1) (rs_prefix S @ c) \<noteq> None then None else Some (RStr (Itoa (?n - 1))))"
    "view db2 ?ck = None"
    using m by auto
  have "cs = [p_ID t]" using r(1,2) by (rule distinct_singleton)
  then show ?thesis using r(3-5) b assms(3) by (simp add: List.map_filter_def)
qed

end

section \<open>Messages\<close>

text \<open>What is published is appended to the messages that the subscribers of the server receive.\<close>

locale redis_pubsub =
  fixes R :: "'db Redis" and published :: "'db \<Rightarrow> (string \<times> string) list"
  assumes PUBLISH: "rd_PUBLISH R ch m db = (Inr u, db') \<Longrightarrow> published db' = published db @ [(ch, m)]"
begin

lemma publish_cancel:
  assumes "rs_client S = R" and "rs_PublishCancel S tid db = (None, db')"
  shows "published db' = published db @ [(rs_prefix S @ ''cmd:cancel'', tid)]"
  using assms(2) by (auto simp: rs_PublishCancel_def cmd_Err_def assms(1) dest: PUBLISH split: prod.splits sum.splits)

end

end
