(* ===== verification/Mini_Redis.thy ===== *)
theory Mini_Redis
  imports Redis_Server
begin

text \<open>
  A small Redis server whose keys are an association list. It obeys the laws of
  \<open>redis_server\<close>, so the theorems about the Redis storage have an instance.
\<close>

section \<open>A small server\<close>

datatype mval = MStr string | MSet "string list" | MZ "(string \<times> float64) list"

type_synonym mini = "mval gomap"

definition mview :: "mini \<Rightarrow> rview" where
  "mview db k = (case gm_get db k of
     None \<Rightarrow> None
   | Some (MStr s) \<Rightarrow> Some (RStr s)
   | Some (MSet xs) \<Rightarrow> Some (RSet (set xs))
   | Some (MZ z) \<Rightarrow> Some (RZSet (map_of z)))"

definition wrong_type :: error where
  "wrong_type = ErrBackend ''WRONGTYPE''"

text \<open>A set or sorted set under a key; the empty one when there is no key.\<close>

definition m_set :: "string \<Rightarrow> mini \<Rightarrow> string list option" where
  "m_set k db = (case gm_get db k of None \<Rightarrow> Some [] | Some (MSet xs) \<Rightarrow> Some xs | _ \<Rightarrow> None)"

definition m_zset :: "string \<Rightarrow> mini \<Rightarrow> (string \<times> float64) list option" where
  "m_zset k db = (case gm_get db k of None \<Rightarrow> Some [] | Some (MZ z) \<Rightarrow> Some z | _ \<Rightarrow> None)"

definition put_mset :: "string \<Rightarrow> string list \<Rightarrow> mini \<Rightarrow> mini" where
  "put_mset k xs db = (if xs = [] then gm_del k db else gm_put k (MSet xs) db)"

definition put_mz :: "string \<Rightarrow> (string \<times> float64) list \<Rightarrow> mini \<Rightarrow> mini" where
  "put_mz k z db = (if z = [] then gm_del k db else gm_put k (MZ z) db)"

definition on_set :: "string \<Rightarrow> mini \<Rightarrow> (string list \<Rightarrow> (error + 'a) \<times> mini) \<Rightarrow> (error + 'a) \<times> mini" where
  "on_set k db f = (case m_set k db of None \<Rightarrow> (Inl wrong_type, db) | Some xs \<Rightarrow> f xs)"

definition on_zset :: "string \<Rightarrow> mini \<Rightarrow> ((string \<times> float64) list \<Rightarrow> (error + 'a) \<times> mini) \<Rightarrow> (error + 'a) \<times> mini" where
  "on_zset k db f = (case m_zset k db of None \<Rightarrow> (Inl wrong_type, db) | Some z \<Rightarrow> f z)"

definition m_max :: "(string \<times> float64) list \<Rightarrow> (string \<times> float64) option" where
  "m_max z = find (\<lambda>(m, s). map_of z m = Some s \<and> list_all (\<lambda>(m', s'). f64_le s' s) z) z"

definition m_range :: "int \<Rightarrow> int \<Rightarrow> (string \<times> float64) list \<Rightarrow> string list" where
  "m_range lo hi z = filter (\<lambda>m. case map_of z m of None \<Rightarrow> False | Some s \<Rightarrow> f64_le (f64_of_int lo) s \<and> f64_le s (f64_of_int hi))
     (remdups (map fst z))"

definition mini_redis :: "mini Redis" where
  "mini_redis = \<lparr>rd_SET = (\<lambda>k v db. (Inr (), gm_put k (MStr v) db)),
     rd_SETEX = (\<lambda>k v secs db. if secs \<le> 0 then (Inl (ErrBackend ''invalid expire time''), db) else (Inr (), gm_put k (MStr v) db)),
     rd_SETNX = (\<lambda>k v d db. if gm_get db k = None then (Inr (Some ''OK''), gm_put k (MStr v) db) else (Inr None, db)),
     rd_GET = (\<lambda>k db. (case gm_get db k of None \<Rightarrow> Inr None | Some (MStr s) \<Rightarrow> Inr (Some s) | _ \<Rightarrow> Inl wrong_type, db)),
     rd_DEL = (\<lambda>k db. (Inr (), gm_del k db)),
     rd_EXISTS = (\<lambda>k db. (Inr (if gm_get db k = None then 0 else 1), db)),
     rd_EXPIRE = (\<lambda>k secs db. (Inr (if gm_get db k = None then 0 else 1), if 0 < secs then db else gm_del k db)),
     rd_KEYS = (\<lambda>pat db. (Inr (filter (\<lambda>k. HasPrefix k (butlast pat)) (remdups (map fst db))), db)),
     rd_DECR = (\<lambda>k db. case gm_get db k of
        None \<Rightarrow> (Inr (-1), gm_put k (MStr ''-1'') db)
      | Some (MStr s) \<Rightarrow> (let n = int (digits_val s) - 1 in (Inr n, gm_put k (MStr (if n < 0 then ''-1'' else Itoa n)) db))
      | _ \<Rightarrow> (Inl wrong_type, db)),
     rd_SADD = (\<lambda>k m db. on_set k db (\<lambda>xs. (Inr (), put_mset k (List.insert m xs) db))),
     rd_SREM = (\<lambda>k m db. on_set k db (\<lambda>xs. (Inr (), put_mset k (removeAll m xs) db))),
     rd_SMEMBERS = (\<lambda>k db. on_set k db (\<lambda>xs. (Inr (remdups xs), db))),
     rd_ZADD = (\<lambda>k s m db. on_zset k db (\<lambda>z. (Inr (), put_mz k (AList.update m s z) db))),
     rd_ZREM = (\<lambda>k ms db. on_zset k db (\<lambda>z. (Inr (), put_mz k (filter (\<lambda>(m, s). m \<notin> set ms) z) db))),
     rd_ZPOPMAX = (\<lambda>k db. on_zset k db (\<lambda>z. if z = [] then (Inr None, db) else
        case m_max z of None \<Rightarrow> (Inl wrong_type, db) | Some (m, s) \<Rightarrow> (Inr (Some m), put_mz k (AList.delete m z) db))),
     rd_ZRANGEBYSCORE = (\<lambda>k lo hi cnt db. on_zset k db (\<lambda>z. (Inr (take (nat cnt) (m_range lo hi z)), db))),
     rd_ZREVRANGE = (\<lambda>k start stop db. on_zset k db (\<lambda>z. (Inr (take (nat (stop + 1 - start)) (drop (nat start) (rev (map fst z)))), db))),
     rd_ZREMRANGEBYSCORE = (\<lambda>k hi db. on_zset k db (\<lambda>z. (Inr (), put_mz k (filter (\<lambda>(m, s). \<not> f64_le s (f64_of_int hi)) z) db))),
     rd_ZREMRANGEBYRANK = (\<lambda>k start stop db. (Inr (), db)),
     rd_PUBLISH = (\<lambda>ch m db. (Inr (), db)),
     rd_clock = (\<lambda>db. 1700000000000000000)\<rparr>"

lemma mview_put [simp]:
  "mview (gm_put k (MStr s) db) = (mview db)(k \<mapsto> RStr s)" "mview (gm_del k db) = (mview db)(k := None)"
  "mview (put_mset k xs db) = put_set k (set xs) (mview db)"
  by (auto simp: mview_def put_mset_def put_set_def fun_eq_iff)

lemma mview_put_mz [simp]: "mview (put_mz k z db) = put_zset k (map_of z) (mview db)"
proof -
  have "mview (gm_put k (MZ z) db) = (mview db)(k \<mapsto> RZSet (map_of z))" by (auto simp: mview_def fun_eq_iff)
  then show ?thesis by (simp add: put_mz_def put_zset_def)
qed

lemma mini_GET: "rd_GET mini_redis k db = (Inr r, db') \<Longrightarrow> mview db' = mview db \<and> mview db k = map_option RStr r"
  by (auto simp: mini_redis_def mview_def split: option.splits mval.splits)

lemma mini_DECR:
  assumes "mview db k = Some (RStr (Itoa n))" and "0 < n" and "rd_DECR mini_redis k db = (Inr i, db')"
  shows "i = n - 1 \<and> mview db' = (mview db)(k \<mapsto> RStr (Itoa (n - 1)))"
proof -
  have "gm_get db k = Some (MStr (Itoa n))" using assms(1) by (auto simp: mview_def split: option.splits mval.splits)
  then show ?thesis using assms(2,3) by (auto simp: mini_redis_def Let_def Itoa_def split: if_splits)
qed

lemma mview_None [simp]: "mview db k = None \<longleftrightarrow> gm_get db k = None"
  by (simp add: mview_def split: option.split mval.split)

lemma m_set_Some: "m_set k db = Some xs \<Longrightarrow> members (mview db) k = set xs"
  by (auto simp: m_set_def members_def mview_def split: option.splits mval.splits)

lemma m_zset_Some: "m_zset k db = Some z \<Longrightarrow> scores (mview db) k = map_of z"
  by (auto simp: m_zset_def scores_def mview_def split: option.splits mval.splits)

lemma mini_sets:
  "rd_SADD mini_redis k m db = (Inr u, db') \<Longrightarrow> mview db' = put_set k (insert m (members (mview db) k)) (mview db)"
  "rd_SREM mini_redis k m db = (Inr u, db') \<Longrightarrow> mview db' = put_set k (members (mview db) k - {m}) (mview db)"
  "rd_SMEMBERS mini_redis k db = (Inr ms, db') \<Longrightarrow> mview db' = mview db \<and> distinct ms \<and> set ms = members (mview db) k"
  by (auto simp: mini_redis_def on_set_def m_set_Some set_removeAll split: option.splits)

lemma map_of_filter_notin: "map_of (filter (\<lambda>(m, s). m \<notin> A) z) = map_of z |` (- A)"
  by (induction z) (auto simp: fun_eq_iff restrict_map_def)

lemma m_max_Some:
  assumes "m_max z = Some (m, s)"
  shows "map_of z m = Some s \<and> (\<forall>m' s'. map_of z m' = Some s' \<longrightarrow> f64_le s' s)"
proof -
  have "map_of z m = Some s \<and> list_all (\<lambda>(m', s'). f64_le s' s) z"
    using assms by (auto simp: m_max_def find_Some_iff)
  then show ?thesis by (auto simp: list_all_iff dest: map_of_SomeD)
qed

lemma set_m_range: "set (m_range lo hi z) = {m. \<exists>s. map_of z m = Some s \<and> f64_le (f64_of_int lo) s \<and> f64_le s (f64_of_int hi)}"
  by (auto simp: m_range_def split: option.splits dest: map_of_SomeD intro: rev_image_eqI)

lemma mini_zsets:
  "rd_ZADD mini_redis k s m db = (Inr u, db') \<Longrightarrow> mview db' = put_zset k ((scores (mview db) k)(m \<mapsto> s)) (mview db)"
  "rd_ZREM mini_redis k ms db = (Inr u, db') \<Longrightarrow> mview db' = put_zset k (scores (mview db) k |` (- set ms)) (mview db)"
  by (auto simp: mini_redis_def on_zset_def m_zset_Some map_of_filter_notin update_conv' split: option.splits)

lemma mini_ZPOPMAX:
  assumes "rd_ZPOPMAX mini_redis k db = (Inr r, db')"
  shows "case r of
      None \<Rightarrow> scores (mview db) k = Map.empty \<and> mview db' = mview db
    | Some m \<Rightarrow> (\<exists>s. scores (mview db) k m = Some s \<and> (\<forall>m' s'. scores (mview db) k m' = Some s' \<longrightarrow> f64_le s' s)) \<and>
        mview db' = put_zset k ((scores (mview db) k)(m := None)) (mview db)"
  using assms m_max_Some
  by (auto simp: mini_redis_def on_zset_def m_zset_Some delete_conv' split: option.splits if_splits)

lemma mini_ZRANGEBYSCORE:
  assumes "0 < cnt" and "rd_ZRANGEBYSCORE mini_redis k lo hi cnt db = (Inr ms, db')"
  defines "due \<equiv> {m. \<exists>s. scores (mview db) k m = Some s \<and> f64_le (f64_of_int lo) s \<and> f64_le s (f64_of_int hi)}"
  shows "mview db' = mview db \<and> distinct ms \<and> int (length ms) \<le> cnt \<and> set ms \<subseteq> due \<and> (int (length ms) < cnt \<longrightarrow> set ms = due)"
proof -
  obtain z where z: "m_zset k db = Some z" "ms = take (nat cnt) (m_range lo hi z)" "db' = db"
    using assms(2) by (auto simp: mini_redis_def on_zset_def split: option.splits)
  have d: "due = set (m_range lo hi z)" unfolding due_def set_m_range m_zset_Some [OF z(1)] ..
  have dz: "distinct (m_range lo hi z)" by (simp add: m_range_def)
  have full: "ms = m_range lo hi z" if "int (length ms) < cnt" using that z(2) by simp
  have "set ms \<subseteq> due" unfolding d z(2) by (rule set_take_subset)
  moreover have "int (length ms) \<le> cnt" using z(2) assms(1) by simp
  moreover have "distinct ms" unfolding z(2) using dz by (rule distinct_take)
  ultimately show ?thesis using full z(3) d by simp
qed

lemma mini_strings:
  "rd_SET mini_redis k x db = (Inr u, db') \<Longrightarrow> mview db' = (mview db)(k \<mapsto> RStr x)"
  "rd_SETEX mini_redis k x secs db = (Inr u, db') \<Longrightarrow> mview db' = (mview db)(k \<mapsto> RStr x)"
  "secs \<le> 0 \<Longrightarrow> \<exists>e db'. rd_SETEX mini_redis k x secs db = (Inl e, db') \<and> mview db' = mview db"
  "rd_SETNX mini_redis k x d db = (Inr r, db') \<Longrightarrow>
    (if mview db k = None then r = Some ''OK'' \<and> mview db' = (mview db)(k \<mapsto> RStr x) else r = None \<and> mview db' = mview db)"
  "mview (snd (rd_GET mini_redis k db)) = mview db"
  by (auto simp: mini_redis_def split: if_splits)

lemma mini_keys:
  "rd_DEL mini_redis k db = (Inr u, db') \<Longrightarrow> mview db' = (mview db)(k := None)"
  "rd_EXISTS mini_redis k db = (Inr n, db') \<Longrightarrow> mview db' = mview db \<and> (n = 0 \<longleftrightarrow> mview db k = None)"
  "rd_EXPIRE mini_redis k secs db = (Inr n, db') \<Longrightarrow>
    (n = 0 \<longleftrightarrow> mview db k = None) \<and> mview db' = (if 0 < secs then mview db else (mview db)(k := None))"
  by (auto simp: mini_redis_def split: if_splits)

lemma mini_KEYS:
  assumes "rd_KEYS mini_redis (pre @ ''*'') db = (Inr ks, db')"
  shows "mview db' = mview db \<and> distinct ks \<and> set ks = {k \<in> dom (mview db). HasPrefix k pre}"
proof -
  have ks: "ks = filter (\<lambda>k. HasPrefix k pre) (remdups (map fst db))" and "db' = db"
    using assms by (auto simp: mini_redis_def butlast_append)
  have "dom (mview db) = fst ` set db"
    by (simp add: dom_def flip: dom_map_of_conv_image_fst)
  then show ?thesis using ks \<open>db' = db\<close> by auto
qed

text \<open>The parameter of the storage can be instantiated: this server obeys the laws.\<close>

interpretation mini: redis_server mini_redis mview
proof unfold_locales
qed (erule mini_strings mini_keys mini_GET mini_sets mini_zsets mini_ZPOPMAX mini_KEYS mini_strings(3)
  mini_DECR mini_ZRANGEBYSCORE | assumption | rule mini_strings)+

lemma mini_answers:
  "\<exists>db'. rd_SET mini_redis k x db = (Inr (), db')"
  "set_key (mview db) k \<Longrightarrow> \<exists>db'. rd_SADD mini_redis k m db = (Inr (), db')"
  by (auto simp: mini_redis_def on_set_def m_set_def set_key_def mview_def split: option.splits mval.splits)

interpretation mini_live: live_redis_server mini_redis mview
  by unfold_locales (rule mini_answers; assumption?)+

section \<open>A server that keeps its messages\<close>

text \<open>A server beside the list of the messages published on it.\<close>

definition on_db :: "('db \<Rightarrow> 'a \<times> 'db) \<Rightarrow> 'db \<times> 'l \<Rightarrow> 'a \<times> ('db \<times> 'l)" where
  "on_db f p = (case f (fst p) of (r, db) \<Rightarrow> (r, (db, snd p)))"

definition with_log :: "'db Redis \<Rightarrow> ('db \<times> (string \<times> string) list) Redis" where
  "with_log R = \<lparr>rd_SET = (\<lambda>k v. on_db (rd_SET R k v)), rd_SETEX = (\<lambda>k v n. on_db (rd_SETEX R k v n)),
     rd_SETNX = (\<lambda>k v d. on_db (rd_SETNX R k v d)), rd_GET = (\<lambda>k. on_db (rd_GET R k)),
     rd_DEL = (\<lambda>k. on_db (rd_DEL R k)), rd_EXISTS = (\<lambda>k. on_db (rd_EXISTS R k)),
     rd_EXPIRE = (\<lambda>k n. on_db (rd_EXPIRE R k n)), rd_KEYS = (\<lambda>p. on_db (rd_KEYS R p)),
     rd_DECR = (\<lambda>k. on_db (rd_DECR R k)), rd_SADD = (\<lambda>k m. on_db (rd_SADD R k m)),
     rd_SREM = (\<lambda>k m. on_db (rd_SREM R k m)), rd_SMEMBERS = (\<lambda>k. on_db (rd_SMEMBERS R k)),
     rd_ZADD = (\<lambda>k s m. on_db (rd_ZADD R k s m)), rd_ZREM = (\<lambda>k ms. on_db (rd_ZREM R k ms)),
     rd_ZPOPMAX = (\<lambda>k. on_db (rd_ZPOPMAX R k)), rd_ZRANGEBYSCORE = (\<lambda>k a b c. on_db (rd_ZRANGEBYSCORE R k a b c)),
     rd_ZREVRANGE = (\<lambda>k a b. on_db (rd_ZREVRANGE R k a b)), rd_ZREMRANGEBYSCORE = (\<lambda>k a. on_db (rd_ZREMRANGEBYSCORE R k a)),
     rd_ZREMRANGEBYRANK = (\<lambda>k a b. on_db (rd_ZREMRANGEBYRANK R k a b)),
     rd_PUBLISH = (\<lambda>ch m p. case rd_PUBLISH R ch m (fst p) of
        (Inl e, db) \<Rightarrow> (Inl e, (db, snd p)) | (Inr u, db) \<Rightarrow> (Inr u, (db, snd p @ [(ch, m)]))),
     rd_clock = (\<lambda>p. rd_clock R (fst p))\<rparr>"

interpretation log: redis_pubsub "with_log R" snd
  for R :: "'db Redis"
  by unfold_locales (auto simp: with_log_def split: prod.splits sum.splits)

end
