(* ===== verification/Redis_Props.thy ===== *)
theory Redis_Props
  imports Mini_Redis
begin

text \<open>
  The properties of the Redis storage. Each holds for every server that obeys the laws of
  \<open>redis_server\<close>, and its witness is a run against the small server of \<open>Mini_Redis\<close>.
\<close>

section \<open>An instance\<close>

text \<open>A task is encoded by its ID.\<close>

definition mini_task :: "string \<Rightarrow> PersistentTask" where
  "mini_task tid = \<lparr>p_ID = tid, p_Key = [], p_Pool = [], p_TypeName = ''job'', p_Payload = [], p_Priority = 5,
     p_Timeout = 0, p_Attempts = 0, p_MaxRetries = 0, p_RetryStrategy = [], p_DependsOn = [], p_Dependencies = []\<rparr>"

definition mini_json :: Json where
  "mini_json = \<lparr>js_Marshal = (\<lambda>t. Inr (p_ID t)), js_Unmarshal = (\<lambda>s. Inr (mini_task s)),
     js_MarshalInfo = (\<lambda>i. Inr (i_ID i)), js_UnmarshalInfo = (\<lambda>s. Inl (ErrBackend ''info'')),
     cjson_decode = (\<lambda>s. Inr (s, 5))\<rparr>"

definition mini_rs :: "mini RedisStorage" where
  "mini_rs = NewRedisStorage mini_redis mini_json '''' "

lemma mini_rs_client [simp]: "rs_client mini_rs = mini_redis" "rs_prefix mini_rs = ''skedulr:task:''" "rs_json mini_rs = mini_json"
  by (simp_all add: mini_rs_def NewRedisStorage_def)

section \<open>Leases\<close>

abbreviation leaseKey :: "'db RedisStorage \<Rightarrow> string \<Rightarrow> string" where
  "leaseKey S tid \<equiv> rs_prefix S @ tid @ '':lease''"

text \<open>
  C29. A lease is exclusive: once an instance has claimed a task, another instance's claim of it is
  refused, and its heartbeat does not extend the lease but reports it lost, while the holder's
  heartbeat finds it held; nothing of this changes the keys of the server.
\<close>

theorem lease_exclusive:
  assumes "redis_server (rs_client S) view" and "rs_Claim S tid inst d db = (Inr True, db1)" and "other \<noteq> inst"
    and "rs_Claim S tid other d' db1 = (Inr b, db2)" and "rs_Heartbeat S tid other d' db2 = (er, db3)"
    and "rd_GET (rs_client S) (leaseKey S tid) db2 = (Inr g, db4)"
    and "0 < lease_secs d" and "rs_Heartbeat S tid inst d db3 = (er', db5)"
  shows "view db (leaseKey S tid) = None \<and> b = False \<and> er = Some (ErrLeaseLost tid) \<and>
    er' \<noteq> Some (ErrLeaseLost tid) \<and> view db1 = (view db)(leaseKey S tid \<mapsto> RStr inst) \<and>
    view db3 = view db1 \<and> (er' = None \<longrightarrow> view db5 = view db1)"
proof -
  note srv = assms(1)
  have c: "view db (leaseKey S tid) = None" "view db1 = (view db)(leaseKey S tid \<mapsto> RStr inst)"
    using redis_server.claim [OF srv refl assms(2)] by (auto split: if_splits)
  have c2: "b = False" "view db2 = view db1" using redis_server.claim [OF srv refl assms(4)] c(2) by (auto split: if_splits)
  have h: "er = Some (ErrLeaseLost tid)" "view db3 = view db2"
    using redis_server.heartbeat_other [OF srv refl _ assms(5,6)] c(2) c2 assms(3) by auto
  have "er' \<noteq> Some (ErrLeaseLost tid)"
    using redis_server.heartbeat_holder [OF srv refl _ assms(8)] c c2 h by simp
  moreover have "view db5 = view db1" if "er' = None"
    using redis_server.heartbeat [OF srv refl assms(8)[unfolded that]] c c2 h assms(7) by simp
  ultimately show ?thesis using c c2 h by simp
qed

theorem lease_exclusive_witness:
  "\<exists>db. rs_Claim mini_rs ''a'' ''one'' 30000000000 [] = (Inr True, db) \<and> mview [] ''skedulr:task:a:lease'' = None \<and>
     rs_Claim mini_rs ''a'' ''two'' 30000000000 db = (Inr False, db) \<and>
     rs_Heartbeat mini_rs ''a'' ''two'' 30000000000 db = (Some (ErrLeaseLost ''a''), db) \<and>
     rs_Heartbeat mini_rs ''a'' ''one'' 30000000000 db = (None, db)"
proof -
  let ?db = "[(''skedulr:task:a:lease'', MStr ''one'')]"
  have c: "rs_Claim mini_rs ''a'' ''one'' 30000000000 [] = (Inr True, ?db)" by code_simp
  have c2: "rs_Claim mini_rs ''a'' ''two'' 30000000000 ?db = (Inr False, ?db)" by code_simp
  have h: "rs_Heartbeat mini_rs ''a'' ''two'' 30000000000 ?db = (Some (ErrLeaseLost ''a''), ?db)" by code_simp
  have h2: "rs_Heartbeat mini_rs ''a'' ''one'' 30000000000 ?db = (None, ?db)" by code_simp
  have g: "rd_GET mini_redis (leaseKey mini_rs ''a'') ?db = (Inr (Some ''one''), ?db)" by code_simp
  have l: "0 < lease_secs 30000000000" by (simp add: lease_secs_def)
  from lease_exclusive [of mini_rs mview "''a''" "''one''", unfolded mini_rs_client, OF mini.redis_server_axioms c _ c2 h g [unfolded mini_rs_client] l h2]
  have "mview [] ''skedulr:task:a:lease'' = None" by simp
  then show ?thesis using c c2 h h2 by blast
qed

section \<open>The queue\<close>

text \<open>
  C30. A task that \<open>Dequeue\<close> hands out had the greatest score of the queue, has left it, is leased to
  the instance, which is possible only for a lease of at least a second, and is in the processing set,
  where recovery finds it when the lease runs out.
\<close>

theorem dequeue_best:
  assumes "redis_server (rs_client S) view" and "rs_Dequeue S inst d db = (Inr (Some t), db')"
  shows "\<exists>data tid pr s. js_Unmarshal (rs_json S) data = Inr t \<and> cjson_decode (rs_json S) data = Inr (tid, pr) \<and>
    scores (view db) (rs_prefix S @ ''queue'') data = Some s \<and>
    (\<forall>m' s'. scores (view db) (rs_prefix S @ ''queue'') m' = Some s' \<longrightarrow> f64_le s' s) \<and>
    scores (view db') (rs_prefix S @ ''queue'') = (scores (view db) (rs_prefix S @ ''queue''))(data := None) \<and>
    view db' (leaseKey S tid) = Some (RStr inst) \<and> 0 < lease_secs d \<and>
    tid \<in> members (view db') (rs_prefix S @ ''processing'')"
  by (rule redis_server.dequeue [OF assms(1) refl assms(2)])

definition q_db :: mini where
  "q_db = [(''skedulr:task:queue'', MZ [(''a'', f64_of_int 5), (''b'', f64_of_int 7)])]"

definition q_db' :: mini where
  "q_db' = snd (rs_Dequeue mini_rs ''one'' 30000000000 q_db)"

theorem dequeue_best_witness:
  "rs_Dequeue mini_rs ''one'' 30000000000 q_db = (Inr (Some (mini_task ''b'')), q_db') \<and>
   scores (mview q_db') ''skedulr:task:queue'' = (scores (mview q_db) ''skedulr:task:queue'')(''b'' := None)"
proof -
  have "fst (rs_Dequeue mini_rs ''one'' 30000000000 q_db) = Inr (Some (mini_task ''b''))" by code_simp
  then have d: "rs_Dequeue mini_rs ''one'' 30000000000 q_db = (Inr (Some (mini_task ''b'')), q_db')"
    by (simp add: q_db'_def prod_eq_iff)
  have "p_ID (mini_task x) = x" for x by (simp add: mini_task_def)
  then have inj: "mini_task x = mini_task y \<Longrightarrow> x = y" for x y by metis
  show ?thesis
    using dequeue_best [of mini_rs mview, unfolded mini_rs_client, OF mini.redis_server_axioms d]
    by (auto simp: mini_json_def d dest!: inj)
qed

text \<open>
  A lease of less than a second loses the task: the script has taken the entry with the greatest
  score out of the queue when setting the lease key fails, the error is reported, and the entry is in no
  other key of the server.
\<close>

theorem dequeue_short_lease:
  assumes "redis_server (rs_client S) view" and "lease_secs d \<le> 0"
    and "rd_ZPOPMAX (rs_client S) (rs_prefix S @ ''queue'') db = (Inr (Some data), db1)"
  shows "\<exists>err db'. rs_Dequeue S inst d db = (Inl err, db') \<and>
    view db' = put_zset (rs_prefix S @ ''queue'') ((scores (view db) (rs_prefix S @ ''queue''))(data := None)) (view db)"
  by (rule redis_server.dequeue_lost [OF assms(1) refl assms(2,3)])

theorem dequeue_short_lease_witness:
  "\<exists>err db'. rs_Dequeue mini_rs ''one'' 500000000 q_db = (Inl err, db') \<and>
    mview db' = put_zset ''skedulr:task:queue'' ((scores (mview q_db) ''skedulr:task:queue'')(''b'' := None)) (mview q_db)"
proof -
  let ?z = "rd_ZPOPMAX mini_redis (rs_prefix mini_rs @ ''queue'') q_db"
  have "fst ?z = Inr (Some ''b'')" by code_simp
  then have z: "?z = (Inr (Some ''b''), snd ?z)" by (simp add: prod_eq_iff)
  have l: "lease_secs 500000000 \<le> 0" by (simp add: lease_secs_def)
  show ?thesis
    using dequeue_short_lease [of mini_rs mview, unfolded mini_rs_client(1), OF mini.redis_server_axioms l z] by simp
qed

text \<open>
  C31. \<open>PopDueDelayed\<close> hands out each due task once: what it returns are the stored bodies of at most
  \<open>max\<close> (100 when that is not positive) distinct members of the delayed set whose time is not after
  \<open>now\<close>, of all of them when they are fewer; exactly these leave the set, and no other key changes.
\<close>

theorem pop_due_once:
  assumes "redis_server (rs_client S) view" and "rs_PopDueDelayed S now batch db = (Inr ts, db')"
  defines "cnt \<equiv> (if batch \<le> 0 then 100 else batch)"
  defines "due \<equiv> {m. \<exists>s. scores (view db) (delayedKey S) m = Some s \<and> f64_le (f64_of_int 0) s \<and>
    f64_le s (f64_of_int (now div 1000000))}"
  shows "\<exists>ms. distinct ms \<and> set ms \<subseteq> due \<and> int (length ms) \<le> cnt \<and> (int (length ms) < cnt \<longrightarrow> set ms = due) \<and>
    scores (view db') (delayedKey S) = scores (view db) (delayedKey S) |` (- set ms) \<and>
    (\<forall>k. k \<noteq> delayedKey S \<longrightarrow> view db' k = view db k) \<and>
    ts = decode_tasks (rs_json S) (List.map_filter (\<lambda>i. body (view db) (rs_prefix S @ i)) ms)"
  unfolding cnt_def due_def by (rule redis_server.pop_due [OF assms(1) refl assms(2)])

definition d_db :: mini where
  "d_db = snd (rs_ScheduleDelayed mini_rs ''b'' 9 (Some (mini_task ''b''))
     (snd (rs_ScheduleDelayed mini_rs ''a'' 2 (Some (mini_task ''a'')) [])))"

theorem pop_due_once_witness:
  "\<exists>db'. rs_PopDueDelayed mini_rs 3000000 0 d_db = (Inr [mini_task ''a''], db') \<and>
     (\<forall>k. k \<noteq> ''skedulr:task:delayed'' \<longrightarrow> mview db' k = mview d_db k)"
proof -
  let ?p = "rs_PopDueDelayed mini_rs 3000000 0 d_db"
  have "fst ?p = Inr [mini_task ''a'']" by code_simp
  then have p: "?p = (Inr [mini_task ''a''], snd ?p)" by (simp add: prod_eq_iff)
  have "\<forall>k. k \<noteq> delayedKey mini_rs \<longrightarrow> mview (snd ?p) k = mview d_db k"
    using pop_due_once [of mini_rs mview, unfolded mini_rs_client(1), OF mini.redis_server_axioms p] by (elim exE conjE)
  then show ?thesis using p unfolding delayedKey_def mini_rs_client by (intro exI [of _ "snd ?p"] conjI) simp_all
qed

section \<open>Recovery\<close>

text \<open>
  C32. Recovery moves the orphans and nothing else: the IDs of the processing set without a lease leave
  it, the bodies of those that have one are in the queue afterwards, besides what was there, the result
  is their number, and no other key changes, so a task whose lease is held is left alone. (No task may be
  called \<open>queue\<close> or \<open>processing\<close>: its body would be the set itself.)
\<close>

theorem recover_orphans:
  assumes "redis_server (rs_client S) view" and "rs_RecoverOrphaned S db = (Inr n, db')"
  defines "proc \<equiv> members (view db) (rs_prefix S @ ''processing'')"
  assumes "''queue'' \<notin> proc" and "''processing'' \<notin> proc"
  defines "orphans \<equiv> {i \<in> proc. view db (leaseKey S i) = None}"
  shows "members (view db') (rs_prefix S @ ''processing'') = proc - orphans \<and>
    n = int (card {i \<in> orphans. body (view db) (rs_prefix S @ i) \<noteq> None}) \<and>
    (\<forall>k. k \<noteq> rs_prefix S @ ''processing'' \<and> k \<noteq> rs_prefix S @ ''queue'' \<longrightarrow> view db' k = view db k) \<and>
    dom (scores (view db') (rs_prefix S @ ''queue'')) =
      dom (scores (view db) (rs_prefix S @ ''queue'')) \<union> {d. \<exists>i \<in> orphans. body (view db) (rs_prefix S @ i) = Some d}"
proof -
  obtain ids db1 where r: "rd_SMEMBERS (rs_client S) (rs_prefix S @ ''processing'') db = (Inr ids, db1)"
    "lua_orphans (rs_client S) (rs_json S) (rs_prefix S @ ''processing'') (rs_prefix S) (rs_prefix S @ ''queue'') 0 ids db1 = (Inr n, db')"
    using assms(2) by (auto simp: rs_RecoverOrphaned_def luaRecover_def rbind_def wrap_err_def split: prod.splits sum.splits)
  note v = redis_server.SMEMBERS [OF assms(1) r(1)]
  have e: "view db1 = view db" and ids: "set ids = proc" "distinct ids" using v by (simp_all add: proc_def)
  have q: "''queue'' \<notin> set ids" "''processing'' \<notin> set ids" using assms(4,5) ids by simp_all
  note o = redis_server.orphans [OF assms(1) r(2) q, unfolded e ids proc_def]
  have "length (filter P ids) = card {i \<in> proc. P i}" for P
    using distinct_card [OF distinct_filter [OF ids(2)], of P] by (simp add: ids(1))
  moreover have "{i \<in> proc. view db (leaseKey S i) = None \<and> body (view db) (rs_prefix S @ i) \<noteq> None} =
      {i \<in> orphans. body (view db) (rs_prefix S @ i) \<noteq> None}" by (auto simp: orphans_def)
  moreover have "(\<exists>i \<in> proc. view db (leaseKey S i) = None \<and> body (view db) (rs_prefix S @ i) = Some d) \<longleftrightarrow>
      (\<exists>i \<in> orphans. body (view db) (rs_prefix S @ i) = Some d)" for d by (auto simp: orphans_def)
  moreover have "{i \<in> proc. view db (leaseKey S i) = None} = orphans" by (simp add: orphans_def)
  ultimately show ?thesis using o [folded proc_def] by simp
qed

definition p_db :: mini where
  "p_db = [(''skedulr:task:processing'', MSet [''a'', ''b'']), (''skedulr:task:a'', MStr ''a''),
     (''skedulr:task:b'', MStr ''b''), (''skedulr:task:b:lease'', MStr ''one'')]"

theorem recover_orphans_witness:
  "\<exists>db'. rs_RecoverOrphaned mini_rs p_db = (Inr 1, db') \<and> members (mview db') ''skedulr:task:processing'' = {''b''} \<and>
    dom (scores (mview db') ''skedulr:task:queue'') = {''a''}"
proof -
  let ?p = "rs_RecoverOrphaned mini_rs p_db"
  have "fst ?p = Inr 1" by code_simp
  then have p: "?p = (Inr 1, snd ?p)" by (simp add: prod_eq_iff)
  have m: "members (mview p_db) (rs_prefix mini_rs @ ''processing'') = {''a'', ''b''}" "scores (mview p_db) (rs_prefix mini_rs @ ''queue'') = Map.empty"
    by (auto simp: p_db_def mview_def members_def scores_def)
  have o: "{i \<in> {''a'', ''b''}. mview p_db (leaseKey mini_rs i) = None} = {''a''}" by (auto simp: p_db_def)
  have b: "body (mview p_db) (rs_prefix mini_rs @ ''a'') = Some ''a''" by (simp add: p_db_def mview_def body_def)
  have "members (mview (snd ?p)) (rs_prefix mini_rs @ ''processing'') = {''a'', ''b''} - {''a''} \<and>
      dom (scores (mview (snd ?p)) (rs_prefix mini_rs @ ''queue'')) = {} \<union> {d. \<exists>i \<in> {''a''}. body (mview p_db) (rs_prefix mini_rs @ i) = Some d}"
    using recover_orphans [of mini_rs mview, unfolded mini_rs_client(1), OF mini.redis_server_axioms p, unfolded m o] by simp
  then show ?thesis using p b unfolding mini_rs_client by (intro exI [of _ "snd ?p"] conjI) auto
qed

section \<open>Saved tasks\<close>

text \<open>
  C34. A task that was saved is loaded: the answer of \<open>LoadAll\<close> after \<open>Save\<close> contains it, when the JSON
  encoder decodes what it encoded, the prefix has no pattern character and the server answers \<open>GET\<close>.
\<close>

theorem save_load:
  assumes "redis_server (rs_client S) view" and "js_Marshal (rs_json S) t = Inr data" and "js_Unmarshal (rs_json S) data = Inr t"
    and "glob_free (rs_prefix S)" and "rs_Save S t db = (None, db1)" and "rs_LoadAll S db1 = (Inr ts, db2)"
    and "\<And>db k. \<exists>r db'. rd_GET (rs_client S) k db = (Inr r, db') \<or> body (view db) k = None"
  shows "t \<in> set ts"
  by (rule redis_server.loads_saved [OF assms(1) refl assms(2-7)])

theorem save_load_witness:
  "\<exists>db1 db2 ts. rs_Save mini_rs (mini_task ''a'') q_db = (None, db1) \<and> rs_LoadAll mini_rs db1 = (Inr ts, db2) \<and> mini_task ''a'' \<in> set ts"
proof -
  let ?s = "rs_Save mini_rs (mini_task ''a'') q_db"
  let ?l = "rs_LoadAll mini_rs (snd ?s)"
  have j: "js_Marshal mini_json (mini_task ''a'') = Inr ''a''" "js_Unmarshal mini_json ''a'' = Inr (mini_task ''a'')"
    by (simp_all add: mini_json_def mini_task_def)
  have g: "glob_free (rs_prefix mini_rs)" by code_simp
  have "fst ?s = None" by code_simp
  then have s: "?s = (None, snd ?s)" by (simp add: prod_eq_iff)
  have "\<not> isl (fst ?l)" by code_simp
  then have l: "?l = (Inr (projr (fst ?l)), snd ?l)" by (simp add: prod_eq_iff)
  have "\<exists>r db'. rd_GET mini_redis k db = (Inr r, db') \<or> body (mview db) k = None" for k db
    by (auto simp: mini_redis_def body_def mview_def split: option.splits mval.splits)
  from save_load [of mini_rs mview, unfolded mini_rs_client(1,3), OF mini.redis_server_axioms j g s l this]
  show ?thesis using s l by blast
qed

section \<open>Dependencies\<close>


definition dup_task :: PersistentTask where
  "dup_task = mini_task ''c''\<lparr>p_DependsOn := [''a'', ''a'']\<rparr>"

definition dup_json :: Json where
  "dup_json = mini_json\<lparr>js_Unmarshal := (\<lambda>s. Inr (if s = ''c'' then dup_task else mini_task s))\<rparr>"

definition dup_rs :: "mini RedisStorage" where
  "dup_rs = NewRedisStorage mini_redis dup_json ''t:''"


section \<open>History\<close>

lemma rs_history_loop_eq:
  "rs_history_loop J f query res ds =
   history_loop (rs_skip f query) (f_Limit f) res (List.map_filter (\<lambda>d. case js_UnmarshalInfo J d of Inl e \<Rightarrow> None | Inr t \<Rightarrow> Some t) ds)"
  by (induction ds arbitrary: res) (simp_all add: List.map_filter_def Let_def split: sum.split)

text \<open>
  A history query on Redis is answered with those of the newest \<open>fetchLimit\<close> entries that decode and
  that the filter admits, the query compared without regard to case, in that order and cut at \<open>Limit\<close>
  when that is positive; a server error is passed on.
\<close>

theorem redis_history:
  "rs_GetHistory S f db =
   (case rd_ZREVRANGE (rs_client S) (rs_prefix S @ ''history'') 0 (fetchLimit f - 1) db of
      (Inl e, db1) \<Rightarrow> (Inl e, db1)
    | (Inr ds, db1) \<Rightarrow>
        (Inr ((if f_Limit f > 0 then take (nat (f_Limit f)) else id)
           (filter (\<lambda>t. (f_ID f = '''' \<or> i_ID t = f_ID f) \<and> (f_Type f = '''' \<or> i_Type t = f_Type f) \<and>
              (f_Status f = '''' \<or> i_Status t = f_Status f) \<and>
              (\<exists>s \<in> {i_ID t, i_Type t}. \<exists>u v. ToLower s = u @ ToLower (f_Query f) @ v))
            (List.map_filter (\<lambda>d. case js_UnmarshalInfo (rs_json S) d of Inl e \<Rightarrow> None | Inr t \<Rightarrow> Some t) ds))), db1))"
proof -
  have "Contains s []" for s by (auto simp: Contains_iff)
  then have p: "(\<lambda>t. \<not> rs_skip f (ToLower (f_Query f)) t) =
    (\<lambda>t. (f_ID f = '''' \<or> i_ID t = f_ID f) \<and> (f_Type f = '''' \<or> i_Type t = f_Type f) \<and>
              (f_Status f = '''' \<or> i_Status t = f_Status f) \<and>
              (\<exists>s \<in> {i_ID t, i_Type t}. \<exists>u v. ToLower s = u @ ToLower (f_Query f) @ v))"
    by (auto simp: rs_skip_def fun_eq_iff simp flip: Contains_iff)
  show ?thesis unfolding p [symmetric]
    using history_loop_unlimited [of "f_Limit f" "rs_skip f (ToLower (f_Query f))" "[]"]
      history_loop_limited [of "f_Limit f" "[]" "rs_skip f (ToLower (f_Query f))"]
    by (simp add: rs_GetHistory_def rs_history_loop_eq rbind_def split: prod.split sum.split)
qed

end
