(* ===== verification/Scheduler_Redis.thy ===== *)
theory Scheduler_Redis
  imports Scheduler_Life Redis_Props
begin

text \<open>
  The scheduler on the Redis storage: where the two components meet. A task with a type name is
  submitted to the local queue and to the shared one.
\<close>

lemma admitted_task:
  assumes "r < n_objs s" and "submit_link r (submit_admit r s) = (None, s1)"
  shows "to_persistent (task_at s1 r) = to_persistent (task_at s r)" "t_id (task_at s1 r) = t_id (task_at s r)"
    "s_storage s1 = s_storage s"
proof -
  let ?s = "submit_admit r s"
  have a: "to_persistent (task_at ?s r) = to_persistent (task_at s r)" "s_storage ?s = s_storage s" "n_objs ?s = n_objs s"
    using assms(1) by (simp_all add: submit_admit_def Let_def to_persistent_def task_at_def upd_task_def)
  have "to_persistent (task_at s1 r) = to_persistent (task_at ?s r) \<and> s_storage s1 = s_storage ?s"
    using assms(2) a(3) assms(1)
    by (auto simp: submit_link_def Let_def to_persistent_def task_at_upd split: if_splits option.splits)
  then show b: "to_persistent (task_at s1 r) = to_persistent (task_at s r)" "s_storage s1 = s_storage s" using a by simp_all
  then show "t_id (task_at s1 r) = t_id (task_at s r)" by (simp add: to_persistent_def)
qed


text \<open>
  A run: the task is submitted, dispatched from the local queue and taken by a worker; while it runs, the
  next round of the dequeue loop finds it in Redis and dispatches it again, as a second object.
\<close>

type_synonym twice_sched = "(string, RetryStrategy, mini) Scheduler"

definition twice_env :: "(RetryStrategy, mini) env" where
  "twice_env = \<lparr>env_storage = redis_Storage mini_rs, env_NextDelay = RetryStrategy_NextDelay (\<lambda>_. 0) (Fin 0 (-53)),
     env_zone = (\<lambda>_. 0), env_init = (\<lambda>_. True), env_other = (\<lambda>_ _. True)\<rparr>"

definition twice_ready :: twice_sched where
  "twice_ready = snd (alloc_task (NewPersistentTask ''a'' ''job'' [] 5 0)
     (RegisterJob ''job'' ''run'' (projr (New twice_env demo_now ''one'' [] []))))"

definition twice_queued :: twice_sched where
  "twice_queued = snd (Submit twice_env 0 twice_ready)"

definition twice_running :: twice_sched where
  "twice_running = the (worker_take twice_env 0 (worker_start 0 (dequeue_round twice_env twice_queued)))"

definition twice_again :: twice_sched where
  "twice_again = dequeue_round twice_env twice_running"

lemma twice_ready_reach: "sched_reach twice_env (demo_now, {}, twice_ready)"
  unfolding twice_ready_def
proof (rule sched_reach.step [OF sched_reach.step [OF sched_reach.new sched_step.register] sched_step.create])
  have "\<not> isl (New twice_env demo_now ''one'' [] [] :: twice_sched go)" by code_simp
  then show "New twice_env demo_now ''one'' [] (map apply_opt []) = Inr (projr (New twice_env demo_now ''one'' [] [] :: twice_sched go))"
    by simp
qed (simp_all add: demo_now_def now_ok_def twice_env_def user_task.intros)


section \<open>Cancelling across instances\<close>

text \<open>
  \<open>WithRedisStorage\<close>. The client is not part of the repository: \<open>dial\<close> is the state of the server it is
  connected to. The methods of the storage are the \<open>env_storage\<close> of the environment.
\<close>

definition WithRedisStorage ::
  "(string \<Rightarrow> string \<Rightarrow> int \<Rightarrow> 'db) \<Rightarrow> string \<Rightarrow> string \<Rightarrow> int \<Rightarrow> ('job, 'rs, 'db) Option" where
  "WithRedisStorage dial addr password db = WithStorage (dial addr password db)"

lemma Cancel_publishes:
  assumes "\<forall>r. gm_get (s_tasks s) tid = Some r \<longrightarrow> t_status (task_at s r) \<notin> {StatusSucceeded, StatusFailed, StatusDead, StatusCancelled}"
  shows "\<exists>s'. Cancel E tid s = store_call (st_PublishCancel (env_storage E) tid) s'"
proof -
  obtain b s1 where "cancel_mark tid s = (Some b, s1)"
    using assms by (cases "gm_get (s_tasks s) tid") (auto simp: cancel_mark_def Let_def)
  then show ?thesis by (auto simp: Cancel_def Let_def)
qed

text \<open>
  C35. Cancelling across instances: the \<open>Cancel\<close> of a task that its instance does not know, or knows as not
  finished, publishes the ID on the channel of the instance's prefix. A second instance
  that receives the message and tracks a task under the ID marks it Cancelled and cancels its
  context, and nothing else of it changes; an instance with another prefix ignores the message.
\<close>

theorem cross_instance_cancel:
  assumes "redis_pubsub (rs_client S) published" and "env_storage E = redis_Storage S"
    and "\<forall>r. gm_get (s_tasks s) tid = Some r \<longrightarrow>
      t_status (task_at s r) \<notin> {StatusSucceeded, StatusFailed, StatusDead, StatusCancelled}"
    and "Cancel E tid s = (None, s1)"
    and "sched_reach E' (now, gone, b)" and "gm_get (s_tasks b) tid = Some r"
    and "b1 = rs_SubscribeCancel S' onCancel [last (published (s_storage s1))] b"
  shows "if rs_prefix S' = rs_prefix S
    then Status tid b1 = StatusCancelled \<and>
      s_ctxs b1 = (case t_cancel (task_at b r) of None \<Rightarrow> s_ctxs b | Some c \<Rightarrow> (s_ctxs b)[c := True]) \<and>
      s_objs b1 = (s_objs b)[r := (task_at b r)\<lparr>t_status := StatusCancelled\<rparr>] \<and>
      b1\<lparr>s_ctxs := s_ctxs b, s_objs := s_objs b\<rparr> = b
    else b1 = b"
proof -
  obtain s' where s': "store_call (st_PublishCancel (env_storage E) tid) s' = (None, s1)"
    using Cancel_publishes [OF assms(3), of E] assms(4) by metis
  then have "rs_PublishCancel S tid (s_storage s') = (None, s_storage s1)"
    using assms(2) by (auto simp: store_call_def redis_Storage_def split: prod.splits)
  then have l: "last (published (s_storage s1)) = (rs_prefix S @ ''cmd:cancel'', tid)"
    using redis_pubsub.publish_cancel [OF assms(1) refl] by simp
  have r: "r < n_objs b" using tracked_ref [OF reach_core [OF assms(5)] assms(6)] by simp
  have b1: "b1 = (if rs_prefix S' = rs_prefix S then onCancel tid b else b)"
    using assms(7) l by (auto simp: rs_SubscribeCancel_def Let_def)
  show ?thesis
    using r assms(6) unfolding b1
    by (auto simp: onCancel_def Status_def call_cancel_def upd_task_def task_at_def split: option.splits)
qed

text \<open>
  Two instances on one server: the first runs a task, the second, which never saw it, cancels it.
\<close>

type_synonym log_sched = "(string, RetryStrategy, mini \<times> (string \<times> string) list) Scheduler"

definition log_rs :: "(mini \<times> (string \<times> string) list) RedisStorage" where
  "log_rs = NewRedisStorage (with_log mini_redis) mini_json ''''"

definition log_env :: "(RetryStrategy, mini \<times> (string \<times> string) list) env" where
  "log_env = \<lparr>env_storage = redis_Storage log_rs, env_NextDelay = RetryStrategy_NextDelay (\<lambda>_. 0) (Fin 0 (-53)),
     env_zone = (\<lambda>_. 0), env_init = (\<lambda>_. True), env_other = (\<lambda>_ _. True)\<rparr>"

definition log_new :: "string \<Rightarrow> log_sched go" where
  "log_new inst = New log_env demo_now inst ([], [])
     [WithRedisStorage (\<lambda>addr password db. ([], [])) ''localhost:6379'' '''' 0]"

definition log_ready :: log_sched where
  "log_ready = snd (alloc_task (NewPersistentTask ''a'' ''job'' [] 5 0) (RegisterJob ''job'' ''run'' (projr (log_new ''one''))))"

definition log_running :: log_sched where
  "log_running = the (worker_take log_env 0 (worker_start 0 (dequeue_round log_env (snd (Submit log_env 0 log_ready)))))"

lemma log_new_reach:
  assumes "\<not> isl (log_new inst)"
  shows "sched_reach log_env (demo_now, {}, projr (log_new inst))"
proof (rule sched_reach.new [where opts = "[OStorage ([], [])]" and st = "([], [])" and newid = inst])
  show "New log_env demo_now inst ([], []) (map apply_opt [OStorage ([], [])]) = Inr (projr (log_new inst))"
    using assms by (simp add: log_new_def WithRedisStorage_def)
qed (simp_all add: demo_now_def now_ok_def log_env_def)

lemma log_running_reach: "sched_reach log_env (demo_now, {}, log_running)"
proof -
  let ?q = "snd (Submit log_env 0 log_ready)" and ?d = "dequeue_round log_env (snd (Submit log_env 0 log_ready))"
  have "\<not> isl (log_new ''one'')" by code_simp
  then have "sched_reach log_env (demo_now, {}, log_ready)"
    unfolding log_ready_def
    using sched_reach.step [OF sched_reach.step [OF log_new_reach sched_step.register] sched_step.create] user_task.intros by blast
  moreover have "0 < n_objs log_ready" by code_simp
  ultimately have q: "sched_reach log_env (demo_now, {}, ?q)" by (rule sched_reach.step [OF _ sched_step.submit])
  have "s_dispatch ?q = None" "\<not> s_stop ?q" by code_simp+
  then have d: "sched_reach log_env (demo_now, {}, ?d)" by (rule sched_reach.step [OF q sched_step.dequeue])
  have "0 < length (s_workers ?d)" "w_state (s_workers ?d ! 0) = WStarting" by code_simp+
  then have w: "sched_reach log_env (demo_now, {}, worker_start 0 ?d)" by (rule sched_reach.step [OF d sched_step.start_worker])
  have t: "0 < length (s_workers (worker_start 0 ?d))" "w_state (s_workers (worker_start 0 ?d) ! 0) = WIdle True"
    "\<not> Option.is_none (worker_take log_env 0 (worker_start 0 ?d))" by code_simp+
  then have "worker_take log_env 0 (worker_start 0 ?d) = Some log_running" by (auto simp: log_running_def Option.is_none_def)
  then show ?thesis by (rule sched_reach.step [OF w sched_step.take [OF t(1,2)]])
qed

definition log_other :: log_sched where
  "log_other = (projr (log_new ''two''))\<lparr>s_storage := s_storage log_running\<rparr>"

theorem cross_instance_cancel_witness:
  "\<exists>s1 b1. Cancel log_env ''a'' log_other = (None, s1) \<and>
    b1 = rs_SubscribeCancel log_rs onCancel [last (snd (s_storage s1))] log_running \<and>
    Status ''a'' log_running = StatusRunning \<and> Status ''a'' b1 = StatusCancelled \<and> s_ctxs b1 = [True]"
proof -
  have n: "gm_get (s_tasks log_other) ''a'' = None" "gm_get (s_tasks log_running) ''a'' = Some 0"
    "fst (Cancel log_env ''a'' log_other) = None" "t_cancel (task_at log_running 0) = Some 0" "s_ctxs log_running = [False]"
    "Status ''a'' log_running = StatusRunning" by code_simp+
  then have c: "Cancel log_env ''a'' log_other = (None, snd (Cancel log_env ''a'' log_other))" by (simp add: prod_eq_iff)
  have "env_storage log_env = redis_Storage log_rs" "rs_client log_rs = with_log mini_redis"
    by (simp_all add: log_env_def log_rs_def NewRedisStorage_def)
  then show ?thesis
    using cross_instance_cancel [of log_rs snd, OF _ _ _ c log_running_reach n(2) refl, of log_rs]
      log.redis_pubsub_axioms [of mini_redis] n c by auto
qed

section \<open>The dequeue loop starts before the default pool\<close>

text \<open>
  \<open>New\<close> starts the goroutine of \<open>dequeueLoop\<close> before it makes the default pool. When a recovered task is dispatched
  in between, \<open>dispatchTask\<close> makes the pool with one worker, and \<open>New\<close> then keeps it: the scheduler runs with two
  workers in place of \<open>maxWorkers\<close>. (\<open>New\<close> and the state machine take the other order.)
\<close>

definition New_interleaved ::
  "('rs, 'st) env \<Rightarrow> int \<Rightarrow> string \<Rightarrow> 'st \<Rightarrow> ('job, 'rs, 'st) Option list \<Rightarrow> ('job, 'rs, 'st) Scheduler go" where
  "New_interleaved E now newid st opts =
     (let s = fold (\<lambda>opt. opt) opts (new_scheduler newid st)
      in go_bind (NewTimingWheel (s_wheelTick s) (s_wheelSize s) (UnixMilli now))
           (\<lambda>w. Inr (spawn_all (default_pool (dequeue_round E (loadTasks E (s\<lparr>s_wheel := TimingWheel_Start w\<rparr>)))))))"

definition race_opts :: "(string, RetryStrategy, mini) Option list" where
  "race_opts = [WithMaxWorkers 4, WithJob ''job'' ''run'']"

definition race_db :: mini where
  "race_db = [(''skedulr:task:a'', MStr ''a'')]"

theorem New_interleaved_loses_workers:
  "map_sum id (\<lambda>s. (s_currentWorkers s, gm_get (s_poolWorkers s) ''default'')) (New twice_env demo_now ''one'' race_db race_opts) =
     Inr (4, Some 4) \<and>
   map_sum id (\<lambda>s. (s_currentWorkers s, gm_get (s_poolWorkers s) ''default'')) (New_interleaved twice_env demo_now ''one'' race_db race_opts) =
     Inr (2, Some 1)"
  by code_simp

end
