(* ===== verification/Dashboard.thy ===== *)
theory Dashboard
  imports Scheduler_Loops Go_Strings
begin

text \<open>
  The dashboard of \<open>server.go\<close>: the statistics, the rate limiter, the request handlers, the multiplexer
  and the prefix. A handler is a function from a request and the scheduler to a response and the new
  scheduler; the embedded page and the text of error messages are left out of the bodies.
\<close>

section \<open>Statistics\<close>

record PoolStats =
  ps_Name :: string
  ps_Workers :: int
  ps_QueueSize :: nat

record Stats =
  x_QueueSize :: int
  x_SuccessCount :: int
  x_FailureCount :: int
  x_DeadCount :: int
  x_PanicCount :: int
  x_CurrentWorkers :: int
  x_ActiveTasks :: "TaskInfo list"
  x_History :: "TaskInfo list"
  x_Pools :: "PoolStats list"
  x_IsPaused :: bool

text \<open>The \<open>continue\<close> conditions of the loop over the tracked tasks.\<close>

definition stats_skip :: "HistoryFilter \<Rightarrow> ('job, 'rs) task \<Rightarrow> bool" where
  "stats_skip f t \<longleftrightarrow> f_ID f \<noteq> '''' \<and> t_id t \<noteq> f_ID f \<or> f_Type f \<noteq> '''' \<and> t_typeName t \<noteq> f_Type f \<or>
     f_Status f \<noteq> '''' \<and> TaskStatus_String (t_status t) \<noteq> f_Status f \<or>
     f_Query f \<noteq> '''' \<and> \<not> (Contains (ToLower (t_id t)) (ToLower (f_Query f)) \<or>
       Contains (ToLower (t_typeName t)) (ToLower (f_Query f)))"

text \<open>Go ranges over a map in no particular order; the lists here are in the order of the model's map.\<close>

definition active_tasks :: "HistoryFilter \<Rightarrow> ('job, 'rs, 'st) Scheduler \<Rightarrow> TaskInfo list" where
  "active_tasks f s =
     map (\<lambda>(tid, r). task_info (task_at s r)) (filter (\<lambda>(tid, r). \<not> stats_skip f (task_at s r)) (s_tasks s))"

definition pool_stats :: "('job, 'rs, 'st) Scheduler \<Rightarrow> PoolStats list" where
  "pool_stats s =
     map (\<lambda>(name, ch). \<lparr>ps_Name = name, ps_Workers = poolWorkers_get s name, ps_QueueSize = length (ch_buf ch)\<rparr>) (s_poolQueues s)"

text \<open>An error of the history query is ignored.\<close>

definition StatsWithFilter ::
  "('rs, 'st) env \<Rightarrow> HistoryFilter \<Rightarrow> ('job, 'rs, 'st) Scheduler \<Rightarrow> Stats \<times> ('job, 'rs, 'st) Scheduler" where
  "StatsWithFilter E f s =
     (case store_call (st_GetHistory (env_storage E) f) s of
        (h, s1) \<Rightarrow>
          (\<lparr>x_QueueSize = s_queueSize s, x_SuccessCount = s_successCount s, x_FailureCount = s_failureCount s,
             x_DeadCount = s_deadCount s, x_PanicCount = s_panicCount s, x_CurrentWorkers = s_currentWorkers s,
             x_ActiveTasks = active_tasks f s, x_History = (case h of Inl e \<Rightarrow> [] | Inr hs \<Rightarrow> hs),
             x_Pools = pool_stats s, x_IsPaused = IsPaused s\<rparr>, s1))"

definition Scheduler_Stats :: "('rs, 'st) env \<Rightarrow> ('job, 'rs, 'st) Scheduler \<Rightarrow> Stats \<times> ('job, 'rs, 'st) Scheduler" where
  "Scheduler_Stats E s = StatsWithFilter E \<lparr>f_ID = '''', f_Type = '''', f_Status = '''', f_Query = '''', f_Limit = 50\<rparr> s"

section \<open>Requests and responses\<close>

text \<open>The first value of each query parameter; a parameter that is missing is the empty string.\<close>

record Request =
  rq_Method :: string
  rq_Path :: string
  rq_Query :: "string gomap"

definition Query_Get :: "Request \<Rightarrow> string \<Rightarrow> string" where
  "Query_Get r k = (case gm_get (rq_Query r) k of Some v \<Rightarrow> v | None \<Rightarrow> '''')"

datatype body = NoBody | Text string | ErrText error | JsonStats Stats | DashboardHTML

record Response =
  rp_Code :: int
  rp_Header :: "(string \<times> string) list"
  rp_Body :: body

definition reply :: "int \<Rightarrow> body \<Rightarrow> Response" where
  "reply code b = \<lparr>rp_Code = code, rp_Header = [], rp_Body = b\<rparr>"

text \<open>
  \<open>fmt.Sscanf(countStr, "%d", &count)\<close> with \<open>count\<close> 0 before: blanks, a sign and digits are read, the rest is
  not looked at; \<open>count\<close> keeps its value when there is no number or when it does not fit 64 bits.
\<close>

definition Sscanf_d :: "string \<Rightarrow> int" where
  "Sscanf_d str =
     (let s1 = dropWhile (\<lambda>c. c \<in> {CHR '' '', CHR 0x09, CHR 0x0B, CHR 0x0C, CHR 0x0D}) str;
          neg = (take 1 s1 = ''-'');
          s2 = (if neg \<or> take 1 s1 = ''+'' then drop 1 s1 else s1);
          ds = takeWhile (\<lambda>c. c \<in> set ''0123456789'') s2;
          n = (if neg then - int (digits_val ds) else int (digits_val ds))
      in if ds = [] \<or> n < - (2 ^ 63) \<or> 2 ^ 63 \<le> n then 0 else n)"

section \<open>The handlers\<close>

definition api_stats :: "('rs, 'st) env \<Rightarrow> Request \<Rightarrow> ('job, 'rs, 'st) Scheduler \<Rightarrow> Response \<times> ('job, 'rs, 'st) Scheduler" where
  "api_stats E r s =
     (case StatsWithFilter E \<lparr>f_ID = Query_Get r ''id'', f_Type = Query_Get r ''type'', f_Status = Query_Get r ''status'',
              f_Query = Query_Get r ''q'', f_Limit = 50\<rparr> s of
        (st, s1) \<Rightarrow> (\<lparr>rp_Code = 200, rp_Header = [(''Content-Type'', ''application/json'')], rp_Body = JsonStats st\<rparr>, s1))"

text \<open>A handler that writes nothing answers 200.\<close>

definition api_pause :: "Request \<Rightarrow> ('job, 'rs, 'st) Scheduler \<Rightarrow> Response \<times> ('job, 'rs, 'st) Scheduler" where
  "api_pause r s = (reply 200 NoBody, if rq_Method r = ''POST'' then Pause s else s)"

definition api_resume :: "Request \<Rightarrow> ('job, 'rs, 'st) Scheduler \<Rightarrow> Response \<times> ('job, 'rs, 'st) Scheduler" where
  "api_resume r s = (reply 200 NoBody, if rq_Method r = ''POST'' then Resume s else s)"

text \<open>The error of \<open>Cancel\<close> is ignored.\<close>

definition api_cancel :: "('rs, 'st) env \<Rightarrow> Request \<Rightarrow> ('job, 'rs, 'st) Scheduler \<Rightarrow> Response \<times> ('job, 'rs, 'st) Scheduler" where
  "api_cancel E r s =
     (if rq_Method r \<noteq> ''POST'' then (reply 405 (Text ''Method not allowed''), s)
      else if Query_Get r ''id'' = '''' then (reply 400 (Text ''Missing id''), s)
      else (reply 200 NoBody, snd (Cancel E (Query_Get r ''id'') s)))"

definition api_resubmit :: "Request \<Rightarrow> ('job, 'rs, 'st) Scheduler \<Rightarrow> Response \<times> ('job, 'rs, 'st) Scheduler" where
  "api_resubmit r s =
     (if rq_Method r \<noteq> ''POST'' then (reply 405 (Text ''Method not allowed''), s)
      else if Query_Get r ''id'' = '''' then (reply 400 (Text ''Missing id''), s)
      else case Resubmit (Query_Get r ''id'') s of
             (Some err, s1) \<Rightarrow> (reply 500 (ErrText err), s1)
           | (None, s1) \<Rightarrow> (reply 200 NoBody, s1))"

definition api_scale :: "Request \<Rightarrow> ('job, 'rs, 'st) Scheduler \<Rightarrow> Response \<times> ('job, 'rs, 'st) Scheduler" where
  "api_scale r s =
     (if rq_Method r \<noteq> ''POST'' then (reply 405 (Text ''Method not allowed''), s)
      else if Query_Get r ''pool'' = '''' \<or> Query_Get r ''count'' = '''' then (reply 400 (Text ''Missing pool or count''), s)
      else (reply 200 NoBody, ScalePool (Query_Get r ''pool'') (Sscanf_d (Query_Get r ''count'')) s))"

definition dashboard_page :: Response where
  "dashboard_page = \<lparr>rp_Code = 200,
     rp_Header = [(''Content-Type'', ''text/html''), (''Cache-Control'', ''no-store, no-cache, must-revalidate, max-age=0''),
       (''Pragma'', ''no-cache'')],
     rp_Body = DashboardHTML\<rparr>"

section \<open>The rate limiter and the multiplexer\<close>

text \<open>The limiter is the number of tokens in \<open>limitChan\<close>, of capacity 10.\<close>

type_synonym limiter = nat

definition new_limiter :: limiter where
  "new_limiter = 10"

text \<open>A tick of the ticker: the send that finds the channel full is skipped. No tick comes after the stop.\<close>

definition limiter_tick :: "limiter \<Rightarrow> limiter" where
  "limiter_tick n = (if n < 10 then n + 1 else n)"

definition throttle ::
  "(Request \<Rightarrow> 's \<Rightarrow> Response \<times> 's) \<Rightarrow> Request \<Rightarrow> limiter \<times> 's \<Rightarrow> Response \<times> limiter \<times> 's" where
  "throttle nxt r st =
     (case st of
        (Suc n, s) \<Rightarrow> (case nxt r s of (resp, s1) \<Rightarrow> (resp, n, s1))
      | (0, s) \<Rightarrow> (reply 429 (Text ''Too many requests''), 0, s))"

text \<open>\<open>cleanPath\<close> of \<open>net/http\<close>: rooted, without empty and dot segments, a final slash kept.\<close>

fun clean_segs :: "string list \<Rightarrow> string list \<Rightarrow> string list" where
  "clean_segs acc [] = rev acc"
| "clean_segs acc (p # ps) =
     (if p = '''' \<or> p = ''.'' then clean_segs acc ps
      else if p = ''..'' then clean_segs (tl acc) ps
      else clean_segs (p # acc) ps)"

definition cleanPath :: "string \<Rightarrow> string" where
  "cleanPath p =
     (let np = CHR ''/'' # Join CHR ''/'' (clean_segs [] (Split CHR ''/'' p))
      in if p \<noteq> '''' \<and> last p = CHR ''/'' \<and> np \<noteq> ''/'' then np @ ''/'' else np)"

text \<open>
  \<open>DashboardHandler\<close>: the patterns of the multiplexer match exactly, except the last one, and a path that
  is not clean is redirected (other methods than \<open>CONNECT\<close>; the redirect keeps the query, which is left out
  of the location here).
\<close>

definition DashboardHandler ::
  "('rs, 'st) env \<Rightarrow> Request \<Rightarrow> limiter \<times> ('job, 'rs, 'st) Scheduler \<Rightarrow> Response \<times> limiter \<times> ('job, 'rs, 'st) Scheduler" where
  "DashboardHandler E r st =
     (let path = rq_Path r in
      if cleanPath path \<noteq> path then (\<lparr>rp_Code = 301, rp_Header = [(''Location'', cleanPath path)], rp_Body = NoBody\<rparr>, st)
      else if path = ''/api/stats'' then throttle (api_stats E) r st
      else if path = ''/api/pause'' then throttle api_pause r st
      else if path = ''/api/resume'' then throttle api_resume r st
      else if path = ''/api/cancel'' then throttle (api_cancel E) r st
      else if path = ''/api/resubmit'' then throttle api_resubmit r st
      else if path = ''/api/scale'' then throttle api_scale r st
      else (dashboard_page, st))"

text \<open>\<open>http.StripPrefix\<close> and \<open>Dashboard\<close>\<close>

definition StripPrefix ::
  "string \<Rightarrow> (Request \<Rightarrow> 'a \<Rightarrow> Response \<times> 'a) \<Rightarrow> Request \<Rightarrow> 'a \<Rightarrow> Response \<times> 'a" where
  "StripPrefix pre h r st =
     (if pre = '''' then h r st
      else if HasPrefix (rq_Path r) pre then h (r\<lparr>rq_Path := drop (length pre) (rq_Path r)\<rparr>) st
      else (reply 404 (Text ''404 page not found''), st))"

definition Dashboard ::
  "('rs, 'st) env \<Rightarrow> string \<Rightarrow> Request \<Rightarrow> limiter \<times> ('job, 'rs, 'st) Scheduler \<Rightarrow> Response \<times> limiter \<times> ('job, 'rs, 'st) Scheduler" where
  "Dashboard E pre =
     (if pre = '''' \<or> pre = ''/'' then DashboardHandler E
      else StripPrefix (TrimSuffix pre ''/'') (DashboardHandler E))"

end
