(* ===== verification/Middleware.thy ===== *)
theory Middleware
  imports Scheduler
begin

text \<open>
  The middlewares of \<open>middleware.go\<close>, with \<open>TaskID\<close> of \<open>scheduler.go\<close> and the interface of
  \<open>logger.go\<close>. A job is a function of its context and the world \<open>'w\<close>, which returns an error or panics;
  a middleware is a function from jobs to jobs, as the scheduler applies them.
\<close>

section \<open>Jobs and loggers\<close>

text \<open>A context carries the values stored under its keys; the scheduler stores the task ID.\<close>

record job_ctx =
  cv_task_id :: "string option"

datatype outcome = Returned "error option" | Panicked string

type_synonym 'w Job = "job_ctx \<Rightarrow> 'w \<Rightarrow> outcome \<times> 'w"

type_synonym 'w Middleware = "'w Job \<Rightarrow> 'w Job"

datatype log_value = LStr string | LDur int

type_synonym log_args = "(string \<times> log_value) list"

text \<open>The \<open>Logger\<close> interface, its methods as effects on the world.\<close>

record 'w Logger =
  lg_Debug :: "string \<Rightarrow> log_args \<Rightarrow> 'w \<Rightarrow> 'w"
  lg_Info :: "string \<Rightarrow> log_args \<Rightarrow> 'w \<Rightarrow> 'w"
  lg_Error :: "string \<Rightarrow> error \<Rightarrow> log_args \<Rightarrow> 'w \<Rightarrow> 'w"

text \<open>What the runtime supplies: \<open>time.Now\<close> and \<open>debug.Stack\<close>.\<close>

record 'w runtime =
  rt_Now :: "'w \<Rightarrow> int"
  rt_Stack :: "'w \<Rightarrow> string"

definition TaskID :: "job_ctx \<Rightarrow> string" where
  "TaskID ctx = (case cv_task_id ctx of Some tid \<Rightarrow> tid | None \<Rightarrow> '''')"

section \<open>The middlewares\<close>

text \<open>The deferred function runs when the job panics; the named result is then its zero value, no error.\<close>

definition Recovery :: "'w runtime \<Rightarrow> 'w Logger option \<Rightarrow> ('w \<Rightarrow> 'w) option \<Rightarrow> 'w Middleware" where
  "Recovery rt l onPanic nxt ctx w =
     (case nxt ctx w of
        (Returned err, w1) \<Rightarrow> (Returned err, w1)
      | (Panicked r, w1) \<Rightarrow>
          (let w2 = (case l of None \<Rightarrow> w1
                 | Some lg \<Rightarrow> lg_Error lg ''panic captured in job'' (ErrBackend r) [(''stack'', LStr (rt_Stack rt w1))] w1)
           in (Returned None, case onPanic of None \<Rightarrow> w2 | Some f \<Rightarrow> f w2)))"

definition Logging :: "'w runtime \<Rightarrow> 'w Logger option \<Rightarrow> 'w Middleware" where
  "Logging rt l nxt ctx w =
     (case l of
        None \<Rightarrow> nxt ctx w
      | Some lg \<Rightarrow>
          (let tid = TaskID ctx;
               w1 = lg_Info lg ''task started'' [(''task_id'', LStr tid)] w;
               start = rt_Now rt w1
           in case nxt ctx w1 of
                (Panicked r, w2) \<Rightarrow> (Panicked r, w2)
              | (Returned err, w2) \<Rightarrow>
                  (let dur = rt_Now rt w2 - start;
                       args = [(''task_id'', LStr tid), (''duration'', LDur dur)]
                   in (Returned err,
                       case err of
                         Some e \<Rightarrow> lg_Error lg ''task finished with error'' e args w2
                       | None \<Rightarrow> lg_Info lg ''task finished successfully'' args w2))))"

section \<open>Chains\<close>

text \<open>The first middleware given to \<open>Use\<close> is the outermost.\<close>

lemma apply_middlewares_simps [simp]:
  "apply_middlewares [] job = job" "apply_middlewares (m # ms) job = m (apply_middlewares ms job)"
  "apply_middlewares (ms @ ms') job = apply_middlewares ms (apply_middlewares ms' job)"
  by (simp_all add: apply_middlewares_def)

lemma Use_chain: "apply_middlewares (s_middlewares (Use ms s)) job = apply_middlewares (s_middlewares s) (apply_middlewares ms job)"
  by (simp add: Use_def)

lemma Recovery_no_panic: "fst (Recovery rt l f nxt ctx w) \<noteq> Panicked r"
  by (simp add: Recovery_def Let_def split: prod.split outcome.split)

lemma Recovery_fst:
  "fst (Recovery rt l f nxt ctx w) = (case fst (nxt ctx w) of Returned err \<Rightarrow> Returned err | Panicked r \<Rightarrow> Returned None)"
  by (simp add: Recovery_def Let_def split: prod.split outcome.split)

lemma Logging_fst: "\<exists>v. fst (Logging rt l nxt ctx w) = fst (nxt ctx v)"
proof (cases l)
  case (Some lg)
  then have "fst (Logging rt l nxt ctx w) = fst (nxt ctx (lg_Info lg ''task started'' [(''task_id'', LStr (TaskID ctx))] w))"
    by (simp add: Logging_def Let_def split: prod.split outcome.split)
  then show ?thesis by blast
qed (auto simp: Logging_def)

end
