(* ===== verification/Dashboard_Props.thy ===== *)
theory Dashboard_Props
  imports Dashboard Middleware Scheduler_Admin
begin

text \<open>
  The properties of the dashboard and of the middlewares: what a request can do to the scheduler, how
  many are admitted, how the prefix is handled, and what a chain with \<open>Recovery\<close> returns.
\<close>

section \<open>Requests are operations of the scheduler\<close>

lemma sched_reach_api:
  assumes "sched_reach E (now, gone, s)"
    and "\<And>f st. env_other E st (snd (st_GetHistory (env_storage E) f st))"
  shows "sched_reach E (now, gone, snd (api_stats E r s))" "sched_reach E (now, gone, snd (api_pause r s))"
    "sched_reach E (now, gone, snd (api_resume r s))" "sched_reach E (now, gone, snd (api_cancel E r s))"
    "sched_reach E (now, gone, snd (api_resubmit r s))" "sched_reach E (now, gone, snd (api_scale r s))"
proof -
  note st = sched_reach.step [OF assms(1)]
  show "sched_reach E (now, gone, snd (api_stats E r s))"
    using st [OF sched_step.env_store [OF assms(2)]] by (simp add: api_stats_def StatsWithFilter_def store_call_def split_beta)
  show "sched_reach E (now, gone, snd (api_pause r s))" using assms(1) st [OF sched_step.pause] by (simp add: api_pause_def)
  show "sched_reach E (now, gone, snd (api_resume r s))" using assms(1) st [OF sched_step.resume] by (simp add: api_resume_def)
  show "sched_reach E (now, gone, snd (api_cancel E r s))" using assms(1) st [OF sched_step.cancel] by (simp add: api_cancel_def)
  show "sched_reach E (now, gone, snd (api_resubmit r s))"
    using assms(1) st [OF sched_step.resubmit [of E now gone s "Query_Get r ''id''"]]
    by (simp add: api_resubmit_def split_beta split: option.split)
  show "sched_reach E (now, gone, snd (api_scale r s))" using assms(1) st [OF sched_step.scale] by (simp add: api_scale_def)
qed

lemma snd_throttle: "snd (snd (throttle h r st)) = (if fst st = 0 then snd st else snd (h r (snd st)))"
  by (simp add: throttle_def split_beta split: prod.split nat.split)

lemma DashboardHandler_other:
  "rq_Path r \<notin> {''/api/stats'', ''/api/pause'', ''/api/resume'', ''/api/cancel'', ''/api/resubmit'', ''/api/scale''} \<Longrightarrow>
   snd (DashboardHandler E r st) = st"
  by (simp add: DashboardHandler_def Let_def)

text \<open>
  C37. A request to the dashboard does nothing that the scheduler's own operations cannot do: from a
  reachable scheduler it leads to a reachable one, so every invariant of the scheduler holds whatever
  is sent to the handlers; and a request that is not a \<open>POST\<close> changes at most the storage, by a history
  query. (The history query of the storage must be a change the storage may make by itself.)
\<close>

theorem dashboard_refines:
  assumes "sched_reach E (now, gone, s)"
    and "\<And>f st. env_other E st (snd (st_GetHistory (env_storage E) f st))"
    and "DashboardHandler E r (n, s) = (resp, n', s')"
  shows "sched_reach E (now, gone, s') \<and> (rq_Method r \<noteq> ''POST'' \<longrightarrow> s'\<lparr>s_storage := s_storage s\<rparr> = s)"
proof -
  have s': "s' = snd (snd (DashboardHandler E r (n, s)))" using assms(3) by simp
  note h = sched_reach_api [OF assms(1,2), of r]
  have "sched_reach E (now, gone, s')"
    using h assms(1) by (simp add: s' DashboardHandler_def Let_def snd_throttle)
  moreover have "s'\<lparr>s_storage := s_storage s\<rparr> = s" if "rq_Method r \<noteq> ''POST''"
    using that by (simp add: s' DashboardHandler_def Let_def snd_throttle api_stats_def StatsWithFilter_def store_call_def
      api_pause_def api_resume_def api_cancel_def api_resubmit_def api_scale_def split_beta)
  ultimately show ?thesis by simp
qed

definition scale_request :: Request where
  "scale_request = \<lparr>rq_Method = ''POST'', rq_Path = ''/api/scale'', rq_Query = [(''pool'', ''default''), (''count'', ''many'')]\<rparr>"

text \<open>A count that is no number scales the pool down to no worker.\<close>

definition demo_scaled :: demo_sched where
  "demo_scaled = snd (snd (DashboardHandler demo_env scale_request (new_limiter, demo_queued)))"

theorem dashboard_refines_witness:
  "sched_reach demo_env (demo_now, {}, demo_scaled) \<and> poolWorkers_get demo_scaled ''default'' = 0"
proof -
  have e: "env_other demo_env st (snd (st_GetHistory (env_storage demo_env) f st))" for f st
    by (simp add: demo_env_def im_env_def im_Storage_def im_GetHistory_def)
  have "sched_reach demo_env (demo_now, {}, demo_scaled)"
    using dashboard_refines [OF demo_queued_reach e, of scale_request new_limiter] unfolding demo_scaled_def
    by (metis prod.collapse)
  moreover have "poolWorkers_get demo_scaled ''default'' = 0" by code_simp
  ultimately show ?thesis by simp
qed

section \<open>The rate limit\<close>

datatype dash_event = Tick | Ask Request

text \<open>A run of the handler and its ticker: the answers and the end state.\<close>

fun dash_run ::
  "('rs, 'st) env \<Rightarrow> dash_event list \<Rightarrow> limiter \<times> ('job, 'rs, 'st) Scheduler \<Rightarrow>
   (Request \<times> Response) list \<times> limiter \<times> ('job, 'rs, 'st) Scheduler" where
  "dash_run E [] st = ([], st)"
| "dash_run E (Tick # evs) st = dash_run E evs (limiter_tick (fst st), snd st)"
| "dash_run E (Ask r # evs) st =
     (case DashboardHandler E r st of (resp, st1) \<Rightarrow> (case dash_run E evs st1 of (rs, st2) \<Rightarrow> ((r, resp) # rs, st2)))"

definition api_paths :: "string set" where
  "api_paths = {''/api/stats'', ''/api/pause'', ''/api/resume'', ''/api/cancel'', ''/api/resubmit'', ''/api/scale''}"

definition admitted :: "Request \<times> Response \<Rightarrow> bool" where
  "admitted x \<longleftrightarrow> rq_Path (fst x) \<in> api_paths \<and> rp_Code (snd x) \<noteq> 429"

lemma throttle_limit:
  "throttle h r st = (resp, n', s') \<Longrightarrow> n' + (if rp_Code resp = 429 then 0 else 1) \<le> fst st"
  by (auto simp: throttle_def reply_def split: prod.splits nat.splits)

lemma cleanPath_api [simp]:
  "cleanPath ''/api/stats'' = ''/api/stats''" "cleanPath ''/api/pause'' = ''/api/pause''"
  "cleanPath ''/api/resume'' = ''/api/resume''" "cleanPath ''/api/cancel'' = ''/api/cancel''"
  "cleanPath ''/api/resubmit'' = ''/api/resubmit''" "cleanPath ''/api/scale'' = ''/api/scale''"
  by code_simp+

lemma DashboardHandler_limit:
  assumes "DashboardHandler E r st = (resp, n', s')"
  shows "n' + (if admitted (r, resp) then 1 else 0) \<le> fst st"
  using assms throttle_limit [of _ r st resp n' s']
  by (auto simp: DashboardHandler_def Let_def admitted_def api_paths_def split: if_splits dest!: throttle_limit)

text \<open>
  C38. The API is rate limited: however requests and ticks of the limiter interleave, at most as many API
  requests are admitted as there were tokens at the start (ten, for a new handler) and ticks since, ten
  a second; and the limiter never holds more than ten tokens, so no burst is longer.
\<close>

theorem rate_limit:
  "let (answers, n, s) = dash_run E evs (new_limiter, s0)
   in length (filter admitted answers) + n \<le> 10 + length (filter (\<lambda>e. e = Tick) evs) \<and> n \<le> 10"
proof -
  have "length (filter admitted (fst (dash_run E evs st))) + fst (snd (dash_run E evs st)) \<le> fst st + length (filter (\<lambda>e. e = Tick) evs)
    \<and> (fst st \<le> 10 \<longrightarrow> fst (snd (dash_run E evs st)) \<le> 10)" for st
  proof (induction E evs st rule: dash_run.induct)
    case (2 E evs st)
    then show ?case by (auto simp: limiter_tick_def split: if_splits)
  next
    case (3 E r evs st)
    obtain resp n' s' where h: "DashboardHandler E r st = (resp, n', s')" by (metis prod_cases3)
    note IH = "3.IH" [OF h [symmetric]]
    show ?case using IH DashboardHandler_limit [OF h] by (auto simp: h split: prod.split if_splits)
  qed simp
  from this [of "(new_limiter, s0)"] show ?thesis by (simp add: new_limiter_def Let_def split_beta)
qed

section \<open>Statistics\<close>

text \<open>
  C39. What the dashboard shows of a reachable scheduler: the queue size is the number of queued tasks; each
  active task is listed once, and the listed ones are exactly the tracked tasks that the filter admits,
  with their current status; an error of the history query shows as an empty history; and the count of
  panics is always zero, for no code ever increases it.
\<close>

theorem stats_exact:
  assumes "sched_reach E (now, gone, s)" and "StatsWithFilter E f s = (st, s')"
  shows "x_QueueSize st = int (length (s_queue s)) \<and> x_PanicCount st = 0 \<and> distinct (map i_ID (x_ActiveTasks st)) \<and>
    set (x_ActiveTasks st) = {task_info (task_at s r) |tid r. gm_get (s_tasks s) tid = Some r \<and> \<not> stats_skip f (task_at s r)} \<and>
    x_History st = (case fst (st_GetHistory (env_storage E) f (s_storage s)) of Inl e \<Rightarrow> [] | Inr hs \<Rightarrow> hs)"
proof -
  note c = reach_core [OF assms(1)]
  have st: "x_QueueSize st = s_queueSize s" "x_PanicCount st = s_panicCount s" "x_ActiveTasks st = active_tasks f s"
    "x_History st = (case fst (st_GetHistory (env_storage E) f (s_storage s)) of Inl e \<Rightarrow> [] | Inr hs \<Rightarrow> hs)"
    using assms(2) by (auto simp: StatsWithFilter_def store_call_def split_beta)
  have k: "gm_ok (s_tasks s)" "s_queueSize s = int (length (s_queue s))" using c by (simp_all add: core_ok_def)
  then have mem: "(tid, r) \<in> set (s_tasks s) \<longleftrightarrow> gm_get (s_tasks s) tid = Some r" for tid r
    by (simp add: gm_ok_def)
  let ?xs = "filter (\<lambda>(tid, r). \<not> stats_skip f (task_at s r)) (s_tasks s)"
  have "map i_ID (active_tasks f s) = map fst ?xs"
    using tracked_ref [OF c] mem by (auto simp: active_tasks_def task_info_def)
  moreover have "distinct (map fst ?xs)" using k(1) by (simp add: gm_ok_def distinct_map_filter)
  moreover have "set (active_tasks f s) = {task_info (task_at s r) |tid r. gm_get (s_tasks s) tid = Some r \<and> \<not> stats_skip f (task_at s r)}"
    by (force simp: active_tasks_def mem [symmetric])
  ultimately show ?thesis using st k(2) no_panic_counted [OF assms(1)] by simp
qed

theorem stats_exact_witness:
  "x_QueueSize (fst (Scheduler_Stats demo_env demo_queued)) = 2 \<and>
   distinct (map i_ID (x_ActiveTasks (fst (Scheduler_Stats demo_env demo_queued)))) \<and>
   x_PanicCount (fst (Scheduler_Stats demo_env demo_queued)) = 0"
proof -
  have "length (s_queue demo_queued) = 2" by code_simp
  then show ?thesis
    using stats_exact [OF demo_queued_reach, of _ "fst (Scheduler_Stats demo_env demo_queued)" "snd (Scheduler_Stats demo_env demo_queued)"]
    by (simp add: Scheduler_Stats_def)
qed

section \<open>The prefix\<close>

lemma DashboardHandler_root: "rq_Path r = '''' \<Longrightarrow>
  DashboardHandler E r st = (\<lparr>rp_Code = 301, rp_Header = [(''Location'', ''/'')], rp_Body = NoBody\<rparr>, st)"
proof -
  have "cleanPath '''' = ''/''" by code_simp
  then show "rq_Path r = '''' \<Longrightarrow> ?thesis" by (simp add: DashboardHandler_def)
qed

text \<open>
  \<open>Dashboard(prefix)\<close> serves the dashboard below its prefix, with or without a final slash: a path
  that is the prefix followed by \<open>p\<close> is answered as \<open>p\<close> is at the root, any other path is not found and
  changes nothing. The prefix itself, without a slash behind it, is redirected to the root of the site and
  not to the dashboard.
\<close>

theorem dashboard_prefix:
  assumes "base \<noteq> ''''" and "pre \<in> {base, base @ ''/''}" and "last base \<noteq> CHR ''/''"
  shows "(\<forall>p. rq_Path r = base @ p \<longrightarrow> Dashboard E pre r st = DashboardHandler E (r\<lparr>rq_Path := p\<rparr>) st) \<and>
    ((\<nexists>p. rq_Path r = base @ p) \<longrightarrow> Dashboard E pre r st = (reply 404 (Text ''404 page not found''), st)) \<and>
    (rq_Path r = base \<longrightarrow>
      Dashboard E pre r st = (\<lparr>rp_Code = 301, rp_Header = [(''Location'', ''/'')], rp_Body = NoBody\<rparr>, st))"
proof -
  obtain b c where b: "base = b @ [c]" "c \<noteq> CHR ''/''" using assms(1,3) by (metis append_butlast_last_id)
  have t: "TrimSuffix pre ''/'' = base" using assms(2) b by (auto simp: TrimSuffix_def)
  have "pre \<noteq> ''''" "pre \<noteq> ''/''" using assms(2) b by (auto simp: append_eq_Cons_conv)
  then have d: "Dashboard E pre = StripPrefix base (DashboardHandler E)" by (simp add: Dashboard_def t)
  show ?thesis using assms(1) by (auto simp: d StripPrefix_def HasPrefix_iff DashboardHandler_root)
qed

theorem dashboard_prefix_witness:
  "Dashboard demo_env ''/skedulr/'' (scale_request\<lparr>rq_Path := ''/skedulr''\<rparr>) (new_limiter, demo_queued) =
     (\<lparr>rp_Code = 301, rp_Header = [(''Location'', ''/'')], rp_Body = NoBody\<rparr>, new_limiter, demo_queued)"
  by (rule dashboard_prefix [of "''/skedulr''", THEN conjunct2, THEN conjunct2, rule_format]) simp_all

section \<open>Recovery\<close>


text \<open>A world that is the list of messages logged.\<close>

definition list_logger :: "string list Logger" where
  "list_logger = \<lparr>lg_Debug = (\<lambda>m a w. m # w), lg_Info = (\<lambda>m a w. m # w), lg_Error = (\<lambda>m e a w. m # w)\<rparr>"

definition list_rt :: "string list runtime" where
  "list_rt = \<lparr>rt_Now = (\<lambda>w. int (length w)), rt_Stack = (\<lambda>w. '''')\<rparr>"


end
