(* ===== verification/Spec2Isabelle.thy ===== *)
theory Spec2Isabelle
  imports Wheel_Props Scheduler_Props Scheduler_Life Scheduler_Keys Scheduler_Admin Scheduler_Timers Scheduler_Drain
    Cron_Props Retry_Props Storage_Props Redis_Props Scheduler_Redis Dashboard_Props
begin

text \<open>
  Skedulr is a Go library that runs background work: tasks are submitted with a priority, scheduled for
  later, repeatedly or by a cron expression, run by pools of workers, retried with a backoff, cancelled,
  persisted in Redis and watched on a dashboard. This library models the package (the Go files in \<open>src/\<close>)
  and proves what its components guarantee, alone and together.

  \<^bold>\<open>The program.\<close> \<open>Submit\<close> puts a task in a priority queue (\<open>container/heap\<close>). The dequeue loop takes the most
  urgent task and hands it to a worker of its pool, which runs it through the middlewares. A run that fails is
  retried, dead or failed; a retry, a delayed task, a recurring one and a cron job are parked as callbacks in
  one hierarchical timing wheel. Named jobs are also written to a \<open>Storage\<close>, in memory or in Redis, whose Lua
  scripts give out leases, due tasks, orphans and the tasks of a workflow that became ready. The dashboard's
  HTTP handlers read the scheduler and call its operations.

  \<^bold>\<open>The theories, and the code they model.\<close>

  \<^item> \<open>Skedulr_Prelude\<close>: 64-bit arithmetic with its wrap-around, Go's run-time faults (\<open>'a go\<close>), list lemmas,
    the collections of simplification rules. \<open>Go_Map\<close>: maps as association lists. \<open>Go_Strings\<close>: the parts of
    \<open>strings\<close> that the code uses.
  \<^item> \<open>Go_Heap\<close>: \<open>container/heap\<close>, over the locale \<open>heap_impl\<close> for an implementation of \<open>heap.Interface\<close>;
    interpreted by \<open>bucketHeap\<close> (\<open>bq\<close> in \<open>Delay_Queue\<close>) and by \<open>taskQueue\<close> (\<open>tq\<close> in \<open>Task\<close>).
  \<^item> \<open>Delay_Queue\<close>, \<open>Timing_Wheel\<close>: \<open>timing_wheel.go\<close>, bottom up: buckets, \<open>delayQueue\<close>, one level
    (\<open>timingWheel\<close>), the public \<open>TimingWheel\<close>. \<open>Wheel_Invariant\<close>, \<open>Wheel_Correct\<close>: where each entry is filed and
    when its bucket comes due. \<open>Wheel_Run\<close>: the wheel as a state machine. \<open>Wheel_Props\<close>: its properties.
  \<^item> \<open>Task\<close>: the \<open>task\<close> object, its builders and \<open>taskQueue\<close>. \<open>Cron\<close>, \<open>Calendar\<close>, \<open>Cron_Props\<close>: \<open>cron.go\<close> with
    the calendar of package \<open>time\<close>. \<open>Retry\<close>, \<open>Retry_Props\<close>: \<open>retry.go\<close> on IEEE doubles.
  \<^item> \<open>Storage\<close>, \<open>Storage_Props\<close>: the interface \<open>Storage\<close> as a record of operations, and \<open>InMemoryStorage\<close>.
    \<open>Redis_Storage\<close>: \<open>RedisStorage\<close> and the Lua scripts over a record of Redis commands. \<open>Redis_Server\<close>: the
    laws of these commands as the locales \<open>redis_server\<close>, \<open>live_redis_server\<close> and \<open>redis_pubsub\<close>, and what
    the storage guarantees over any server with these laws. \<open>Mini_Redis\<close>: a server that has them. \<open>Redis_Props\<close>: the
    properties, with runs against it.
  \<^item> \<open>Scheduler\<close>, \<open>Scheduler_Loops\<close>: \<open>scheduler.go\<close>, the scheduling part of \<open>cron.go\<close>, and \<open>options.go\<close>.
    \<open>Scheduler_Invariant\<close>, \<open>Scheduler_Frame\<close>, \<open>Scheduler_Run\<close>, \<open>Scheduler_Pools\<close>: the invariants of its data, the
    state machine \<open>sched_step\<close>, and the wheel inside it. \<open>Retry_Budget\<close>: the attempts, over the locale
    \<open>storage_contract\<close>. \<open>Scheduler_Props\<close>, \<open>Scheduler_Life\<close>, \<open>Scheduler_Keys\<close>, \<open>Scheduler_Admin\<close>: the properties of
    submission, runs, keys and administration; \<open>Scheduler_Demo\<close>: the run that witnesses them.
    \<open>Pool_Machine\<close>: the hand-over from the dequeue loop to the workers as a small machine, and that each step of
    the scheduler is one of its moves; \<open>Scheduler_Progress\<close>: what follows for the pools; \<open>Scheduler_Drain\<close>: progress.
    \<open>Scheduler_Timers\<close>: delayed and repeated work, from the call through the wheel to the submission.
    \<open>Scheduler_Redis\<close>: the scheduler over the Redis storage, and two schedulers that share one server.
  \<^item> \<open>Middleware\<close>: \<open>middleware.go\<close> and the interface of \<open>logger.go\<close>. \<open>Dashboard\<close>: \<open>server.go\<close>.
    \<open>Dashboard_Props\<close>: the properties of both.

  \<^bold>\<open>State and steps.\<close> A record of the Go struct's fields is passed through every operation. What Go shares
  through pointers is a store and references into it: entries and buckets of the wheel, task objects and
  contexts of the scheduler. What holds a mutex in Go is one atomic step. A goroutine is cut where it waits: a
  worker is starting, idle, running or gone, the dequeue loop holds at most one task that it is sending, a job
  is its result, which arrives in a later step. \<open>wheel_step\<close> and \<open>sched_step\<close> take these steps in any order, with
  time passing in between; \<open>wheel_reach\<close> and \<open>sched_reach\<close> are the states that some run reaches. \<open>go\<close>
  statements that only start a callback are recorded in a log of the wheel, and each logged callback is run
  once by a later step of the scheduler.

  \<^bold>\<open>What is shown.\<close> Of the wheel: no run faults; the tick loop fires exactly what is due, once, not a whole
  tick early; cancelling and replacing work; the index is exact; the delay queue yields the least bucket. Of
  the scheduler: its data stay well-formed in every reachable state; its wheel only makes the wheel's own
  steps; the most urgent task is dispatched; a task's attempts stay within its budget; and what submission,
  success, failure, cancellation, resubmission, pause and shutdown do on every branch; a one-shot schedule is
  delivered, a recurring one and a cron job park themselves again after each fire; the pools refine the
  hand-over machine, the queue drains when every pool is served, and a pool nobody serves stops all others. Of cron: the search
  terminates with the first match, and a match means what the calendar says. Of the retry strategies: the
  floating-point result is the exact integer one, and how far the jitter moves it. Of Redis: leases exclude,
  the queue yields the greatest score, due tasks are handed out once, orphans come back, waiting tasks are
  released by their last dependency, saved tasks are loaded, a cancellation reaches the other instances. Of the dashboard: requests are operations of the
  scheduler, their rate is bounded, the prefix is stripped. Where the code departs from its documentation, a
  theorem says so: a persistent task is queued twice, a retry may exceed \<open>MaxDelay\<close>, a cron job that never
  matches runs after a year, a short lease loses a task, a dependency named twice blocks for ever, a panic under
  \<open>Recovery\<close> is a success, and a cancellation between the dispatch of a callback and its run is lost.

  \<^bold>\<open>Bounds and fuel.\<close> The tick loop runs with fuel that the number of filed buckets and levels bounds; that enough
  fuel exists is part of what is proved. An insertion recurses over at most \<open>maxDepth\<close> levels, more than 64-bit
  times can need. Times are bounded (\<open>time_ok\<close>, \<open>now_ok\<close>, \<open>delay_ok\<close>: beyond the year 280,000) so that the
  wheel's 64-bit arithmetic is exact; \<open>default_wheel_overflow\<close> shows that it faults beyond them. The cron search
  looks at 525,600 minutes, as in the code.

  \<^bold>\<open>Parameters.\<close> The Redis server, its Go client and the JSON encoders; the uuid package (an ID is an argument);
  the time zone; the random number of the jitter; the conversion of a double that does not fit an \<open>int64\<close>; the
  jobs; the logger. Hypotheses on them are named, state documented behaviour, and hold of the instances that the
  witnesses use.

  \<^bold>\<open>Not modelled.\<close> The log lines of the scheduler (of the logger only whether it is set is kept); the Go memory model below the
  granularity of the critical sections; the waits of \<open>ShutDown\<close>; a round of the dequeue loop inside \<open>New\<close>, before the default pool exists
  (\<open>New_interleaved_loses_workers\<close> shows its effect); the tickers of the loops, so a lease too short for them; the embedded page and the JSON and error text of the HTTP bodies; expiry of Redis keys
  over time, other than as a change of the server's state; \<open>generateId\<close>; and the demonstration program in
  \<open>example/\<close>, which has no logic of its own.
\<close>

end
